(* ===== verification/Prelude.thy ===== *)
theory Prelude
  imports Main "HOL-Library.Sublist"
begin

text \<open>
  Shared ground of the development: the fact collections the component theories fill, the
  type names of the model, and the generic lemmas on lists that several components use.

  A table of the database is the list of its rows in the order they were inserted.
  \<open>find_row\<close> is a SELECT that takes the first row, \<open>update_where\<close> is an UPDATE
  with a WHERE clause, \<open>delete_where\<close> a DELETE. All three compute, so that every
  operation built on them can be evaluated on a concrete state.
\<close>

section \<open>Fact collections\<close>

named_theorems repo_defs \<open>definitions of the repository functions\<close>
named_theorems table_simps \<open>how reads of a table see its updates\<close>
named_theorems service_defs \<open>definitions of service operations\<close>

section \<open>Names of the model\<close>

type_synonym millis = int
  \<comment> \<open>a JavaScript \<open>Date\<close>: milliseconds since 1970-01-01T00:00:00Z\<close>

type_synonym uuid = string

section \<open>Rows, updates and deletes\<close>

definition find_row :: "('r \<Rightarrow> bool) \<Rightarrow> 'r list \<Rightarrow> 'r option" where
  "find_row P rs = List.find P rs"

definition update_where :: "('r \<Rightarrow> bool) \<Rightarrow> ('r \<Rightarrow> 'r) \<Rightarrow> 'r list \<Rightarrow> 'r list" where
  "update_where P f rs = map (\<lambda>r. if P r then f r else r) rs"

definition count_rows :: "('r \<Rightarrow> bool) \<Rightarrow> 'r list \<Rightarrow> int" where
  "count_rows P rs = int (length (filter P rs))"

lemma find_row_Nil [simp]: "find_row P [] = None"
  by (simp add: find_row_def)

lemma find_row_Cons [simp]: "find_row P (r # rs) = (if P r then Some r else find_row P rs)"
  by (simp add: find_row_def)

lemma find_row_None_iff: "find_row P rs = None \<longleftrightarrow> (\<forall>r \<in> set rs. \<not> P r)"
  by (induction rs) auto

lemma find_row_SomeD: "find_row P rs = Some r \<Longrightarrow> r \<in> set rs \<and> P r"
  by (induction rs) (auto split: if_splits)

lemma find_row_append [table_simps]:
  "find_row P (rs @ ss) = (case find_row P rs of None \<Rightarrow> find_row P ss | Some r \<Rightarrow> Some r)"
  by (induction rs) auto

lemma find_row_cong: "(\<And>r. r \<in> set rs \<Longrightarrow> P r = Q r) \<Longrightarrow> find_row P rs = find_row Q rs"
  by (simp add: find_row_def cong: find_cong)

lemma find_row_ex: "r \<in> set rs \<Longrightarrow> P r \<Longrightarrow> \<exists>r'. find_row P rs = Some r'"
  by (induction rs) auto

lemma find_row_unique:
  assumes "r \<in> set rs" and "P r" and "\<And>r'. r' \<in> set rs \<Longrightarrow> P r' \<Longrightarrow> r' = r"
  shows "find_row P rs = Some r"
proof -
  obtain r' where r': "find_row P rs = Some r'"
    using find_row_ex [of r rs P] assms(1,2) by blast
  then have "r' = r" using assms(3) by (blast dest: find_row_SomeD)
  with r' show ?thesis by simp
qed

lemma update_where_Nil [simp]: "update_where P f [] = []"
  by (simp add: update_where_def)

lemma update_where_Cons [simp]:
  "update_where P f (r # rs) = (if P r then f r else r) # update_where P f rs"
  by (simp add: update_where_def)

lemma update_where_append [simp]:
  "update_where P f (rs @ ss) = update_where P f rs @ update_where P f ss"
  by (simp add: update_where_def)

lemma length_update_where [simp]: "length (update_where P f rs) = length rs"
  by (simp add: update_where_def)

lemma set_update_where:
  "set (update_where P f rs) = {r. r \<in> set rs \<and> \<not> P r} \<union> f ` {r. r \<in> set rs \<and> P r}"
  by (auto simp: update_where_def)

lemma update_where_none: "(\<forall>r \<in> set rs. \<not> P r) \<Longrightarrow> update_where P f rs = rs"
  by (induction rs) auto

lemma update_where_cong: "(\<And>r. r \<in> set rs \<Longrightarrow> P r = Q r) \<Longrightarrow> update_where P f rs = update_where Q f rs"
  by (simp add: update_where_def)

lemma update_where_False [simp]: "update_where (\<lambda>r. False) f rs = rs"
  by (simp add: update_where_def)

text \<open>A column that the update does not write keeps its values.\<close>

lemma map_update_where [table_simps]:
  "(\<And>r. k (f r) = k r) \<Longrightarrow> map k (update_where P f rs) = map k rs"
  by (induction rs) auto

lemma find_row_update_where_other:
  assumes "\<And>r. Q (f r) = Q r" and "\<And>r. Q r \<Longrightarrow> \<not> P r"
  shows "find_row Q (update_where P f rs) = find_row Q rs"
  using assms by (induction rs) auto

lemma find_row_update_where:
  assumes "\<And>r. Q (f r) = Q r"
  shows "find_row Q (update_where P f rs) =
    map_option (\<lambda>r. if P r then f r else r) (find_row Q rs)"
  using assms by (induction rs) auto

lemma find_row_update_where_dead:
  assumes "\<And>r. Q r \<Longrightarrow> P r" and "\<And>r. \<not> Q (f r)"
  shows "find_row Q (update_where P f rs) = None"
  using assms by (induction rs) auto

lemma count_rows_append [simp]: "count_rows P (rs @ ss) = count_rows P rs + count_rows P ss"
  by (simp add: count_rows_def)

lemma count_rows_Nil [simp]: "count_rows P [] = 0"
  by (simp add: count_rows_def)

lemma count_rows_Cons [simp]: "count_rows P (r # rs) = (if P r then 1 else 0) + count_rows P rs"
  by (simp add: count_rows_def)

lemma count_rows_nonneg [simp]: "0 \<le> count_rows P rs"
  by (simp add: count_rows_def)

section \<open>Rows with a primary key\<close>

lemma distinct_map_eqD:
  "distinct (map k rs) \<Longrightarrow> r \<in> set rs \<Longrightarrow> s \<in> set rs \<Longrightarrow> k r = k s \<Longrightarrow> r = s"
  by (auto simp: distinct_map dest: inj_onD)

lemma find_row_key:
  assumes "distinct (map k rs)" and "r \<in> set rs"
  shows "find_row (\<lambda>x. k x = k r) rs = Some r"
  by (rule find_row_unique) (use assms in \<open>auto dest: distinct_map_eqD\<close>)

section \<open>Lists\<close>

lemma takeWhile_prefix_eq:
  "(\<forall>x \<in> set xs. P x) \<Longrightarrow> (ys = [] \<or> \<not> P (hd ys)) \<Longrightarrow> takeWhile P (xs @ ys) = xs"
  by (induction xs) (cases ys; auto)+

text \<open>
  Two texts that each consist of a block of \<open>P\<close> characters and a rest that does not
  start with one agree only block by block.
\<close>

lemma span_unique:
  assumes "xs @ us = ys @ vs" and "\<forall>x \<in> set xs. P x" and "\<forall>y \<in> set ys. P y"
    and "us = [] \<or> \<not> P (hd us)" and "vs = [] \<or> \<not> P (hd vs)"
  shows "xs = ys \<and> us = vs"
proof -
  have "xs = takeWhile P (xs @ us)" using assms(2,4) by (rule takeWhile_prefix_eq [symmetric])
  also have "\<dots> = takeWhile P (ys @ vs)" by (simp add: assms(1))
  also have "\<dots> = ys" using assms(3,5) by (rule takeWhile_prefix_eq)
  finally show ?thesis using assms(1) by simp
qed

end
