(* ===== verification/Errors.thy ===== *)
theory Errors
  imports JsString
begin

text \<open>
  The error classes of \<open>types/errors.ts\<close>, the values a handler may throw, and the Express
  error handler that turns a thrown value into the response of the request
  (\<open>middleware/errorHandler.ts\<close>). Every operation of the model that can throw returns a
  value of \<open>'a result\<close>: \<open>Inl\<close> is the thrown value, \<open>Inr\<close> the value returned.
\<close>

section \<open>Error classes\<close>

datatype detail = FieldMessage string string | FieldValue string string

datatype error_class =
    AuthErrorClass
  | ValidationErrorClass
  | NotFoundErrorClass
  | ForbiddenErrorClass
  | ConflictErrorClass
  | GoneErrorClass
  | UnprocessableErrorClass
  | RateLimitErrorClass "int option" \<comment> \<open>\<open>retryAfter\<close>, \<open>None\<close> for undefined\<close>

record app_error =
  err_class :: error_class
  err_message :: string
  err_status :: int
  err_code :: string
  err_details :: "detail list option"

definition AuthError :: "string \<Rightarrow> string \<Rightarrow> app_error" where
  "AuthError message code =
     \<lparr>err_class = AuthErrorClass, err_message = message, err_status = 401, err_code = code,
      err_details = None\<rparr>"

definition ValidationError :: "string \<Rightarrow> string \<Rightarrow> detail list option \<Rightarrow> app_error" where
  "ValidationError message code details =
     \<lparr>err_class = ValidationErrorClass, err_message = message, err_status = 400, err_code = code,
      err_details = details\<rparr>"

definition NotFoundError :: "string \<Rightarrow> string \<Rightarrow> app_error" where
  "NotFoundError message code =
     \<lparr>err_class = NotFoundErrorClass, err_message = message, err_status = 404, err_code = code,
      err_details = None\<rparr>"

definition ForbiddenError :: "string \<Rightarrow> string \<Rightarrow> app_error" where
  "ForbiddenError message code =
     \<lparr>err_class = ForbiddenErrorClass, err_message = message, err_status = 403, err_code = code,
      err_details = None\<rparr>"

definition ConflictError :: "string \<Rightarrow> string \<Rightarrow> app_error" where
  "ConflictError message code =
     \<lparr>err_class = ConflictErrorClass, err_message = message, err_status = 409, err_code = code,
      err_details = None\<rparr>"

definition GoneError :: "string \<Rightarrow> string \<Rightarrow> app_error" where
  "GoneError message code =
     \<lparr>err_class = GoneErrorClass, err_message = message, err_status = 410, err_code = code,
      err_details = None\<rparr>"

definition UnprocessableError :: "string \<Rightarrow> string \<Rightarrow> detail list option \<Rightarrow> app_error" where
  "UnprocessableError message code details =
     \<lparr>err_class = UnprocessableErrorClass, err_message = message, err_status = 422,
      err_code = code, err_details = details\<rparr>"

definition RateLimitError :: "string \<Rightarrow> string \<Rightarrow> int option \<Rightarrow> app_error" where
  "RateLimitError message code retryAfter =
     \<lparr>err_class = RateLimitErrorClass retryAfter, err_message = message, err_status = 429,
      err_code = code, err_details = None\<rparr>"

lemmas error_defs =
  AuthError_def ValidationError_def NotFoundError_def ForbiddenError_def ConflictError_def
  GoneError_def UnprocessableError_def RateLimitError_def

section \<open>Thrown values\<close>

text \<open>
  \<open>Native m c\<close> is an \<open>Error\<close> that is no \<open>AppError\<close> (of Node, the database driver or a
  library), with its message and, where it has one, its \<open>code\<close>. \<open>NonError s\<close> is a thrown
  value that is no \<open>Error\<close>; \<open>s\<close> is what \<open>String\<close> makes of it.
\<close>

datatype thrown =
    App app_error
  | Native string "string option"
  | NonError string

type_synonym 'a result = "thrown + 'a"

text \<open>\<open>error instanceof Error ? error.message : String(error)\<close>\<close>

fun error_text :: "thrown \<Rightarrow> string" where
  "error_text (App e) = err_message e"
| "error_text (Native m c) = m"
| "error_text (NonError s) = s"

text \<open>PostgreSQL's report of a violated unique constraint (SQLSTATE 23505).\<close>

definition unique_violation :: "string \<Rightarrow> thrown" where
  "unique_violation c =
     Native (''duplicate key value violates unique constraint '' @ c) (Some ''23505'')"

section \<open>The error handler\<close>

record error_response =
  res_status :: int
  res_retry_after :: "string option" \<comment> \<open>the \<open>Retry-After\<close> header\<close>
  res_success :: bool
  res_statusCode :: int
  res_code :: "string option"
  res_message :: string

definition retry_after_header :: "app_error \<Rightarrow> string option" where
  "retry_after_header e =
     (case err_class e of RateLimitErrorClass (Some n) \<Rightarrow> Some (show_int n) | _ \<Rightarrow> None)"

definition errorHandler :: "bool \<Rightarrow> thrown \<Rightarrow> error_response" where
  "errorHandler isProduction err =
     (case err of
        App e \<Rightarrow>
          \<lparr>res_status = err_status e, res_retry_after = retry_after_header e, res_success = False,
           res_statusCode = err_status e, res_code = Some (err_code e), res_message = err_message e\<rparr>
      | _ \<Rightarrow>
          \<lparr>res_status = 500, res_retry_after = None, res_success = False, res_statusCode = 500,
           res_code = None,
           res_message =
             (if isProduction then ''An unexpected error occurred''
              else (case err of
                      Native m c \<Rightarrow> if m = [] then ''An unexpected error occurred'' else m
                    | _ \<Rightarrow> ''An unexpected error occurred''))\<rparr>)"

lemma errorHandler_status_range:
  "err_status e \<in> {400, 401, 403, 404, 409, 410, 422, 429} \<Longrightarrow>
     res_status (errorHandler p (App e)) = err_status e \<and>
     res_statusCode (errorHandler p (App e)) = res_status (errorHandler p (App e))"
  by (simp add: errorHandler_def)

end
