(* ===== verification/Codec.thy ===== *)
theory Codec
  imports JsString "HOL-Library.Word"
begin

text \<open>
  The text encodings of bytes the source relies on: \<open>Buffer.toString\<close> and \<open>Buffer.from\<close>
  with \<open>'hex'\<close>, \<open>'base64'\<close>, \<open>'base64url'\<close> and \<open>'utf8'\<close>. Decoding is as lenient as Node's: hex
  stops at the first pair that is no byte, base64 takes both alphabets, skips characters
  of neither and stops at the first \<open>=\<close>. The contract of an encoding of bytes as text is the
  locale \<open>byte_codec\<close>.
\<close>

type_synonym byte = "8 word"

section \<open>The contract\<close>

locale byte_codec =
  fixes encode :: "byte list \<Rightarrow> string"
    and decode :: "string \<Rightarrow> byte list"
    and alphabet :: "char \<Rightarrow> bool"
  assumes decode_encode: "decode (encode bs) = bs"
    and encode_alphabet: "list_all alphabet (encode bs)"
begin

lemma encode_inject: "encode as = encode bs \<longleftrightarrow> as = bs"
  by (metis decode_encode)

lemma not_in_encode: "\<not> alphabet c \<Longrightarrow> c \<notin> set (encode bs)"
  using encode_alphabet [of bs] by (auto simp: list_all_iff)

lemma split_encode:
  assumes "\<not> alphabet sep"
  shows "js_split sep (encode bs @ sep # rest) = encode bs # js_split sep rest"
    and "js_split sep (encode bs) = [encode bs]"
  using not_in_encode [OF assms] by (simp_all add: js_split_append js_split_single)

end

section \<open>Hex\<close>

definition hex_digit :: "nat \<Rightarrow> char" where
  "hex_digit n = (if n < 10 then char_of (48 + n) else char_of (87 + n))"

definition hex_val :: "char \<Rightarrow> nat option" where
  "hex_val c =
     (let n = code_unit c in
      if 48 \<le> n \<and> n \<le> 57 then Some (n - 48)
      else if 97 \<le> n \<and> n \<le> 102 then Some (n - 87)
      else if 65 \<le> n \<and> n \<le> 70 then Some (n - 55)
      else None)"

definition is_lower_hex :: "char \<Rightarrow> bool" where
  "is_lower_hex c \<longleftrightarrow> is_digit c \<or> 97 \<le> code_unit c \<and> code_unit c \<le> 102"

definition hex_byte :: "byte \<Rightarrow> string" where
  "hex_byte b = [hex_digit (unat b div 16), hex_digit (unat b mod 16)]"

definition to_hex :: "byte list \<Rightarrow> string" where
  "to_hex bs = concat (map hex_byte bs)"

fun from_hex :: "string \<Rightarrow> byte list" where
  "from_hex (a # b # rest) =
     (case (hex_val a, hex_val b) of
        (Some x, Some y) \<Rightarrow> of_nat (16 * x + y) # from_hex rest
      | _ \<Rightarrow> [])"
| "from_hex _ = []"

lemma unat_byte_less [simp]: "unat (b :: byte) < 256"
  using unsigned_less [of b] by simp

lemma hex_val_digit [simp]: "n < 16 \<Longrightarrow> hex_val (hex_digit n) = Some n"
  by (auto simp: hex_val_def hex_digit_def Let_def)

lemma is_lower_hex_digit [simp]: "n < 16 \<Longrightarrow> is_lower_hex (hex_digit n)"
  by (auto simp: is_lower_hex_def hex_digit_def is_digit_def)

lemma to_hex_Nil [simp]: "to_hex [] = []"
  by (simp add: to_hex_def)

lemma to_hex_Cons [simp]: "to_hex (b # bs) = hex_byte b @ to_hex bs"
  by (simp add: to_hex_def)

lemma byte_nibble: "unat (b :: byte) div 16 < 16"
  by (simp add: less_mult_imp_div_less)

lemma from_hex_to_hex: "from_hex (to_hex bs) = bs"
  by (induction bs) (simp_all add: hex_byte_def byte_nibble)

lemma length_to_hex [simp]: "length (to_hex bs) = 2 * length bs"
  by (induction bs) (simp_all add: hex_byte_def)

lemma to_hex_lower: "list_all is_lower_hex (to_hex bs)"
  by (induction bs) (simp_all add: hex_byte_def byte_nibble)

interpretation hex: byte_codec to_hex from_hex is_lower_hex
  by unfold_locales (rule from_hex_to_hex to_hex_lower)+

section \<open>Base64\<close>

definition b64_char :: "nat \<Rightarrow> char" where
  "b64_char n =
     (if n < 26 then char_of (65 + n)
      else if n < 52 then char_of (71 + n)
      else if n < 62 then char_of (n - 4)
      else if n = 62 then CHR ''+'' else CHR ''/'')"

definition b64url_char :: "nat \<Rightarrow> char" where
  "b64url_char n = (if n = 62 then CHR ''-'' else if n = 63 then CHR ''_'' else b64_char n)"

definition b64_val :: "char \<Rightarrow> nat option" where
  "b64_val c =
     (let n = code_unit c in
      if 65 \<le> n \<and> n \<le> 90 then Some (n - 65)
      else if 97 \<le> n \<and> n \<le> 122 then Some (n - 71)
      else if 48 \<le> n \<and> n \<le> 57 then Some (n + 4)
      else if n = 43 \<or> n = 45 then Some 62
      else if n = 47 \<or> n = 95 then Some 63
      else None)"

fun sextets :: "byte list \<Rightarrow> nat list" where
  "sextets [] = []"
| "sextets [x] = [unat x div 4, unat x mod 4 * 16]"
| "sextets [x, y] =
     [unat x div 4, unat x mod 4 * 16 + unat y div 16, unat y mod 16 * 4]"
| "sextets (x # y # z # bs) =
     unat x div 4 # (unat x mod 4 * 16 + unat y div 16) # (unat y mod 16 * 4 + unat z div 64) #
     unat z mod 64 # sextets bs"

definition b64_padding :: "nat \<Rightarrow> string" where
  "b64_padding n = (if n mod 3 = 0 then '''' else if n mod 3 = 1 then ''=='' else ''='')"

definition to_base64 :: "byte list \<Rightarrow> string" where
  "to_base64 bs = map b64_char (sextets bs) @ b64_padding (length bs)"

definition to_base64url :: "byte list \<Rightarrow> string" where
  "to_base64url bs = map b64url_char (sextets bs)"

fun unsextets :: "nat list \<Rightarrow> byte list" where
  "unsextets (a # b # c # d # rest) =
     of_nat (a * 4 + b div 16) # of_nat (b mod 16 * 16 + c div 4) # of_nat (c mod 4 * 64 + d) #
     unsextets rest"
| "unsextets [a, b, c] = [of_nat (a * 4 + b div 16), of_nat (b mod 16 * 16 + c div 4)]"
| "unsextets [a, b] = [of_nat (a * 4 + b div 16)]"
| "unsextets _ = []"

definition from_base64 :: "string \<Rightarrow> byte list" where
  "from_base64 s =
     unsextets (List.map_filter b64_val (takeWhile (\<lambda>c. c \<noteq> CHR ''='') s))"

definition is_b64_char :: "char \<Rightarrow> bool" where
  "is_b64_char c \<longleftrightarrow> b64_val c \<noteq> None \<or> c = CHR ''=''"

lemma b64_val_char [simp]: "n < 64 \<Longrightarrow> b64_val (b64_char n) = Some n"
  by (auto simp: b64_val_def b64_char_def Let_def code_unit_def)

lemma b64_val_url_char [simp]: "n < 64 \<Longrightarrow> b64_val (b64url_char n) = Some n"
  by (auto simp: b64url_char_def) (simp_all add: b64_val_def code_unit_def)

lemma b64_val_equals [simp]: "b64_val CHR ''='' = None"
  by (simp add: b64_val_def code_unit_def)

lemma sextets_less: "\<forall>n \<in> set (sextets bs). n < 64"
proof (induction bs rule: sextets.induct)
  case (2 x)
  then show ?case by (simp add: less_mult_imp_div_less)
next
  case (3 x y)
  have "unat x div 4 < 64" "unat x mod 4 < 4" "unat y div 16 < 16" "unat y mod 16 < 16"
    by (simp_all add: less_mult_imp_div_less)
  then have "unat x mod 4 * 16 + unat y div 16 < 64" "unat y mod 16 * 4 < 64" by linarith+
  then show ?case using \<open>unat x div 4 < 64\<close> by simp
next
  case (4 x y z bs)
  have "unat x div 4 < 64" "unat x mod 4 < 4" "unat y div 16 < 16" "unat y mod 16 < 16"
    "unat z div 64 < 4"
    by (simp_all add: less_mult_imp_div_less)
  then have "unat x mod 4 * 16 + unat y div 16 < 64" "unat y mod 16 * 4 + unat z div 64 < 64"
    by linarith+
  then show ?case using 4 \<open>unat x div 4 < 64\<close> by simp
qed simp

lemma byte_pieces:
  "unat (x :: byte) div 4 * 4 + (unat x mod 4 * 16 + r) div 16 = unat x" if "r < 16"
  using that by simp

lemma unsextets_sextets: "unsextets (sextets bs) = bs"
proof (induction bs rule: sextets.induct)
  case (3 x y)
  have "unat y div 16 < 16" by (simp add: less_mult_imp_div_less)
  then show ?case by simp
next
  case (4 x y z bs)
  have "unat y div 16 < 16" "unat z div 64 < 4" by (simp_all add: less_mult_imp_div_less)
  then show ?case using 4 by simp
qed simp_all

lemma map_filter_b64: "\<forall>n \<in> set ns. n < 64 \<Longrightarrow> List.map_filter b64_val (map b64_char ns) = ns"
  by (induction ns) simp_all

lemma map_filter_b64url: "\<forall>n \<in> set ns. n < 64 \<Longrightarrow> List.map_filter b64_val (map b64url_char ns) = ns"
  by (induction ns) simp_all

lemma b64_char_no_padding:
  "n < 64 \<Longrightarrow> b64_char n \<noteq> CHR ''=''" "n < 64 \<Longrightarrow> b64url_char n \<noteq> CHR ''=''"
  using b64_val_char [of n] b64_val_url_char [of n] by (auto simp del: b64_val_char b64_val_url_char)

lemma no_padding_chars:
  assumes "\<forall>n \<in> set ns. n < 64"
  shows "\<forall>c \<in> set (map b64_char ns). c \<noteq> CHR ''=''"
    and "\<forall>c \<in> set (map b64url_char ns). c \<noteq> CHR ''=''"
  using assms b64_char_no_padding by fastforce+

lemma from_base64_to_base64: "from_base64 (to_base64 bs) = bs"
proof -
  have "takeWhile (\<lambda>c. c \<noteq> CHR ''='') (to_base64 bs) = map b64_char (sextets bs)"
    unfolding to_base64_def
    by (rule takeWhile_prefix_eq)
      (use no_padding_chars(1) [OF sextets_less [of bs]] in \<open>auto simp: b64_padding_def\<close>)
  then show ?thesis
    by (simp add: from_base64_def map_filter_b64 sextets_less unsextets_sextets)
qed

lemma from_base64_to_base64url: "from_base64 (to_base64url bs) = bs"
proof -
  have "takeWhile (\<lambda>c. c \<noteq> CHR ''='') (to_base64url bs) = map b64url_char (sextets bs)"
    unfolding to_base64url_def
    using no_padding_chars(2) [OF sextets_less [of bs]] by simp
  then show ?thesis
    by (simp add: from_base64_def map_filter_b64url sextets_less unsextets_sextets)
qed

interpretation b64: byte_codec to_base64 from_base64 is_b64_char
proof
  show "from_base64 (to_base64 bs) = bs" for bs by (rule from_base64_to_base64)
  show "list_all is_b64_char (to_base64 bs)" for bs
    using sextets_less [of bs]
    by (auto simp: to_base64_def list_all_iff is_b64_char_def b64_padding_def)
qed

interpretation b64url: byte_codec to_base64url from_base64 is_b64_char
proof
  show "from_base64 (to_base64url bs) = bs" for bs by (rule from_base64_to_base64url)
  show "list_all is_b64_char (to_base64url bs)" for bs
    using sextets_less [of bs]
    by (auto simp: to_base64url_def list_all_iff is_b64_char_def)
qed

text \<open>Four characters of text give at most three bytes, whatever the text.\<close>

lemma length_unsextets: "4 * length (unsextets ns) \<le> 3 * length ns"
  by (induction ns rule: unsextets.induct) simp_all

lemma length_map_filter_le: "length (List.map_filter f xs) \<le> length xs"
  by (induction xs) (auto split: option.split)

lemma length_from_base64: "4 * length (from_base64 s) \<le> 3 * length s"
proof -
  have "4 * length (from_base64 s) \<le> 3 * length (List.map_filter b64_val (takeWhile (\<lambda>c. c \<noteq> CHR ''='') s))"
    unfolding from_base64_def by (rule length_unsextets)
  also have "\<dots> \<le> 3 * length s"
    using length_map_filter_le [of b64_val "takeWhile (\<lambda>c. c \<noteq> CHR ''='') s"]
      length_takeWhile_le [of "\<lambda>c. c \<noteq> CHR ''=''" s] by linarith
  finally show ?thesis .
qed

section \<open>UTF-8\<close>

text \<open>
  The UTF-8 bytes of a text. In the other direction, bytes that encode no character of
  Latin-1 give the control character U+001A in place of the engine's character or its
  U+FFFD, which a \<open>char\<close> cannot hold.
\<close>

definition utf8_char :: "char \<Rightarrow> byte list" where
  "utf8_char c =
     (let n = code_unit c in
      if n < 128 then [of_nat n] else [of_nat (192 + n div 64), of_nat (128 + n mod 64)])"

definition utf8_encode :: "string \<Rightarrow> byte list" where
  "utf8_encode s = concat (map utf8_char s)"

fun utf8_decode :: "byte list \<Rightarrow> string" where
  "utf8_decode [] = []"
| "utf8_decode [b] = [if unat b < 128 then char_of (unat b) else char_of (26 :: nat)]"
| "utf8_decode (b # d # bs) =
     (if unat b < 128 then char_of (unat b) # utf8_decode (d # bs)
      else if (unat b = 194 \<or> unat b = 195) \<and> 128 \<le> unat d \<and> unat d < 192
      then char_of ((unat b - 192) * 64 + (unat d - 128)) # utf8_decode bs
      else char_of (26 :: nat) # utf8_decode (d # bs))"

lemma char_of_code_unit [simp]: "char_of (code_unit c) = c"
  by (simp add: code_unit_def)

lemma unat_of_nat_byte: "n < 256 \<Longrightarrow> unat (of_nat n :: byte) = n"
  by (simp add: unat_of_nat)

lemma utf8_decode_char:
  "utf8_decode (utf8_char c @ bs) = c # utf8_decode bs"
proof -
  have c: "code_unit c < 256" by (rule code_unit_less)
  show ?thesis
  proof (cases "code_unit c < 128")
    case True
    then show ?thesis by (cases bs) (simp_all add: utf8_char_def unat_of_nat_byte)
  next
    case False
    define n where "n = code_unit c"
    have n: "128 \<le> n" "n < 256" using False c by (simp_all add: n_def)
    have q: "n div 64 = 2 \<or> n div 64 = 3" using n by auto
    have m: "n mod 64 < 64" by simp
    have e: "n div 64 * 64 + n mod 64 = n" by simp
    define b :: byte where "b = of_nat (192 + n div 64)"
    define d :: byte where "d = of_nat (128 + n mod 64)"
    have b: "unat b = 192 + n div 64" and d: "unat d = 128 + n mod 64"
      unfolding b_def d_def using q m by (auto simp only: intro!: unat_of_nat_byte)
    have "utf8_char c = [b, d]"
      using False by (simp add: utf8_char_def n_def [symmetric] b_def d_def)
    moreover have "(192 + n div 64 - 192) * 64 + (128 + n mod 64 - 128) = n" using e by simp
    moreover have "char_of n = c" by (simp add: n_def)
    ultimately show ?thesis using q m by (auto simp: b d)
  qed
qed

lemma utf8_decode_encode [simp]: "utf8_decode (utf8_encode s) = s"
proof -
  have "utf8_decode (utf8_encode s @ []) = s"
    by (induction s) (simp_all add: utf8_encode_def utf8_decode_char)
  then show ?thesis by simp
qed

end
