(* ===== verification/Enums.thy ===== *)
theory Enums
  imports Prelude
begin

text \<open>
  The enumerations of \<open>types/enums.ts\<close>, with the strings they stand for in the database and
  on the wire. User roles are ordered by privilege, event statuses by the life of an event.
\<close>

datatype org_status = PAYMENT_PENDING | OrgACTIVE | SUSPENDED

datatype subscription_status = TRIALING | SubACTIVE | INACTIVE

datatype user_role = MEMBER | ADMIN | SUPER_ADMIN

datatype user_status = UserACTIVE | REMOVED

datatype event_status = PROCESSING | ANCHORING | ANCHORED | ANCHOR_FAILED

datatype api_key_status = KeyACTIVE | REVOKED

datatype invitation_status = PENDING | ACCEPTED | EXPIRED

datatype permission = EVENTS_WRITE | EVENTS_READ | VERIFICATION_READ

fun org_status_text :: "org_status \<Rightarrow> string" where
  "org_status_text PAYMENT_PENDING = ''payment_pending''"
| "org_status_text OrgACTIVE = ''active''"
| "org_status_text SUSPENDED = ''suspended''"

fun user_role_text :: "user_role \<Rightarrow> string" where
  "user_role_text MEMBER = ''member''"
| "user_role_text ADMIN = ''admin''"
| "user_role_text SUPER_ADMIN = ''super_admin''"

fun event_status_text :: "event_status \<Rightarrow> string" where
  "event_status_text PROCESSING = ''processing''"
| "event_status_text ANCHORING = ''anchoring''"
| "event_status_text ANCHORED = ''anchored''"
| "event_status_text ANCHOR_FAILED = ''anchor_failed''"

fun permission_text :: "permission \<Rightarrow> string" where
  "permission_text EVENTS_WRITE = ''events:write''"
| "permission_text EVENTS_READ = ''events:read''"
| "permission_text VERIFICATION_READ = ''verification:read''"

fun role_rank :: "user_role \<Rightarrow> nat" where
  "role_rank MEMBER = 0"
| "role_rank ADMIN = 1"
| "role_rank SUPER_ADMIN = 2"

lemma role_rank_inject [simp]: "role_rank a = role_rank b \<longleftrightarrow> a = b"
  by (cases a; cases b) simp_all

instantiation user_role :: linorder
begin

definition less_eq_user_role :: "user_role \<Rightarrow> user_role \<Rightarrow> bool" where
  "less_eq_user_role a b \<longleftrightarrow> role_rank a \<le> role_rank b"

definition less_user_role :: "user_role \<Rightarrow> user_role \<Rightarrow> bool" where
  "less_user_role a b \<longleftrightarrow> role_rank a < role_rank b"

instance
  by standard (auto simp: less_eq_user_role_def less_user_role_def)

end

fun status_rank :: "event_status \<Rightarrow> nat" where
  "status_rank PROCESSING = 0"
| "status_rank ANCHORING = 1"
| "status_rank ANCHOR_FAILED = 2"
| "status_rank ANCHORED = 3"

lemma status_rank_inject [simp]: "status_rank a = status_rank b \<longleftrightarrow> a = b"
  by (cases a; cases b) simp_all

instantiation event_status :: linorder
begin

definition less_eq_event_status :: "event_status \<Rightarrow> event_status \<Rightarrow> bool" where
  "less_eq_event_status a b \<longleftrightarrow> status_rank a \<le> status_rank b"

definition less_event_status :: "event_status \<Rightarrow> event_status \<Rightarrow> bool" where
  "less_event_status a b \<longleftrightarrow> status_rank a < status_rank b"

instance
  by standard (auto simp: less_eq_event_status_def less_event_status_def)

end

lemma PROCESSING_least [simp]: "PROCESSING \<le> s"
  by (simp add: less_eq_event_status_def)

end
