(* ===== verification/Libs.thy ===== *)
theory Libs
  imports Codec Errors Enums
begin

text \<open>
  What the program takes from outside its own source: cryptographic primitives, password
  hashing and web tokens are functions given as the record \<open>libs\<close>, the process environment
  is the record \<open>env\<close>. Randomness, the clock and the identifiers the database generates are
  arguments of the operations that use them. The laws a theorem needs of a library function
  are named predicates (\<open>sha256_size\<close>, \<open>gcm_correct\<close>, \<open>bcrypt_correct\<close>), each a documented
  property of that function.
\<close>

record jwt_payload =
  jp_user_id :: uuid
  jp_org_id :: "uuid option"
  jp_role :: user_role
  jp_email :: string

record libs =
  sha256 :: "byte list \<Rightarrow> byte list" \<comment> \<open>SHA-256 digest\<close>
  gcm_seal :: "byte list \<Rightarrow> byte list \<Rightarrow> byte list \<Rightarrow> byte list \<times> byte list"
    \<comment> \<open>AES-256-GCM: key, initialisation vector, plaintext; gives ciphertext and tag\<close>
  gcm_open :: "byte list \<Rightarrow> byte list \<Rightarrow> byte list \<Rightarrow> byte list \<Rightarrow> byte list option"
    \<comment> \<open>key, initialisation vector, tag, ciphertext; \<open>None\<close> when authentication fails\<close>
  bcrypt_hash :: "byte list \<Rightarrow> nat \<Rightarrow> string \<Rightarrow> string" \<comment> \<open>salt, cost, password\<close>
  bcrypt_compare :: "string \<Rightarrow> string \<Rightarrow> bool" \<comment> \<open>password, stored hash\<close>
  jwt_sign :: "string \<Rightarrow> jwt_payload \<Rightarrow> millis \<Rightarrow> millis \<Rightarrow> string"
    \<comment> \<open>secret, payload, time of issue, time of expiry\<close>
  jwt_verify :: "string \<Rightarrow> string \<Rightarrow> millis \<Rightarrow> jwt_payload option"
    \<comment> \<open>secret, token, current time; \<open>None\<close> when it throws\<close>

record env =
  env_SKIP_SES :: "string option"
  env_NODE_ENV :: "string option"
  env_JWT_SECRET :: string
  env_EVENT_ENCRYPTION_KEY :: "string option"
  env_TOTP_ENCRYPTION_KEY :: "string option"
  env_ANCHOR_MAX_RETRIES :: "string option"
  env_KMS_SIGNING_KEY_ID :: "string option"
  env_FRONTEND_URL :: "string option"

definition skip_ses :: "env \<Rightarrow> bool" where
  "skip_ses e \<longleftrightarrow> env_SKIP_SES e = Some ''true''"

section \<open>Laws of the library functions\<close>

definition sha256_size :: "libs \<Rightarrow> bool" where
  "sha256_size L \<longleftrightarrow> (\<forall>bs. length (sha256 L bs) = 32)"

definition gcm_correct :: "libs \<Rightarrow> bool" where
  "gcm_correct L \<longleftrightarrow>
     (\<forall>key iv pt. length (snd (gcm_seal L key iv pt)) = 16 \<and>
        gcm_open L key iv (snd (gcm_seal L key iv pt)) (fst (gcm_seal L key iv pt)) = Some pt)"

definition bcrypt_correct :: "libs \<Rightarrow> bool" where
  "bcrypt_correct L \<longleftrightarrow> (\<forall>salt cost pw. bcrypt_compare L pw (bcrypt_hash L salt cost pw))"

section \<open>A concrete instance\<close>

text \<open>
  Stand-ins for the library functions on which hypotheses about them can be checked: the
  digest is the first 32 bytes padded with zeros and the cipher is the identity, with a
  constant tag. They satisfy the laws above and are used in witnesses only.
\<close>

definition toy_libs :: libs where
  "toy_libs =
     \<lparr>sha256 = (\<lambda>bs. take 32 (bs @ replicate 32 0)),
      gcm_seal = (\<lambda>key iv pt. (pt, replicate 16 0)),
      gcm_open = (\<lambda>key iv tag ct. if tag = replicate 16 0 then Some ct else None),
      bcrypt_hash = (\<lambda>salt cost pw. pw),
      bcrypt_compare = (\<lambda>pw h. pw = h),
      jwt_sign = (\<lambda>secret p iat expiry. jp_user_id p),
      jwt_verify = (\<lambda>secret token now.
        Some \<lparr>jp_user_id = token, jp_org_id = None, jp_role = MEMBER, jp_email = ''''\<rparr>)\<rparr>"

lemma toy_libs_laws: "sha256_size toy_libs" "gcm_correct toy_libs" "bcrypt_correct toy_libs"
  by (auto simp: toy_libs_def sha256_size_def gcm_correct_def bcrypt_correct_def min_def)

end
