(* ===== verification/Backoff.thy ===== *)
theory Backoff
  imports Errors Libs
begin

text \<open>
  \<open>utils/withExponentialBackoff.ts\<close>. The operation \<open>fn\<close> is a function on a state of any
  type: it gives its outcome and the state after it. The loop also records what it did
  between attempts, each \<open>onRetry\<close> call with the delay that was slept after it.
\<close>

section \<open>Which errors are retried\<close>

definition RETRYABLE_CODES :: "string list" where
  "RETRYABLE_CODES = [''ECONNRESET'', ''ECONNREFUSED'', ''ETIMEDOUT'', ''ENOTFOUND'']"

definition RETRYABLE_PATTERNS :: "string list" where
  "RETRYABLE_PATTERNS =
     [''timeout'', ''network'', ''fetch failed'', ''rate limit'', ''rate_limit'', ''429'', ''socket'']"

definition NON_RETRYABLE_PATTERNS :: "string list" where
  "NON_RETRYABLE_PATTERNS =
     [''alreadyanchored'', ''execution reverted'', ''accesscontrolunauthorizedaccount'',
      ''zerovalues'', ''zeroaddress'', ''invalid argument'', ''invalidinput'']"

text \<open>The \<open>code\<close> property of an \<open>Error\<close>, the empty string where it has none.\<close>

fun error_code :: "thrown \<Rightarrow> string" where
  "error_code (App e) = err_code e"
| "error_code (Native m c) = (case c of None \<Rightarrow> '''' | Some s \<Rightarrow> s)"
| "error_code (NonError s) = ''''"

definition isRetryableError :: "thrown \<Rightarrow> bool" where
  "isRetryableError err =
     (case err of
        NonError s \<Rightarrow> False
      | _ \<Rightarrow>
          let message = toLowerCase (error_text err);
              code = toUpperCase (error_code err)
          in if list_ex (js_includes message) NON_RETRYABLE_PATTERNS then False
             else if code \<in> set RETRYABLE_CODES then True
             else list_ex (js_includes message) RETRYABLE_PATTERNS)"

section \<open>The retry loop\<close>

record retry_event =
  re_attempt :: int \<comment> \<open>the attempt number given to \<open>onRetry\<close>\<close>
  re_error :: thrown
  re_delay :: int \<comment> \<open>the milliseconds slept\<close>

record backoff_options =
  maxAttempts :: "int option" \<comment> \<open>\<open>None\<close> is \<open>NaN\<close>\<close>
  baseDelayMs :: int
  maxDelayMs :: int
  checkRetryable :: "thrown \<Rightarrow> bool"

text \<open>
  \<open>parseInt(process.env.ANCHOR_MAX_RETRIES ?? '3', 10)\<close>: an empty variable is not absent.
\<close>

definition DEFAULT_MAX_ATTEMPTS :: "env \<Rightarrow> int option" where
  "DEFAULT_MAX_ATTEMPTS e =
     parseInt10 (case env_ANCHOR_MAX_RETRIES e of None \<Rightarrow> ''3'' | Some s \<Rightarrow> s)"

definition default_options :: "env \<Rightarrow> backoff_options" where
  "default_options e =
     \<lparr>maxAttempts = DEFAULT_MAX_ATTEMPTS e, baseDelayMs = 1000, maxDelayMs = 30000,
      checkRetryable = isRetryableError\<rparr>"

definition backoff_delay :: "backoff_options \<Rightarrow> nat \<Rightarrow> int" where
  "backoff_delay opts attempt = min (baseDelayMs opts * 2 ^ attempt) (maxDelayMs opts)"

definition unreachable_error :: thrown where
  "unreachable_error = Native ''unreachable'' None"

function backoff_loop ::
  "('s \<Rightarrow> 'a result \<times> 's) \<Rightarrow> backoff_options \<Rightarrow> int \<Rightarrow> nat \<Rightarrow> 's \<Rightarrow> 'a result \<times> 's \<times> retry_event list"
where
  "backoff_loop fn opts n attempt s =
     (if int attempt < n then
        (case fn s of
           (Inr v, s') \<Rightarrow> (Inr v, s', [])
         | (Inl err, s') \<Rightarrow>
             if int attempt = n - 1 \<or> \<not> checkRetryable opts err then (Inl err, s', [])
             else
               let ev = \<lparr>re_attempt = int attempt + 1, re_error = err,
                         re_delay = backoff_delay opts attempt\<rparr>;
                   (r, s'', evs) = backoff_loop fn opts n (Suc attempt) s'
               in (r, s'', ev # evs))
      else (Inl unreachable_error, s, []))"
  by pat_completeness auto
termination
  by (relation "measure (\<lambda>(fn, opts, n, attempt, s). nat (n - int attempt))") auto

declare backoff_loop.simps [simp del]

text \<open>A comparison with \<open>NaN\<close> is false: the loop body is never entered.\<close>

definition withExponentialBackoff ::
  "('s \<Rightarrow> 'a result \<times> 's) \<Rightarrow> backoff_options \<Rightarrow> 's \<Rightarrow> 'a result \<times> 's \<times> retry_event list"
where
  "withExponentialBackoff fn opts s =
     (case maxAttempts opts of
        None \<Rightarrow> (Inl unreachable_error, s, [])
      | Some n \<Rightarrow> backoff_loop fn opts n 0 s)"

section \<open>What the loop computes\<close>

text \<open>The state before the \<open>k\<close>-th call, and the outcome of that call.\<close>

fun call_state :: "('s \<Rightarrow> 'a result \<times> 's) \<Rightarrow> 's \<Rightarrow> nat \<Rightarrow> 's" where
  "call_state fn s 0 = s"
| "call_state fn s (Suc k) = call_state fn (snd (fn s)) k"

definition call_outcome :: "('s \<Rightarrow> 'a result \<times> 's) \<Rightarrow> 's \<Rightarrow> nat \<Rightarrow> 'a result" where
  "call_outcome fn s k = fst (fn (call_state fn s k))"

text \<open>
  The specification: the call at which a run of at most \<open>n\<close> calls ends is the first one
  that succeeds, fails for good, or is the last allowed.
\<close>

definition ends_at :: "('s \<Rightarrow> 'a result \<times> 's) \<Rightarrow> (thrown \<Rightarrow> bool) \<Rightarrow> nat \<Rightarrow> 's \<Rightarrow> nat \<Rightarrow> bool" where
  "ends_at fn ok n s k \<longleftrightarrow>
     k < n \<and>
     (\<forall>j < k. \<exists>err. call_outcome fn s j = Inl err \<and> ok err) \<and>
     (case call_outcome fn s k of Inr v \<Rightarrow> True | Inl err \<Rightarrow> k = n - 1 \<or> \<not> ok err)"

definition retry_trace :: "('s \<Rightarrow> 'a result \<times> 's) \<Rightarrow> backoff_options \<Rightarrow> nat \<Rightarrow> 's \<Rightarrow> nat \<Rightarrow> retry_event list" where
  "retry_trace fn opts a s k =
     map (\<lambda>j. \<lparr>re_attempt = int (a + j) + 1,
               re_error = (case call_outcome fn s j of Inl err \<Rightarrow> err | Inr v \<Rightarrow> unreachable_error),
               re_delay = backoff_delay opts (a + j)\<rparr>) [0..<k]"

lemma call_outcome_0 [simp]: "call_outcome fn s 0 = fst (fn s)"
  by (simp add: call_outcome_def)

lemma call_outcome_Suc [simp]: "call_outcome fn s (Suc k) = call_outcome fn (snd (fn s)) k"
  by (simp add: call_outcome_def)

lemma retry_trace_0 [simp]: "retry_trace fn opts a s 0 = []"
  by (simp add: retry_trace_def)

lemma retry_trace_Suc [simp]:
  "retry_trace fn opts a s (Suc k) =
     \<lparr>re_attempt = int a + 1,
      re_error = (case fst (fn s) of Inl err \<Rightarrow> err | Inr v \<Rightarrow> unreachable_error),
      re_delay = backoff_delay opts a\<rparr> # retry_trace fn opts (Suc a) (snd (fn s)) k"
proof -
  have "[0..<Suc k] = 0 # map Suc [0..<k]" by (simp add: map_Suc_upt upt_conv_Cons del: upt_Suc)
  then show ?thesis by (simp add: retry_trace_def del: upt_Suc)
qed

lemma ends_at_0:
  "ends_at fn ok (Suc n) s 0 \<longleftrightarrow>
     (case fst (fn s) of Inr v \<Rightarrow> True | Inl err \<Rightarrow> n = 0 \<or> \<not> ok err)"
  by (auto simp: ends_at_def split: sum.splits)

lemma ends_at_Suc:
  assumes "fst (fn s) = Inl err" and "ok err" and "0 < n"
  shows "ends_at fn ok (Suc n) s (Suc k) \<longleftrightarrow> ends_at fn ok n (snd (fn s)) k"
proof -
  have "(\<forall>j < Suc k. \<exists>err. call_outcome fn s j = Inl err \<and> ok err) \<longleftrightarrow>
        (\<forall>j < k. \<exists>err. call_outcome fn (snd (fn s)) j = Inl err \<and> ok err)"
    using assms(1,2) by (auto simp: less_Suc_eq_0_disj)
  moreover have "k = n - 1 \<longleftrightarrow> Suc k = Suc n - 1" using assms(3) by auto
  ultimately show ?thesis by (auto simp: ends_at_def split: sum.splits)
qed

text \<open>The loop ends, exactly once, and does what the specification says.\<close>

lemma backoff_loop_spec:
  assumes "a + n = m" and "0 < n"
  shows "\<exists>k. ends_at fn (checkRetryable opts) n s k \<and>
     backoff_loop fn opts (int m) a s =
       (call_outcome fn s k, call_state fn s (Suc k), retry_trace fn opts a s k)"
  using assms
proof (induction n arbitrary: a s)
  case 0
  then show ?case by simp
next
  case (Suc n)
  have am: "a < m" "int a = int m - 1 \<longleftrightarrow> n = 0" using Suc.prems by auto
  obtain r s' where fn: "fn s = (r, s')" by (cases "fn s")
  show ?case
  proof (cases "case r of Inr v \<Rightarrow> True | Inl err \<Rightarrow> n = 0 \<or> \<not> checkRetryable opts err")
    case True
    then have "ends_at fn (checkRetryable opts) (Suc n) s 0" by (simp add: ends_at_0 fn)
    moreover have "backoff_loop fn opts (int m) a s =
        (call_outcome fn s 0, call_state fn s (Suc 0), retry_trace fn opts a s 0)"
      using True am by (subst backoff_loop.simps) (auto simp: fn split: sum.splits)
    ultimately show ?thesis by blast
  next
    case False
    then obtain err where r: "r = Inl err" "n \<noteq> 0" "checkRetryable opts err"
      by (cases r) auto
    obtain k where k: "ends_at fn (checkRetryable opts) n s' k"
      "backoff_loop fn opts (int m) (Suc a) s' =
         (call_outcome fn s' k, call_state fn s' (Suc k), retry_trace fn opts (Suc a) s' k)"
      using Suc.IH [of "Suc a" s'] Suc.prems r by auto
    have "ends_at fn (checkRetryable opts) (Suc n) s (Suc k)"
      using ends_at_Suc [of fn s err] fn r k(1) by simp
    moreover have "backoff_loop fn opts (int m) a s =
        (call_outcome fn s (Suc k), call_state fn s (Suc (Suc k)), retry_trace fn opts a s (Suc k))"
      using am r by (subst backoff_loop.simps) (simp add: fn k(2))
    ultimately show ?thesis by blast
  qed
qed

lemma backoff_ok:
  assumes "fn s = (Inr v, s')" and "maxAttempts opts = Some n" and "0 < n"
  shows "withExponentialBackoff fn opts s = (Inr v, s', [])"
  using assms by (simp add: withExponentialBackoff_def backoff_loop.simps)

lemma backoff_fail_fast:
  assumes "fn s = (Inl err, s')" and "maxAttempts opts = Some n" and "0 < n"
    and "\<not> checkRetryable opts err"
  shows "withExponentialBackoff fn opts s = (Inl err, s', [])"
  using assms by (simp add: withExponentialBackoff_def backoff_loop.simps)

lemma backoff_delay_bounds:
  "0 \<le> baseDelayMs opts \<Longrightarrow> 0 \<le> maxDelayMs opts \<Longrightarrow>
     0 \<le> backoff_delay opts a \<and> backoff_delay opts a \<le> maxDelayMs opts"
  by (simp add: backoff_delay_def)

lemma backoff_delay_mono:
  assumes "0 \<le> baseDelayMs opts" and "a \<le> b"
  shows "backoff_delay opts a \<le> backoff_delay opts b"
proof -
  have "(2::int) ^ a \<le> 2 ^ b" using assms(2) by (rule power_increasing) simp
  then have "baseDelayMs opts * 2 ^ a \<le> baseDelayMs opts * 2 ^ b"
    using assms(1) by (rule mult_left_mono)
  then show ?thesis by (simp add: backoff_delay_def min.coboundedI1 min.mono)
qed

lemma contract_errors_not_retryable:
  assumes "p \<in> set NON_RETRYABLE_PATTERNS" and "js_includes (toLowerCase (error_text err)) p"
  shows "\<not> isRetryableError err"
  using assms by (auto simp: isRetryableError_def Let_def list_ex_iff split: thrown.splits)

text \<open>What a call under backoff ends with comes from one of the calls, and what every call keeps, it keeps.\<close>

lemma backoff_loop_success:
  "backoff_loop fn opts n a s = (Inr v, s', x) \<Longrightarrow> \<exists>s0. fn s0 = (Inr v, s')"
proof (induction fn opts n a s arbitrary: x rule: backoff_loop.induct)
  case (1 fn opts n a s)
  then show ?case
    by (subst (asm) backoff_loop.simps) (auto split: if_splits prod.splits sum.splits)
qed

lemma backoff_loop_keeps:
  "(\<And>s. P s \<Longrightarrow> P (snd (fn s))) \<Longrightarrow> P s \<Longrightarrow> P (fst (snd (backoff_loop fn opts n a s)))"
proof (induction fn opts n a s rule: backoff_loop.induct)
  case (1 fn opts n a s)
  obtain res s2 where fn: "fn s = (res, s2)" by (cases "fn s")
  have P2: "P s2" using 1(2) [OF 1(3)] by (simp add: fn)
  show ?case
  proof (cases "int a < n")
    case True
    show ?thesis
    proof (cases res)
      case (Inl err)
      show ?thesis
      proof (cases "int a = n - 1 \<or> \<not> checkRetryable opts err")
        case False
        have "P (fst (snd (backoff_loop fn opts n (Suc a) s2)))"
          by (rule 1(1) [OF True fn [symmetric] Inl False refl _ P2]) (rule 1(2))
        then show ?thesis using fn Inl True False
          by (subst backoff_loop.simps) (auto split: prod.splits)
      qed (use fn Inl P2 True in \<open>subst backoff_loop.simps, auto\<close>)
    qed (use fn P2 True in \<open>subst backoff_loop.simps, auto\<close>)
  qed (use 1(3) in \<open>subst backoff_loop.simps, auto\<close>)
qed

lemma backoff_success:
  "withExponentialBackoff fn opts s = (Inr v, s', x) \<Longrightarrow> \<exists>s0. fn s0 = (Inr v, s')"
  by (auto simp: withExponentialBackoff_def dest: backoff_loop_success split: option.splits)

lemma backoff_keeps:
  assumes "withExponentialBackoff fn opts s = (r, s', x)" and "\<And>s. P s \<Longrightarrow> P (snd (fn s))" and "P s"
  shows "P s'"
  using assms backoff_loop_keeps [of P fn s opts]
  by (auto simp: withExponentialBackoff_def split: option.splits) (metis fst_conv snd_conv)

section \<open>Properties\<close>

text \<open>
  C24. A call under backoff with at least one attempt always returns, and returns what its
  specification says: the outcome of the first call that succeeds or fails for good, or of
  the last call allowed; the function has been called exactly up to there, and one retry
  event was logged for every earlier call, with its number, its error and its delay, which
  is never above the maximum.
\<close>

theorem withExponentialBackoff_spec:
  assumes "maxAttempts opts = Some n" and "0 < n"
  shows "\<exists>k evs. ends_at fn (checkRetryable opts) (nat n) s k \<and> evs = retry_trace fn opts 0 s k \<and>
    withExponentialBackoff fn opts s = (call_outcome fn s k, call_state fn s (Suc k), evs) \<and>
    list_all (\<lambda>ev. re_delay ev \<le> maxDelayMs opts) evs"
proof -
  obtain k where k: "ends_at fn (checkRetryable opts) (nat n) s k"
    "backoff_loop fn opts (int (nat n)) 0 s =
       (call_outcome fn s k, call_state fn s (Suc k), retry_trace fn opts 0 s k)"
    using backoff_loop_spec [of 0 "nat n" "nat n" fn opts s] assms(2) by auto
  have "list_all (\<lambda>ev. re_delay ev \<le> maxDelayMs opts) (retry_trace fn opts 0 s k)"
    by (auto simp: retry_trace_def list_all_iff backoff_delay_def)
  with k assms show ?thesis by (auto simp: withExponentialBackoff_def)
qed

definition flaky :: "nat \<Rightarrow> nat result \<times> nat" where
  "flaky s = (if s < 2 then Inl (Native ''socket hang up'' (Some ''ECONNRESET'')) else Inr s, Suc s)"

definition test_options :: backoff_options where
  "test_options = \<lparr>maxAttempts = Some 3, baseDelayMs = 1000, maxDelayMs = 30000,
     checkRetryable = isRetryableError\<rparr>"

lemma withExponentialBackoff_spec_witness:
  "(\<exists>k evs. ends_at flaky (checkRetryable test_options) (nat 3) 0 k \<and> evs = retry_trace flaky test_options 0 0 k \<and>
    withExponentialBackoff flaky test_options 0 = (call_outcome flaky 0 k, call_state flaky 0 (Suc k), evs) \<and>
    list_all (\<lambda>ev. re_delay ev \<le> maxDelayMs test_options) evs) \<and>
   map_prod id fst (withExponentialBackoff flaky test_options 0) = (Inr 2, 3)"
  by (rule conjI [OF withExponentialBackoff_spec]) (simp add: test_options_def, simp, code_simp)

text \<open>
  A setting that is not a number ends every call before its first attempt.
\<close>

lemma no_attempt_when_nan:
  assumes "DEFAULT_MAX_ATTEMPTS e = None"
  shows "withExponentialBackoff fn (default_options e) s = (Inl unreachable_error, s, [])"
  using assms by (simp add: withExponentialBackoff_def default_options_def)

lemma empty_setting_is_nan: "env_ANCHOR_MAX_RETRIES e = Some [] \<Longrightarrow> DEFAULT_MAX_ATTEMPTS e = None"
  by (simp add: DEFAULT_MAX_ATTEMPTS_def parseInt10_def js_trim_def)

end
