(* ===== verification/Crypto.thy ===== *)
theory Crypto
  imports Libs
begin

text \<open>
  \<open>utils/crypto.ts\<close>, \<open>utils/encryption.ts\<close>, \<open>utils/totp-encryption.ts\<close> and \<open>utils/jwt.ts\<close>:
  hashing, the encryption of prompts and outputs, the encryption of TOTP secrets, and the
  session and refresh tokens. The initialisation vector and the token's random bytes are
  arguments.
\<close>

section \<open>Hashing\<close>

definition hashSHA256 :: "libs \<Rightarrow> string \<Rightarrow> string" where
  "hashSHA256 L input = to_hex (sha256 L (utf8_encode input))"

section \<open>Event encryption\<close>

definition IV_LENGTH :: nat where "IV_LENGTH = 12"
definition AUTH_TAG_LENGTH :: nat where "AUTH_TAG_LENGTH = 16"

definition getKey :: "env \<Rightarrow> byte list result" where
  "getKey e =
     (case env_EVENT_ENCRYPTION_KEY e of
        None \<Rightarrow> Inl (Native ''EVENT_ENCRYPTION_KEY environment variable is not set'' None)
      | Some raw \<Rightarrow>
          if raw = [] then Inl (Native ''EVENT_ENCRYPTION_KEY environment variable is not set'' None)
          else let key = from_base64 raw in
            if length key \<noteq> 32
            then Inl (Native ''EVENT_ENCRYPTION_KEY must be a 32-byte base64-encoded key'' None)
            else Inr key)"

definition encrypt :: "libs \<Rightarrow> env \<Rightarrow> byte list \<Rightarrow> string \<Rightarrow> string result" where
  "encrypt L e iv plaintext =
     (if plaintext = [] then Inr []
      else case getKey e of
        Inl err \<Rightarrow> Inl err
      | Inr key \<Rightarrow>
          let (encrypted, authTag) = gcm_seal L key iv (utf8_encode plaintext)
          in Inr (to_base64 (iv @ authTag @ encrypted)))"

text \<open>
  What Node does with the parts of a sealed text: it rejects an empty initialisation vector
  and a tag that is not as long as announced, and throws from \<open>final\<close> when the tag does not
  authenticate the text.
\<close>

definition gcm_decipher :: "libs \<Rightarrow> nat \<Rightarrow> byte list \<Rightarrow> byte list \<Rightarrow> byte list \<Rightarrow> byte list \<Rightarrow> string result" where
  "gcm_decipher L taglen key iv tag data =
     (if iv = [] then Inl (Native ''Invalid initialization vector'' (Some ''ERR_CRYPTO_INVALID_IV''))
      else if length tag \<noteq> taglen
      then Inl (Native (''Invalid authentication tag length: '' @ show_nat (length tag))
        (Some ''ERR_CRYPTO_INVALID_AUTH_TAG''))
      else case gcm_open L key iv tag data of
        None \<Rightarrow> Inl (Native ''Unsupported state or unable to authenticate data'' None)
      | Some pt \<Rightarrow> Inr (utf8_decode pt))"

definition decrypt :: "libs \<Rightarrow> env \<Rightarrow> string \<Rightarrow> string result" where
  "decrypt L e ciphertext =
     (if ciphertext = [] then Inr []
      else case getKey e of
        Inl err \<Rightarrow> Inl err
      | Inr key \<Rightarrow>
          let buf = from_base64 ciphertext;
              iv = take IV_LENGTH buf;
              authTag = take AUTH_TAG_LENGTH (drop IV_LENGTH buf);
              encrypted = drop (IV_LENGTH + AUTH_TAG_LENGTH) buf
          in gcm_decipher L AUTH_TAG_LENGTH key iv authTag encrypted)"

section \<open>TOTP secret encryption\<close>

definition totp_key :: "libs \<Rightarrow> env \<Rightarrow> byte list" where
  "totp_key L e =
     sha256 L (utf8_encode
       (case env_TOTP_ENCRYPTION_KEY e of
          None \<Rightarrow> ''dev_totp_key_not_for_production_use!!''
        | Some raw \<Rightarrow> raw))"

definition encryptTotp :: "libs \<Rightarrow> env \<Rightarrow> byte list \<Rightarrow> string \<Rightarrow> string" where
  "encryptTotp L e iv plaintext =
     (let (encrypted, tag) = gcm_seal L (totp_key L e) iv (utf8_encode plaintext)
      in to_hex iv @ '':'' @ to_hex tag @ '':'' @ to_hex encrypted)"

definition decryptTotp :: "libs \<Rightarrow> env \<Rightarrow> string \<Rightarrow> string result" where
  "decryptTotp L e stored =
     (case js_split CHR '':'' stored of
        [ivHex, tagHex, dataHex] \<Rightarrow>
          gcm_decipher L 16 (totp_key L e) (from_hex ivHex) (from_hex tagHex) (from_hex dataHex)
      | _ \<Rightarrow> Inl (Native ''Invalid encrypted TOTP format'' None))"

section \<open>Session and refresh tokens\<close>

definition signJwt :: "libs \<Rightarrow> env \<Rightarrow> millis \<Rightarrow> jwt_payload \<Rightarrow> string" where
  "signJwt L e now payload = jwt_sign L (env_JWT_SECRET e) payload now (now + 24 * 60 * 60 * 1000)"

definition generateRefreshToken :: "byte list \<Rightarrow> string" where
  "generateRefreshToken rnd = to_base64url rnd"

section \<open>Lemmas\<close>

lemma hashSHA256_shape:
  assumes "sha256_size L"
  shows "length (hashSHA256 L s) = 64" and "list_all is_lower_hex (hashSHA256 L s)"
  using assms by (simp_all add: hashSHA256_def sha256_size_def to_hex_lower)

lemma from_hex_hashSHA256 [simp]: "from_hex (hashSHA256 L s) = sha256 L (utf8_encode s)"
  by (simp add: hashSHA256_def from_hex_to_hex)

lemma decrypt_encrypt:
  assumes "gcm_correct L" and "length iv = IV_LENGTH" and "encrypt L e iv p = Inr c"
  shows "decrypt L e c = Inr p"
proof (cases "p = []")
  case True
  with assms(3) show ?thesis by (simp add: encrypt_def decrypt_def)
next
  case False
  with assms(3) obtain key where key: "getKey e = Inr key"
    by (auto simp: encrypt_def split: sum.splits)
  obtain ct tag where seal: "gcm_seal L key iv (utf8_encode p) = (ct, tag)"
    by (cases "gcm_seal L key iv (utf8_encode p)")
  have tag: "length tag = 16" and opened: "gcm_open L key iv tag ct = Some (utf8_encode p)"
    using assms(1) [unfolded gcm_correct_def, rule_format, of key iv "utf8_encode p"]
    by (simp_all add: seal)
  have c: "c = to_base64 (iv @ tag @ ct)"
    using assms(3) False by (simp add: encrypt_def key seal)
  have iv: "iv \<noteq> []" and len: "length iv = 12" using assms(2) by (auto simp: IV_LENGTH_def)
  have "from_base64 c \<noteq> []" unfolding c from_base64_to_base64 using iv by simp
  then have "c \<noteq> []" by (auto simp: from_base64_def)
  then show ?thesis
    unfolding decrypt_def key c from_base64_to_base64 Let_def
    using len tag opened iv by (simp add: IV_LENGTH_def AUTH_TAG_LENGTH_def gcm_decipher_def)
qed

lemma encrypt_ok:
  "getKey e = Inr key \<Longrightarrow> \<exists>c. encrypt L e iv p = Inr c"
  by (simp add: encrypt_def case_prod_beta)

lemma encrypt_empty_iff:
  assumes "encrypt L e iv p = Inr c" and "iv \<noteq> []"
  shows "c = [] \<longleftrightarrow> p = []"
proof
  assume "c = []"
  show "p = []"
  proof (rule ccontr)
    assume "p \<noteq> []"
    then obtain ct tag where "c = to_base64 (iv @ tag @ ct)"
      using assms(1) by (auto simp: encrypt_def case_prod_beta split: sum.splits)
    then have "from_base64 c = iv @ tag @ ct" by (simp add: from_base64_to_base64)
    with \<open>c = []\<close> assms(2) show False by (simp add: from_base64_def)
  qed
qed (use assms in \<open>simp add: encrypt_def\<close>)

text \<open>A text too short to hold a vector and a tag never decrypts.\<close>

lemma decrypt_short:
  assumes "p \<noteq> []" and "length p \<le> 37"
  shows "\<exists>err. decrypt L e p = Inl err"
proof (cases "getKey e")
  case (Inl err)
  then show ?thesis using assms(1) by (simp add: decrypt_def)
next
  case (Inr key)
  have "length (from_base64 p) < 28"
    using length_from_base64 [of p] assms(2) by linarith
  then have "length (take 16 (drop 12 (from_base64 p))) \<noteq> 16" by simp
  then show ?thesis
    using assms(1) by (simp add: decrypt_def Inr Let_def IV_LENGTH_def AUTH_TAG_LENGTH_def gcm_decipher_def)
qed

lemma decryptTotp_encryptTotp:
  assumes "gcm_correct L" and "iv \<noteq> []"
  shows "decryptTotp L e (encryptTotp L e iv p) = Inr p"
proof -
  define key where "key = totp_key L e"
  obtain ct tag where seal: "gcm_seal L key iv (utf8_encode p) = (ct, tag)"
    by (cases "gcm_seal L key iv (utf8_encode p)")
  have tag: "length tag = 16" and opened: "gcm_open L key iv tag ct = Some (utf8_encode p)"
    using assms(1) [unfolded gcm_correct_def, rule_format, of key iv "utf8_encode p"]
    by (simp_all add: seal)
  have sep: "\<not> is_lower_hex CHR '':''" by (simp add: is_lower_hex_def is_digit_def code_unit_def)
  have "js_split CHR '':'' (encryptTotp L e iv p) = [to_hex iv, to_hex tag, to_hex ct]"
    by (simp add: encryptTotp_def key_def [symmetric] seal hex.split_encode [OF sep])
  then show ?thesis
    using assms(2) tag opened
    by (simp add: decryptTotp_def from_hex_to_hex key_def [symmetric] gcm_decipher_def)
qed

lemma generateRefreshToken_inject:
  "generateRefreshToken a = generateRefreshToken b \<longleftrightarrow> a = b"
  by (simp add: generateRefreshToken_def b64url.encode_inject)

end
