(* ===== verification/Signing.thy ===== *)
theory Signing
  imports Crypto
begin

text \<open>
  \<open>services/BlockchainSigningService.ts\<close>: signing a digest with a key held by AWS KMS. KMS and
  the Ethereum primitives of viem are the parameters \<open>signer_libs\<close>; parsing the DER structures
  that KMS returns and finding the recovery bit is the program's own.

  A read past the end of a byte array is \<open>undefined\<close>, and arithmetic on it gives \<open>NaN\<close>: both
  are \<open>None\<close> here.
\<close>

record signer_libs =
  kms_sign :: "string \<Rightarrow> byte list \<Rightarrow> byte list option result"
    \<comment> \<open>key, digest; \<open>None\<close> for a response without a signature\<close>
  kms_public_key :: "string \<Rightarrow> byte list option result"
  keccak256 :: "byte list \<Rightarrow> byte list"
  getAddress :: "string \<Rightarrow> string" \<comment> \<open>the checksummed form of an address\<close>
  recoverAddress :: "string \<Rightarrow> string \<Rightarrow> string \<Rightarrow> int \<Rightarrow> string option"
    \<comment> \<open>hash, r, s, v; \<open>None\<close> when it throws\<close>

section \<open>DER\<close>

definition byte_at :: "byte list \<Rightarrow> int \<Rightarrow> int option" where
  "byte_at bs i = (if 0 \<le> i \<and> i < int (length bs) then Some (uint (bs ! nat i)) else None)"

text \<open>\<open>slice\<close> between two indices that are not negative.\<close>

definition slice :: "byte list \<Rightarrow> int \<Rightarrow> int \<Rightarrow> byte list" where
  "slice bs a b = take (nat b - nat a) (drop (nat a) bs)"

text \<open>
  One INTEGER at an offset: its bytes without the sign byte, and the offset after it.
\<close>

definition der_integer :: "string \<Rightarrow> byte list \<Rightarrow> int option \<Rightarrow> (byte list \<times> int option) result" where
  "der_integer what der offset =
     (case offset of
        None \<Rightarrow> Inl (Native (''Invalid DER signature: expected INTEGER tag 0x02 for '' @ what) None)
      | Some off \<Rightarrow>
          if byte_at der off \<noteq> Some 0x02
          then Inl (Native (''Invalid DER signature: expected INTEGER tag 0x02 for '' @ what) None)
          else
            let len = byte_at der (off + 1);
                (len', start) =
                  (if byte_at der (off + 2) = Some 0x00
                   then (map_option (\<lambda>n. n - 1) len, off + 3) else (len, off + 2))
            in Inr (case len' of
                      None \<Rightarrow> ([], None)
                    | Some n \<Rightarrow> (slice der start (start + n), Some (start + n))))"

definition hex_32 :: "byte list \<Rightarrow> string" where
  "hex_32 bs = ''0x'' @ padStart (to_hex bs) 64 CHR ''0''"

definition parseDerSignature :: "byte list \<Rightarrow> (string \<times> string) result" where
  "parseDerSignature der =
     (if byte_at der 0 \<noteq> Some 0x30
      then Inl (Native ''Invalid DER signature: expected SEQUENCE tag 0x30'' None)
      else
        let offset = (case byte_at der 1 of
              None \<Rightarrow> 2
            | Some b \<Rightarrow> if 128 \<le> b then 2 + b mod 128 else 2)
        in case der_integer ''r'' der (Some offset) of
             Inl err \<Rightarrow> Inl err
           | Inr (rBytes, offset') \<Rightarrow>
          (case der_integer ''s'' der offset' of
             Inl err \<Rightarrow> Inl err
           | Inr (sBytes, _) \<Rightarrow> Inr (hex_32 rBytes, hex_32 sBytes)))"

text \<open>\<open>slice(-65)\<close> keeps everything of a shorter array.\<close>

definition parseDerPublicKey :: "byte list \<Rightarrow> byte list result" where
  "parseDerPublicKey der =
     (let point = drop (length der - 65) der in
      if byte_at point 0 \<noteq> Some 0x04
      then Inl (Native ''Expected uncompressed secp256k1 public key (0x04 prefix not found)'' None)
      else Inr (drop 1 point))"

section \<open>Signing\<close>

definition signing_key_id :: "env \<Rightarrow> string result" where
  "signing_key_id e =
     (case env_KMS_SIGNING_KEY_ID e of
        None \<Rightarrow> Inl (Native ''KMS_SIGNING_KEY_ID environment variable is not set'' None)
      | Some k \<Rightarrow>
          if k = [] then Inl (Native ''KMS_SIGNING_KEY_ID environment variable is not set'' None)
          else Inr k)"

text \<open>The last 40 characters of the hash text are those of its last 20 bytes.\<close>

definition getSignerAddress :: "signer_libs \<Rightarrow> env \<Rightarrow> string result" where
  "getSignerAddress K e =
     (case signing_key_id e of
        Inl err \<Rightarrow> Inl err
      | Inr k \<Rightarrow>
     (case kms_public_key K k of
        Inl err \<Rightarrow> Inl err
      | Inr None \<Rightarrow> Inl (Native ''KMS returned no public key'' None)
      | Inr (Some der) \<Rightarrow>
     (case parseDerPublicKey der of
        Inl err \<Rightarrow> Inl err
      | Inr pubKeyBytes \<Rightarrow>
          let hash = ''0x'' @ to_hex (keccak256 K pubKeyBytes)
          in Inr (getAddress K (''0x'' @ drop (length hash - 40) hash)))))"

fun try_v :: "signer_libs \<Rightarrow> string \<Rightarrow> string \<Rightarrow> string \<Rightarrow> string \<Rightarrow> int list \<Rightarrow> int result" where
  "try_v K hash r s signerAddress [] =
     Inl (Native ''Could not determine recovery bit: neither v=27 nor v=28 recovers the signer address'' None)"
| "try_v K hash r s signerAddress (v # vs) =
     (case recoverAddress K hash r s v of
        Some recovered \<Rightarrow>
          if toLowerCase recovered = toLowerCase signerAddress then Inr v
          else try_v K hash r s signerAddress vs
      | None \<Rightarrow> try_v K hash r s signerAddress vs)"

definition recoverV :: "signer_libs \<Rightarrow> env \<Rightarrow> byte list \<Rightarrow> string \<Rightarrow> string \<Rightarrow> int result" where
  "recoverV K e digest r s =
     (case getSignerAddress K e of
        Inl err \<Rightarrow> Inl err
      | Inr signerAddress \<Rightarrow> try_v K (''0x'' @ to_hex digest) r s signerAddress [27, 28])"

definition signHash :: "signer_libs \<Rightarrow> env \<Rightarrow> byte list \<Rightarrow> (string \<times> string \<times> int) result" where
  "signHash K e digest =
     (case signing_key_id e of
        Inl err \<Rightarrow> Inl err
      | Inr k \<Rightarrow>
     (case kms_sign K k digest of
        Inl err \<Rightarrow> Inl err
      | Inr None \<Rightarrow> Inl (Native ''KMS returned no signature'' None)
      | Inr (Some der) \<Rightarrow>
     (case parseDerSignature der of
        Inl err \<Rightarrow> Inl err
      | Inr (r, s) \<Rightarrow>
     (case recoverV K e digest r s of
        Inl err \<Rightarrow> Inl err
      | Inr v \<Rightarrow> Inr (r, s, v)))))"

section \<open>Reading an encoded signature\<close>

text \<open>The specification: the DER encoding of two unsigned integers.\<close>

definition der_int :: "byte list \<Rightarrow> byte list" where
  "der_int bs =
     (let c = dropWhile (\<lambda>b. b = 0) bs;
          content = (if c = [] then [0] else if 128 \<le> uint (hd c) then 0 # c else c)
      in 0x02 # of_nat (length content) # content)"

definition der_signature :: "byte list \<Rightarrow> byte list \<Rightarrow> byte list" where
  "der_signature r s = 0x30 # of_nat (length (der_int r @ der_int s)) # der_int r @ der_int s"

lemma byte_at_append [simp]: "0 \<le> k \<Longrightarrow> byte_at (pre @ bs) (int (length pre) + k) = byte_at bs k"
  by (auto simp: byte_at_def nth_append nat_add_distrib)

lemma byte_at_append_0 [simp]: "byte_at (pre @ bs) (int (length pre)) = byte_at bs 0"
  using byte_at_append [of 0 pre bs] by simp

lemma byte_at_Cons [simp]:
  "byte_at (x # xs) 0 = Some (uint x)" "byte_at (x # xs) 1 = byte_at xs 0"
  "byte_at (x # xs) 2 = byte_at xs 1"
  by (auto simp: byte_at_def nth_Cons')

lemma slice_append [simp]:
  "0 \<le> a \<Longrightarrow> 0 \<le> b \<Longrightarrow> slice (pre @ bs) (int (length pre) + a) (int (length pre) + b) = slice bs a b"
  by (simp add: slice_def nat_add_distrib)

lemma uint_of_small_nat: "n < 256 \<Longrightarrow> uint (of_nat n :: byte) = int n"
  by (metis unat_of_nat_byte uint_nat)

lemma hd_dropWhile_zeros: "dropWhile (\<lambda>b. b = 0) bs = x # xs \<Longrightarrow> x \<noteq> (0::byte)"
  by (induction bs) (auto split: if_splits)

lemma byte_at_range: "byte_at bs i = Some n \<Longrightarrow> 0 \<le> n \<and> n < 256"
  using uint_bounded [of "bs ! nat i"] by (auto simp: byte_at_def split: if_splits)

lemma der_integer_shift:
  "der_integer what (pre @ bs) (Some (int (length pre))) =
    (case der_integer what bs (Some 0) of
       Inl err \<Rightarrow> Inl err
     | Inr (b, n) \<Rightarrow> Inr (b, map_option (\<lambda>k. int (length pre) + k) n))"
proof (cases "byte_at bs 1")
  case None
  then show ?thesis by (simp add: der_integer_def Let_def)
next
  case (Some n)
  have n: "0 \<le> 3 + (n - 1)" "0 \<le> 2 + n" using byte_at_range [OF Some] by simp_all
  have sl: "slice (pre @ bs) (int (length pre) + 3) (int (length pre) + 3 + (n - 1)) = slice bs 3 (3 + (n - 1))"
    "slice (pre @ bs) (int (length pre) + 2) (int (length pre) + 2 + n) = slice bs 2 (2 + n)"
    using slice_append [OF _ n(1), of 3 pre bs] slice_append [OF _ n(2), of 2 pre bs]
    by (simp_all only: add.assoc)
  have sl': "slice (pre @ bs) (int (length pre) + 3) (2 + (int (length pre) + n)) = slice bs 3 (2 + n)"
    using sl(1) by (simp add: algebra_simps)
  show ?thesis by (simp add: der_integer_def Some sl sl' Let_def)
qed

lemma der_integer_at_0:
  "content \<noteq> [] \<Longrightarrow> length content < 256 \<Longrightarrow> hd content \<noteq> 0 \<Longrightarrow>
    der_integer what (2 # of_nat (length content) # content @ post) (Some 0) =
      Inr (content, Some (int (length content + 2)))"
  "length content < 255 \<Longrightarrow>
    der_integer what (2 # of_nat (Suc (length content)) # 0 # content @ post) (Some 0) =
      Inr (content, Some (int (length content + 3)))"
proof -
  assume c: "content \<noteq> []" "length content < 256" "hd content \<noteq> 0"
  then obtain x xs where x: "content = x # xs" by (cases content) auto
  then have "uint x \<noteq> 0" using c(3) by (metis list.sel(1) uint_0_iff)
  then show "der_integer what (2 # of_nat (length content) # content @ post) (Some 0) =
      Inr (content, Some (int (length content + 2)))"
    using uint_of_small_nat [OF c(2)]
    by (simp add: der_integer_def x Let_def slice_def nat_add_distrib nat_diff_distrib del: of_nat_Suc)
next
  assume "length content < 255"
  then have "uint (of_nat (Suc (length content)) :: byte) = int (Suc (length content))"
    by (intro uint_of_small_nat) simp
  then show "der_integer what (2 # of_nat (Suc (length content)) # 0 # content @ post) (Some 0) =
      Inr (content, Some (int (length content + 3)))"
    by (simp add: der_integer_def Let_def slice_def nat_add_distrib del: of_nat_Suc)
qed

lemma der_integer_der_int:
  assumes "length bs \<le> 126"
  shows "der_integer what (pre @ der_int bs @ post) (Some (int (length pre))) =
    Inr (dropWhile (\<lambda>b. b = 0) bs, Some (int (length (pre @ der_int bs))))"
proof -
  define c where "c = dropWhile (\<lambda>b. b = 0) bs"
  have len: "length c \<le> 126" using assms length_dropWhile_le [of "\<lambda>b. b = 0" bs] by (simp add: c_def)
  have hd: "hd c \<noteq> 0" if "c \<noteq> []" using that hd_dropWhile_zeros [of bs "hd c" "tl c"] by (simp add: c_def)
  have "der_integer what (der_int bs @ post) (Some 0) = Inr (c, Some (int (length (der_int bs))))"
  proof (cases "c = [] \<or> 128 \<le> uint (hd c)")
    case True
    then have "der_int bs = 2 # of_nat (Suc (length c)) # 0 # c"
      unfolding der_int_def c_def [symmetric] Let_def by (cases "c = []") simp_all
    then show ?thesis using der_integer_at_0(2) [of c what post] len by (simp del: of_nat_Suc)
  next
    case False
    then have "der_int bs = 2 # of_nat (length c) # c"
      unfolding der_int_def c_def [symmetric] Let_def by simp
    then show ?thesis using der_integer_at_0(1) [of c what post] len hd False by simp
  qed
  then show ?thesis unfolding der_integer_shift c_def by simp
qed

lemma length_der_int: "length bs \<le> 32 \<Longrightarrow> length (der_int bs) \<le> 35"
  using length_dropWhile_le [of "\<lambda>b. b = 0" bs] by (simp add: der_int_def Let_def)

lemma takeWhile_zeros: "takeWhile (\<lambda>b. b = 0) bs = replicate (length (takeWhile (\<lambda>b. b = 0) bs)) (0::byte)"
  by (induction bs) auto

lemma hex_byte_zero: "hex_byte 0 = ''00''"
  by code_simp

lemma to_hex_zeros: "to_hex (replicate n 0) = replicate (2 * n) CHR ''0''"
  by (induction n) (simp_all add: hex_byte_zero)

lemma to_hex_append: "to_hex (as @ bs) = to_hex as @ to_hex bs"
  by (simp add: to_hex_def)

lemma hex_32_dropWhile:
  assumes "length bs = 32"
  shows "hex_32 (dropWhile (\<lambda>b. b = 0) bs) = ''0x'' @ to_hex bs"
proof -
  define n where "n = length (takeWhile (\<lambda>b. b = 0) bs)"
  define d where "d = dropWhile (\<lambda>b. b = 0) bs"
  have bs: "bs = replicate n 0 @ d"
    using takeWhile_dropWhile_id [of "\<lambda>b. b = 0" bs] takeWhile_zeros [of bs] by (simp add: n_def d_def)
  then have "to_hex bs = replicate (2 * n) CHR ''0'' @ to_hex d"
    by (simp only: to_hex_append to_hex_zeros)
  moreover have "64 - 2 * length d = 2 * n" using assms bs by simp
  ultimately show ?thesis by (simp add: hex_32_def padStart_def d_def)
qed

lemma parse_der_signature:
  assumes "length r = 32" and "length s = 32"
  shows "parseDerSignature (der_signature r s) = Inr (''0x'' @ to_hex r, ''0x'' @ to_hex s)"
proof -
  define l :: byte where "l = of_nat (length (der_int r @ der_int s))"
  have len: "length (der_int r @ der_int s) < 128" 
    using length_der_int [of r] length_der_int [of s] assms by simp
  then have l: "uint l < 128" unfolding l_def by (subst uint_of_small_nat) simp_all
  have der: "der_signature r s = [0x30, l] @ der_int r @ der_int s"
    by (simp add: der_signature_def l_def)
  note i1 = der_integer_der_int [of r "''r''" "[0x30, l]" "der_int s"]
  note i2 = der_integer_der_int [of s "''s''" "[0x30, l] @ der_int r" "[]"]
  show ?thesis
    unfolding der parseDerSignature_def using l i1 i2 assms
    by (simp add: hex_32_dropWhile Let_def)
qed

section \<open>Properties\<close>

lemma try_v_sound:
  "try_v K hash r s addr vs = Inr v \<Longrightarrow>
     v \<in> set vs \<and> (\<exists>a. recoverAddress K hash r s v = Some a \<and> toLowerCase a = toLowerCase addr)"
  by (induction vs) (auto split: option.splits if_splits)

lemma try_v_complete:
  "v \<in> set vs \<Longrightarrow> recoverAddress K hash r s v = Some a \<Longrightarrow> toLowerCase a = toLowerCase addr \<Longrightarrow>
     \<exists>v'. try_v K hash r s addr vs = Inr v'"
  by (induction vs) (auto split: option.splits)

text \<open>
  C27. The signature parser reads back every pair of 32-byte integers from its DER encoding,
  whatever leading zeros and sign bytes the encoding drops or adds.
\<close>

theorem parseDerSignature_roundtrip:
  assumes "length r = 32" and "length s = 32"
  shows "parseDerSignature (der_signature r s) = Inr (''0x'' @ to_hex r, ''0x'' @ to_hex s)"
  by (rule parse_der_signature [OF assms])

lemma parseDerSignature_roundtrip_witness:
  "parseDerSignature (der_signature (replicate 32 0x81) (0 # replicate 31 0x7f)) =
     Inr (''0x'' @ to_hex (replicate 32 0x81), ''0x'' @ to_hex (0 # replicate 31 0x7f))"
  by (rule parseDerSignature_roundtrip) simp_all

text \<open>
  C26. What \<open>signHash\<close> returns recovers to the signer: the recovery value is 27 or 28, and with
  it the returned \<open>r\<close> and \<open>s\<close> recover, for the digest, to the address of the KMS key. When KMS
  answers with the DER encoding of \<open>r\<close> and \<open>s\<close> and one of the two values recovers the signer,
  \<open>signHash\<close> returns, with exactly these \<open>r\<close> and \<open>s\<close>.
\<close>

theorem signHash_recovers:
  assumes "getSignerAddress K e = Inr addr" and "signing_key_id e = Inr k"
    and "kms_sign K k digest = Inr (Some (der_signature r s))" and "length r = 32" and "length s = 32"
  shows "(case signHash K e digest of
      Inr (r', s', v) \<Rightarrow>
        r' = ''0x'' @ to_hex r \<and> s' = ''0x'' @ to_hex s \<and> v \<in> {27, 28} \<and>
        (\<exists>a. recoverAddress K (''0x'' @ to_hex digest) r' s' v = Some a \<and>
             toLowerCase a = toLowerCase addr)
    | Inl err \<Rightarrow>
        (\<forall>v \<in> {27, 28}. \<forall>a.
           recoverAddress K (''0x'' @ to_hex digest) (''0x'' @ to_hex r) (''0x'' @ to_hex s) v = Some a \<longrightarrow>
           toLowerCase a \<noteq> toLowerCase addr))"
proof -
  define found where
    "found = try_v K (''0x'' @ to_hex digest) (''0x'' @ to_hex r) (''0x'' @ to_hex s) addr [27, 28]"
  have sign: "signHash K e digest =
      (case found of Inl err \<Rightarrow> Inl err | Inr v \<Rightarrow> Inr (''0x'' @ to_hex r, ''0x'' @ to_hex s, v))"
    using assms by (simp add: signHash_def recoverV_def parse_der_signature found_def del: try_v.simps
        split: sum.split)
  show ?thesis
  proof (cases found)
    case (Inl err)
    then have "\<not> (\<exists>v'. found = Inr v')" by simp
    then show ?thesis
      unfolding sign Inl
      using Inl [unfolded found_def] try_v_complete [of _ "[27, 28]" K "''0x'' @ to_hex digest" "''0x'' @ to_hex r" "''0x'' @ to_hex s" _ addr]
      by (auto simp del: try_v.simps)
  next
    case (Inr v)
    then show ?thesis
      unfolding sign using try_v_sound [of K _ _ _ addr "[27, 28]" v] by (auto simp: found_def simp del: try_v.simps)
  qed
qed

definition toy_signer :: signer_libs where
  "toy_signer =
     \<lparr>kms_sign = (\<lambda>k d. Inr (Some (der_signature (replicate 32 1) (replicate 32 0x90)))),
      kms_public_key = (\<lambda>k. Inr (Some (0x30 # 4 # replicate 64 7))),
      keccak256 = (\<lambda>bs. replicate 32 0xab),
      getAddress = (\<lambda>a. toUpperCase a),
      recoverAddress = (\<lambda>h r s v. if v = 28 then Some (''0x'' @ to_hex (replicate 20 0xab)) else None)\<rparr>"

definition signer_env :: env where
  "signer_env =
     \<lparr>env_SKIP_SES = None, env_NODE_ENV = None, env_JWT_SECRET = ''secret'',
      env_EVENT_ENCRYPTION_KEY = None, env_TOTP_ENCRYPTION_KEY = None,
      env_ANCHOR_MAX_RETRIES = None, env_KMS_SIGNING_KEY_ID = Some ''key'', env_FRONTEND_URL = None\<rparr>"

lemma signHash_recovers_witness:
  "(case signHash toy_signer signer_env [1, 2] of
      Inr (r', s', v) \<Rightarrow>
        r' = ''0x'' @ to_hex (replicate 32 1) \<and> s' = ''0x'' @ to_hex (replicate 32 0x90) \<and> v \<in> {27, 28} \<and>
        (\<exists>a. recoverAddress toy_signer (''0x'' @ to_hex [1, 2]) r' s' v = Some a \<and>
             toLowerCase a = toLowerCase (''0X'' @ concat (replicate 20 ''AB'')))
    | Inl err \<Rightarrow>
        (\<forall>v \<in> {27, 28}. \<forall>a.
           recoverAddress toy_signer (''0x'' @ to_hex [1, 2]) (''0x'' @ to_hex (replicate 32 1))
             (''0x'' @ to_hex (replicate 32 0x90)) v = Some a \<longrightarrow>
           toLowerCase a \<noteq> toLowerCase (''0X'' @ concat (replicate 20 ''AB'')))) \<and>
   (case signHash toy_signer signer_env [1, 2] of Inr (_, _, v) \<Rightarrow> v = 28 | Inl _ \<Rightarrow> False)"
proof (rule conjI [OF signHash_recovers])
  show "getSignerAddress toy_signer signer_env = Inr (''0X'' @ concat (replicate 20 ''AB''))" by code_simp
  show "signing_key_id signer_env = Inr ''key''" by code_simp
  show "kms_sign toy_signer ''key'' [1, 2] = Inr (Some (der_signature (replicate 32 1) (replicate 32 0x90)))"
    by (simp add: toy_signer_def)
  show "case signHash toy_signer signer_env [1, 2] of Inr (_, _, v) \<Rightarrow> v = 28 | Inl _ \<Rightarrow> False"
    by code_simp
qed simp_all

end
