(* ===== verification/Json.thy ===== *)
theory Json
  imports JsString "HOL-Library.Multiset"
begin

text \<open>
  JavaScript values as JSON has them, and \<open>JSON.stringify\<close>. A number is kept as the text
  that \<open>Number.prototype.toString\<close> gives for it; an object is its own enumerable string
  properties in the order in which the engine enumerates them: array indices ascending,
  then the other keys in the order they were added.
\<close>

datatype json =
    JNull
  | JBool bool
  | JNum string
  | JStr string
  | JArr "json list"
  | JObj "(string \<times> json) list"

section \<open>Property order\<close>

text \<open>A key that is an array index: a decimal below 2^32 - 1 without leading zeros.\<close>

definition is_index_key :: "string \<Rightarrow> bool" where
  "is_index_key k \<longleftrightarrow>
     k \<noteq> [] \<and> list_all is_digit k \<and> (hd k = CHR ''0'' \<longrightarrow> length k = 1) \<and>
     digits_val k < 4294967295"

text \<open>
  Where a new index key goes among the properties: before the first property that is not
  an index, or is a larger one.
\<close>

fun insert_index :: "string \<Rightarrow> 'v \<Rightarrow> (string \<times> 'v) list \<Rightarrow> (string \<times> 'v) list" where
  "insert_index k v [] = [(k, v)]"
| "insert_index k v ((k', v') # ps) =
     (if is_index_key k' \<and> digits_val k' < digits_val k then (k', v') # insert_index k v ps
      else (k, v) # (k', v') # ps)"

text \<open>
  \<open>obj[k] = v\<close> on an object without accessors of its own. The key \<open>__proto__\<close> reaches the
  accessor of \<open>Object.prototype\<close>: no property is added.
\<close>

definition obj_put :: "(string \<times> 'v) list \<Rightarrow> string \<Rightarrow> 'v \<Rightarrow> (string \<times> 'v) list" where
  "obj_put ps k v =
     (if k = ''__proto__'' then ps
      else if k \<in> set (map fst ps) then map (\<lambda>(k', v'). (k', if k' = k then v else v')) ps
      else if is_index_key k then insert_index k v ps
      else ps @ [(k, v)])"

section \<open>JSON.stringify\<close>

definition hex4 :: "nat \<Rightarrow> string" where
  "hex4 n =
     ''00'' @ map (\<lambda>d. if d < 10 then char_of (48 + d) else char_of (87 + d)) [n div 16, n mod 16]"

definition json_char :: "char \<Rightarrow> string" where
  "json_char c =
     (let n = code_unit c in
      if n = 34 then [CHR 0x5C, CHR 0x22]
      else if n = 92 then [CHR 0x5C, CHR 0x5C]
      else if n = 8 then CHR 0x5C # ''b''
      else if n = 9 then CHR 0x5C # ''t''
      else if n = 10 then CHR 0x5C # ''n''
      else if n = 12 then CHR 0x5C # ''f''
      else if n = 13 then CHR 0x5C # ''r''
      else if n < 32 then CHR 0x5C # ''u'' @ hex4 n
      else [c])"

definition quote :: char where
  "quote = CHR 0x22"

definition json_string :: "string \<Rightarrow> string" where
  "json_string s = quote # concat (map json_char s) @ [quote]"

fun stringify :: "json \<Rightarrow> string"
  and stringify_items :: "json list \<Rightarrow> string"
  and stringify_fields :: "(string \<times> json) list \<Rightarrow> string"
where
  "stringify JNull = ''null''"
| "stringify (JBool b) = (if b then ''true'' else ''false'')"
| "stringify (JNum n) = n"
| "stringify (JStr s) = json_string s"
| "stringify (JArr xs) = ''['' @ stringify_items xs"
| "stringify (JObj ps) = ''{'' @ stringify_fields ps"
| "stringify_items [] = '']''"
| "stringify_items (x # xs) =
     stringify x @ (case xs of [] \<Rightarrow> '']'' | _ \<Rightarrow> '','' @ stringify_items xs)"
| "stringify_fields [] = ''}''"
| "stringify_fields (p # ps) =
     json_string (fst p) @ '':'' @ stringify (snd p) @
     (case ps of [] \<Rightarrow> ''}'' | _ \<Rightarrow> '','' @ stringify_fields ps)"

section \<open>A printed string can be read back in one way\<close>

lemma hex4_inject: "m < 256 \<Longrightarrow> n < 256 \<Longrightarrow> hex4 m = hex4 n \<Longrightarrow> m = n"
proof -
  assume m: "m < 256" and n: "n < 256" and eq: "hex4 m = hex4 n"
  have inj: "x = y" if "x < 16" "y < 16"
    "(if x < 10 then char_of (48 + x) else char_of (87 + x)) =
     (if y < 10 then char_of (48 + y) else char_of (87 + y) :: char)" for x y :: nat
  proof -
    have "code_unit (if x < 10 then char_of (48 + x) else char_of (87 + x)) =
          code_unit (if y < 10 then char_of (48 + y) else char_of (87 + y))"
      using that(3) by simp
    then show ?thesis using that(1,2) by (simp split: if_splits)
  qed
  have "m div 16 = n div 16"
    by (rule inj) (use m n eq in \<open>simp_all add: hex4_def less_mult_imp_div_less\<close>)
  moreover have "m mod 16 = n mod 16"
    by (rule inj) (use eq in \<open>simp_all add: hex4_def\<close>)
  ultimately show "m = n" by (metis div_mult_mod_eq)
qed

lemma length_hex4: "length (hex4 n) = 4"
  by (simp add: hex4_def)

text \<open>What a printed character looks like: itself, or a backslash and a kind of escape.\<close>

lemma json_char_cases:
  obtains (raw) "json_char c = [c]" "code_unit c \<noteq> 92" "code_unit c \<noteq> 34"
  | (short) k where "json_char c = [CHR 0x5C, k]" "k \<noteq> CHR ''u''"
      "(code_unit c, k) \<in> {(34, CHR 0x22), (92, CHR 0x5C), (8, CHR ''b''),
         (9, CHR ''t''), (10, CHR ''n''), (12, CHR ''f''), (13, CHR ''r'')}"
  | (long) "json_char c = CHR 0x5C # CHR ''u'' # hex4 (code_unit c)" "code_unit c < 32"
  by (cases "code_unit c \<in> {34, 92, 8, 9, 10, 12, 13}"; cases "code_unit c < 32")
    (auto simp: json_char_def Let_def)

lemma json_char_prefix:
  assumes "json_char c @ u = json_char d @ v"
  shows "c = d \<and> u = v"
proof -
  have bs: "x \<noteq> CHR 0x5C" if "code_unit x \<noteq> 92" for x
    using that by (auto simp: code_unit_def)
  have "c = d"
  proof (cases c rule: json_char_cases)
    case raw
    with assms bs [OF raw(2)] show ?thesis by (cases d rule: json_char_cases) auto
  next
    case (short k)
    show ?thesis
    proof (cases d rule: json_char_cases)
      case raw
      with assms short bs [OF raw(2)] show ?thesis by auto
    next
      case (short k')
      with assms \<open>json_char c = _\<close> have "k = k'" by simp
      then have "code_unit c = code_unit d"
        using short(3) \<open>(code_unit c, k) \<in> _\<close> by (auto simp del: code_unit_inject)
      then show ?thesis by simp
    next
      case long
      with assms short show ?thesis by simp
    qed
  next
    case long
    show ?thesis
    proof (cases d rule: json_char_cases)
      case raw
      with assms long bs [OF raw(2)] show ?thesis by auto
    next
      case (short k')
      with assms long show ?thesis by simp
    next
      case long': long
      have "hex4 (code_unit c) = hex4 (code_unit d)"
        using assms long long' append_eq_append_conv [of "hex4 (code_unit c)" "hex4 (code_unit d)"]
        by (simp add: length_hex4)
      then show ?thesis using hex4_inject [of "code_unit c" "code_unit d"] code_unit_less by simp
    qed
  qed
  with assms show ?thesis by simp
qed

lemma json_char_not_quote: "\<exists>x xs. json_char c = x # xs \<and> x \<noteq> quote"
  by (cases c rule: json_char_cases) (auto simp: quote_def code_unit_def)

lemma json_chars_prefix:
  assumes "concat (map json_char s) @ quote # u = concat (map json_char t) @ quote # v"
  shows "s = t \<and> u = v"
  using assms
proof (induction s arbitrary: t)
  case Nil
  show ?case
  proof (cases t)
    case Nil
    with Nil.prems show ?thesis by simp
  next
    case (Cons d t')
    with Nil.prems json_char_not_quote [of d] show ?thesis by auto
  qed
next
  case (Cons c s)
  show ?case
  proof (cases t)
    case Nil
    with Cons.prems json_char_not_quote [of c] show ?thesis by auto
  next
    case (Cons d t')
    with Cons.prems have "json_char c @ (concat (map json_char s) @ quote # u) =
        json_char d @ (concat (map json_char t') @ quote # v)" by simp
    then have "c = d \<and> concat (map json_char s) @ quote # u = concat (map json_char t') @ quote # v"
      by (rule json_char_prefix)
    with Cons Cons.IH [of t'] show ?thesis by simp
  qed
qed

lemma json_string_prefix: "json_string s @ u = json_string t @ v \<Longrightarrow> s = t \<and> u = v"
  by (rule json_chars_prefix) (simp add: json_string_def)

section \<open>A printed value can be read back in one way\<close>

text \<open>The characters of a number, and values whose numbers are made of them.\<close>

definition number_char :: "char \<Rightarrow> bool" where
  "number_char c \<longleftrightarrow> is_digit c \<or> c \<in> {CHR ''-'', CHR ''+'', CHR ''.'', CHR ''e''}"

definition number_text :: "string \<Rightarrow> bool" where
  "number_text s \<longleftrightarrow> s \<noteq> [] \<and> list_all number_char s"

fun json_ok :: "json \<Rightarrow> bool"
  and json_ok_items :: "json list \<Rightarrow> bool"
  and json_ok_fields :: "(string \<times> json) list \<Rightarrow> bool"
where
  "json_ok JNull = True"
| "json_ok (JBool b) = True"
| "json_ok (JNum n) = number_text n"
| "json_ok (JStr s) = True"
| "json_ok (JArr xs) = json_ok_items xs"
| "json_ok (JObj ps) = json_ok_fields ps"
| "json_ok_items [] = True"
| "json_ok_items (x # xs) = (json_ok x \<and> json_ok_items xs)"
| "json_ok_fields [] = True"
| "json_ok_fields (p # ps) = (json_ok (snd p) \<and> json_ok_fields ps)"

lemma json_ok_items_iff: "json_ok_items xs \<longleftrightarrow> (\<forall>x \<in> set xs. json_ok x)"
  by (induction xs) auto

lemma json_ok_fields_iff: "json_ok_fields ps \<longleftrightarrow> (\<forall>p \<in> set ps. json_ok (snd p))"
  by (induction ps) auto

text \<open>What may follow a printed value: nothing, or the punctuation of its container.\<close>

definition delimited :: "string \<Rightarrow> bool" where
  "delimited u \<longleftrightarrow> u = [] \<or> hd u \<in> {CHR '','', CHR '']'', CHR ''}''}"

definition tail_items :: "json list \<Rightarrow> string" where
  "tail_items xs = (case xs of [] \<Rightarrow> '']'' | _ \<Rightarrow> '','' @ stringify_items xs)"

definition tail_fields :: "(string \<times> json) list \<Rightarrow> string" where
  "tail_fields ps = (case ps of [] \<Rightarrow> ''}'' | _ \<Rightarrow> '','' @ stringify_fields ps)"

lemma delimited_tails [simp]: "delimited (tail_items xs @ u)" "delimited (tail_fields ps @ u)"
  by (simp_all add: delimited_def tail_items_def tail_fields_def split: list.split)

lemma stringify_tails:
  "stringify_items (x # xs) = stringify x @ tail_items xs"
  "stringify_fields (p # ps) = json_string (fst p) @ '':'' @ stringify (snd p) @ tail_fields ps"
  by (simp_all add: tail_items_def tail_fields_def)

text \<open>The kind of a value shows in its first character.\<close>

datatype kind = KNull | KTrue | KFalse | KNum | KStr | KArr | KObj | KNone

definition kind_of_char :: "char \<Rightarrow> kind" where
  "kind_of_char c =
     (if c = CHR ''n'' then KNull else if c = CHR ''t'' then KTrue
      else if c = CHR ''f'' then KFalse else if c = quote then KStr
      else if c = CHR ''['' then KArr else if c = CHR ''{'' then KObj
      else if number_char c then KNum else KNone)"

fun kind_of :: "json \<Rightarrow> kind" where
  "kind_of JNull = KNull"
| "kind_of (JBool b) = (if b then KTrue else KFalse)"
| "kind_of (JNum n) = KNum"
| "kind_of (JStr s) = KStr"
| "kind_of (JArr xs) = KArr"
| "kind_of (JObj ps) = KObj"

lemma number_char_kind: "number_char c \<Longrightarrow> kind_of_char c = KNum"
  by (auto simp: kind_of_char_def number_char_def is_digit_def code_unit_def quote_def)

lemma stringify_kind:
  assumes "json_ok x"
  shows "\<exists>c cs. stringify x = c # cs \<and> kind_of_char c = kind_of x"
proof (cases x)
  case (JNum n)
  with assms obtain c cs where "n = c # cs" "number_char c"
    by (cases n) (auto simp: number_text_def)
  then show ?thesis by (simp add: JNum number_char_kind)
qed (auto simp: kind_of_char_def json_string_def quote_def)

lemma kind_delimiters [simp]:
  "kind_of_char CHR '','' = KNone" "kind_of_char CHR '']'' = KNone" "kind_of_char CHR ''}'' = KNone"
  by (simp_all add: kind_of_char_def number_char_def is_digit_def code_unit_def quote_def)

lemma kind_of_not_none [simp]: "kind_of x \<noteq> KNone" "KNone \<noteq> kind_of x"
  by (cases x; simp)+

lemma stringify_prefix_kind:
  assumes "json_ok x" and "json_ok y" and "stringify x @ u = stringify y @ v"
  shows "kind_of x = kind_of y"
  using stringify_kind [OF assms(1)] stringify_kind [OF assms(2)] assms(3) by auto

lemma stringify_not_delimiter:
  assumes "json_ok x" and "kind_of_char d = KNone"
  shows "stringify x @ u \<noteq> d # v"
  using stringify_kind [OF assms(1)] assms(2) by auto

lemma kind_of_inv:
  "kind_of x = KNull \<Longrightarrow> x = JNull"
  "kind_of x = KTrue \<Longrightarrow> x = JBool True"
  "kind_of x = KFalse \<Longrightarrow> x = JBool False"
  "kind_of x = KNum \<Longrightarrow> \<exists>n. x = JNum n"
  "kind_of x = KStr \<Longrightarrow> \<exists>s. x = JStr s"
  "kind_of x = KArr \<Longrightarrow> \<exists>xs. x = JArr xs"
  "kind_of x = KObj \<Longrightarrow> \<exists>ps. x = JObj ps"
  by (cases x; auto split: if_splits)+

lemma delimited_not_number: "delimited u \<Longrightarrow> u = [] \<or> \<not> number_char (hd u)"
  by (auto simp: delimited_def number_char_def is_digit_def code_unit_def)

text \<open>A list that is not empty, given the claim for its head and for its tail.\<close>

lemma items_step:
  assumes ok: "json_ok x" "json_ok_items xs" "json_ok_items ys"
    and eq: "stringify_items (x # xs) @ u = stringify_items ys @ v"
    and head: "\<And>z u v. json_ok z \<Longrightarrow> delimited u \<Longrightarrow> delimited v \<Longrightarrow> stringify x @ u = stringify z @ v \<Longrightarrow> x = z \<and> u = v"
    and rest: "\<And>zs u v. xs \<noteq> [] \<Longrightarrow> json_ok_items zs \<Longrightarrow> stringify_items xs @ u = stringify_items zs @ v \<Longrightarrow>
      xs = zs \<and> u = v"
  shows "x # xs = ys \<and> u = v"
proof (cases ys)
  case Nil
  with eq ok(1) show ?thesis
    using stringify_not_delimiter [of x "CHR '']''" "tail_items xs @ u" v]
    by (auto simp: stringify_tails simp del: stringify_items.simps(2))
next
  case (Cons z zs)
  have oks: "json_ok z" "json_ok_items zs" using ok(3) by (simp_all add: Cons)
  have "stringify x @ tail_items xs @ u = stringify z @ tail_items zs @ v"
    using eq unfolding Cons stringify_tails by simp
  then have xz: "x = z" "tail_items xs @ u = tail_items zs @ v"
    using head [OF oks(1) delimited_tails(1) delimited_tails(1)] by simp_all
  show ?thesis
  proof (cases xs)
    case Nil
    then show ?thesis using xz Cons by (auto simp: tail_items_def split: list.splits)
  next
    case xs: (Cons x' xs')
    have "stringify_items xs @ u = stringify_items zs @ v"
      using xz(2) by (auto simp: tail_items_def xs simp del: stringify_items.simps split: list.splits)
    then have "xs = zs \<and> u = v" using rest oks(2) by (simp add: xs)
    then show ?thesis using Cons xz(1) by simp
  qed
qed

lemma fields_step:
  assumes ok: "json_ok (snd p)" "json_ok_fields ps" "json_ok_fields qs"
    and eq: "stringify_fields (p # ps) @ u = stringify_fields qs @ v"
    and head: "\<And>z u v. json_ok z \<Longrightarrow> delimited u \<Longrightarrow> delimited v \<Longrightarrow> stringify (snd p) @ u = stringify z @ v \<Longrightarrow>
      snd p = z \<and> u = v"
    and rest: "\<And>zs u v. ps \<noteq> [] \<Longrightarrow> json_ok_fields zs \<Longrightarrow> stringify_fields ps @ u = stringify_fields zs @ v \<Longrightarrow>
      ps = zs \<and> u = v"
  shows "p # ps = qs \<and> u = v"
proof (cases qs)
  case Nil
  with eq show ?thesis
    by (auto simp: stringify_tails json_string_def quote_def simp del: stringify_fields.simps(2))
next
  case (Cons z zs)
  have oks: "json_ok (snd z)" "json_ok_fields zs" using ok(3) by (simp_all add: Cons)
  have "json_string (fst p) @ '':'' @ stringify (snd p) @ tail_fields ps @ u =
      json_string (fst z) @ '':'' @ stringify (snd z) @ tail_fields zs @ v"
    using eq unfolding Cons stringify_tails by simp
  from json_string_prefix [OF this]
  have k: "fst p = fst z"
    and eq': "stringify (snd p) @ tail_fields ps @ u = stringify (snd z) @ tail_fields zs @ v"
    by simp_all
  have pz: "snd p = snd z" "tail_fields ps @ u = tail_fields zs @ v"
    using head [OF oks(1) delimited_tails(2) delimited_tails(2) eq'] by simp_all
  show ?thesis
  proof (cases ps)
    case Nil
    then show ?thesis using k pz Cons by (auto simp: tail_fields_def prod_eq_iff split: list.splits)
  next
    case ps: (Cons p' ps')
    have "stringify_fields ps @ u = stringify_fields zs @ v"
      using pz(2) by (auto simp: tail_fields_def ps simp del: stringify_fields.simps split: list.splits)
    then have "ps = zs \<and> u = v" using rest oks(2) by (simp add: ps)
    then show ?thesis using Cons k pz(1) by (simp add: prod_eq_iff)
  qed
qed

lemma stringify_prefix:
  "json_ok x \<Longrightarrow> json_ok y \<Longrightarrow> delimited u \<Longrightarrow> delimited v \<Longrightarrow>
     stringify x @ u = stringify y @ v \<Longrightarrow> x = y \<and> u = v"
  and items_prefix:
  "json_ok_items xs \<Longrightarrow> json_ok_items ys \<Longrightarrow>
     stringify_items xs @ u = stringify_items ys @ v \<Longrightarrow> xs = ys \<and> u = v"
  and fields_prefix:
  "json_ok_fields ps \<Longrightarrow> json_ok_fields qs \<Longrightarrow>
     stringify_fields ps @ u = stringify_fields qs @ v \<Longrightarrow> ps = qs \<and> u = v"
proof (induction x and xs and ps arbitrary: y u v and ys u v and qs u v
    rule: stringify_stringify_items_stringify_fields.induct)
  case 1
  then have "kind_of y = KNull" using stringify_prefix_kind [of JNull y u v] by simp
  with 1 show ?case by (auto dest: kind_of_inv)
next
  case (2 b)
  then have "kind_of y = kind_of (JBool b)" using stringify_prefix_kind [of "JBool b" y u v] by simp
  then have "y = JBool b" by (cases b) (auto dest: kind_of_inv)
  with 2 show ?case by simp
next
  case (3 n)
  then have "kind_of y = KNum" using stringify_prefix_kind [of "JNum n" y u v] by simp
  then obtain m where y: "y = JNum m" by (blast dest: kind_of_inv)
  with 3 have "n = m \<and> u = v"
    by (intro span_unique [where P = number_char] delimited_not_number)
      (auto simp: number_text_def list_all_iff)
  with y show ?case by simp
next
  case (4 s)
  then have "kind_of y = KStr" using stringify_prefix_kind [of "JStr s" y u v] by simp
  then obtain t where y: "y = JStr t" by (blast dest: kind_of_inv)
  with 4 show ?case using json_string_prefix [of s u t v] by simp
next
  case (5 xs)
  have "kind_of y = KArr" using stringify_prefix_kind [OF 5(2,3,6)] by simp
  then obtain ys where y: "y = JArr ys" by (blast dest: kind_of_inv)
  from y 5(2,3,6) have "json_ok_items xs" "json_ok_items ys" "stringify_items xs @ u = stringify_items ys @ v"
    by simp_all
  then show ?case unfolding y using 5(1) by blast
next
  case (6 ps)
  have "kind_of y = KObj" using stringify_prefix_kind [OF 6(2,3,6)] by simp
  then obtain qs where y: "y = JObj qs" by (blast dest: kind_of_inv)
  from y 6(2,3,6) have "json_ok_fields ps" "json_ok_fields qs" "stringify_fields ps @ u = stringify_fields qs @ v"
    by simp_all
  then show ?case unfolding y using 6(1) by blast
next
  case 7
  show ?case
  proof (cases ys)
    case Nil
    with 7 show ?thesis by simp
  next
    case (Cons z zs)
    with 7 show ?thesis
      using stringify_not_delimiter [of z "CHR '']''" "tail_items zs @ v" u]
      by (auto simp: stringify_tails simp del: stringify_items.simps(2))
  qed
next
  case (8 x xs)
  show ?case
  proof (rule items_step [OF _ _ 8(4,5)])
    show "json_ok x" "json_ok_items xs" using 8(3) by simp_all
    show "x = z \<and> u = v" if "json_ok z" "delimited u" "delimited v" "stringify x @ u = stringify z @ v" for z u v
      using 8(1) [OF _ that] 8(3) by simp
    show "xs = zs \<and> u = v" if "xs \<noteq> []" "json_ok_items zs" "stringify_items xs @ u = stringify_items zs @ v" for zs u v
      using 8(2) [of "hd xs" "tl xs", OF _ _ that(2,3)] that(1) 8(3) by simp
  qed
next
  case 9
  show ?case
  proof (cases qs)
    case Nil
    with 9 show ?thesis by simp
  next
    case (Cons z zs)
    with 9 show ?thesis
      by (auto simp: stringify_tails json_string_def quote_def simp del: stringify_fields.simps(2))
  qed
next
  case (10 p ps)
  show ?case
  proof (rule fields_step [OF _ _ 10(4,5)])
    show "json_ok (snd p)" "json_ok_fields ps" using 10(3) by simp_all
    show "snd p = z \<and> u = v" if "json_ok z" "delimited u" "delimited v" "stringify (snd p) @ u = stringify z @ v" for z u v
      using 10(1) [OF _ that] 10(3) by simp
    show "ps = zs \<and> u = v" if "ps \<noteq> []" "json_ok_fields zs" "stringify_fields ps @ u = stringify_fields zs @ v" for zs u v
      using 10(2) [of "hd ps" "tl ps", OF _ _ that(2,3)] that(1) 10(3) by simp
  qed
qed

lemma stringify_inject:
  assumes "json_ok x" and "json_ok y" and "stringify x = stringify y"
  shows "x = y"
  using stringify_prefix [OF assms(1,2), of "[]" "[]"] assms(3) by (simp add: delimited_def)

end
