(* ===== verification/Store.thy ===== *)
theory Store
  imports Errors Enums Json
begin

text \<open>
  The database: the entities of \<open>src/entities\<close> as records, one list of rows per table in the
  order of insertion, and every function of \<open>src/repositories\<close>. A repository function takes
  the time of the statement and the identifiers the database generates as arguments.

  Unique columns and indices are checked by inserts and updates, which fail with PostgreSQL's
  error; column types and lengths are not modelled. A transaction that fails leaves the
  database as it was. Where a query has no order and more than one row could match, the
  first row inserted is taken; among rows with equal times the order of insertion decides.
\<close>

section \<open>Tables\<close>

text \<open>The unique constraints of a table: the values of its columns in a
  row, \<open>None\<close> when one of them is NULL, and its name.\<close>

type_synonym 'r constraint = "('r \<Rightarrow> string list option) \<times> string"

definition violates :: "'r list \<Rightarrow> 'r \<Rightarrow> 'r constraint \<Rightarrow> bool" where
  "violates rs r c \<longleftrightarrow> (case fst c r of None \<Rightarrow> False | Some v \<Rightarrow> Some v \<in> set (map (fst c) rs))"

definition insert_row :: "'r constraint list \<Rightarrow> 'r \<Rightarrow> 'r list \<Rightarrow> 'r list result" where
  "insert_row cs r rs =
     (case find_row (violates rs r) cs of
        Some c \<Rightarrow> Inl (unique_violation (snd c))
      | None \<Rightarrow> Inr (rs @ [r]))"

definition unique_rows :: "'r constraint list \<Rightarrow> 'r list \<Rightarrow> bool" where
  "unique_rows cs rs \<longleftrightarrow>
     list_all (\<lambda>c. distinct (filter (\<lambda>v. v \<noteq> None) (map (fst c) rs))) cs"

text \<open>The row with the greatest time, the last inserted among equals.\<close>

fun latest :: "('r \<Rightarrow> millis) \<Rightarrow> 'r list \<Rightarrow> 'r option" where
  "latest t [] = None"
| "latest t (r # rs) =
     (case latest t rs of None \<Rightarrow> Some r | Some s \<Rightarrow> if t r \<le> t s then Some s else Some r)"

definition newest_first :: "('r \<Rightarrow> millis) \<Rightarrow> 'r list \<Rightarrow> 'r list" where
  "newest_first t rs = sort_key (\<lambda>r. - t r) rs"

lemma insert_row_cases:
  "(\<exists>n. insert_row cs r rs = Inl (unique_violation n) \<and> n \<in> snd ` set cs) \<or> insert_row cs r rs = Inr (rs @ [r])"
  by (cases "find_row (violates rs r) cs") (auto simp: insert_row_def dest!: find_row_SomeD)

lemma insert_row_SomeD:
  assumes "insert_row cs r rs = Inr rs'"
  shows "rs' = rs @ [r]" and "c \<in> set cs \<Longrightarrow> fst c r \<noteq> None \<Longrightarrow> fst c r \<notin> set (map (fst c) rs)"
  using assms
  by (auto simp: insert_row_def violates_def find_row_None_iff image_iff split: option.splits)

lemma insert_row_unique:
  assumes "unique_rows cs rs" and "insert_row cs r rs = Inr rs'"
  shows "unique_rows cs rs'"
proof -
  have "distinct (filter (\<lambda>v. v \<noteq> None) (map (fst c) (rs @ [r])))" if "c \<in> set cs" for c
    using assms that insert_row_SomeD(2) [OF assms(2) that]
    by (auto simp: unique_rows_def list_all_iff)
  then show ?thesis
    using insert_row_SomeD(1) [OF assms(2)] by (simp add: unique_rows_def list_all_iff)
qed

lemma unique_rowsD:
  assumes "unique_rows cs rs" and "c \<in> set cs" and "r \<in> set rs" and "s \<in> set rs"
    and "fst c r = fst c s" and "fst c r \<noteq> None"
  shows "r = s"
proof -
  have "distinct (map (fst c) (filter (\<lambda>x. fst c x \<noteq> None) rs))"
    using assms(1,2) by (simp add: unique_rows_def list_all_iff filter_map comp_def)
  then show ?thesis using assms(3-6)
    by (intro distinct_map_eqD [of "fst c" "filter (\<lambda>x. fst c x \<noteq> None) rs"]) auto
qed

text \<open>An update that keeps every unique column keeps the constraints.\<close>

lemma unique_rows_update:
  assumes "unique_rows cs rs" and "\<And>c r. c \<in> set cs \<Longrightarrow> fst c (f r) = fst c r"
  shows "unique_rows cs (update_where P f rs)"
proof -
  have "map (fst c) (update_where P f rs) = map (fst c) rs" if "c \<in> set cs" for c
    by (rule map_update_where) (rule assms(2) [OF that])
  then show ?thesis using assms(1) by (simp add: unique_rows_def list_all_iff)
qed

lemma latest_None_iff [simp]: "latest t rs = None \<longleftrightarrow> rs = []"
  by (cases rs) (auto split: option.splits)

lemma latest_SomeD: "latest t rs = Some r \<Longrightarrow> r \<in> set rs \<and> (\<forall>s \<in> set rs. t s \<le> t r)"
proof (induction rs arbitrary: r)
  case (Cons a rs)
  then show ?case by (cases "latest t rs") (auto split: if_splits)
qed simp

lemma latest_append_newest:
  "(\<forall>s \<in> set rs. t s \<le> t r) \<Longrightarrow> latest t (rs @ [r]) = Some r"
  by (induction rs) auto

lemma set_newest_first [simp]: "set (newest_first t rs) = set rs"
  by (simp add: newest_first_def)

lemma length_newest_first [simp]: "length (newest_first t rs) = length rs"
  by (simp add: newest_first_def)

section \<open>Entities\<close>

record organisation =
  o_org_id :: uuid
  o_name :: string
  o_status :: org_status
  o_user_limit :: int
  o_stripe_customer_id :: "string option"
  o_stripe_subscription_id :: "string option"
  o_subscription_status :: subscription_status
  o_created_at :: millis
  o_updated_at :: millis

record user =
  u_user_id :: uuid
  u_org_id :: "uuid option"
  u_email :: string
  u_password_hash :: "string option"
  u_google_sub :: "string option"
  u_role :: user_role
  u_status :: user_status
  u_mfa_enabled :: bool
  u_totp_secret :: "string option"
  u_totp_secret_pending :: "string option"
  u_invited_by :: "uuid option"
  u_created_at :: millis

record invitation =
  inv_invitation_id :: uuid
  inv_org_id :: uuid
  inv_invited_by :: uuid
  inv_role :: user_role
  inv_status :: invitation_status
  inv_token_hash :: string
  inv_expires_at :: millis
  inv_created_at :: millis

record otp_token =
  otp_id :: uuid
  otp_email_hash :: string
  otp_hash :: string
  otp_expires_at :: millis
  otp_used :: bool
  otp_attempts :: int
  otp_created_at :: millis

record password_reset_token =
  prt_token_id :: uuid
  prt_user_id :: uuid
  prt_token_hash :: string
  prt_used :: bool
  prt_expires_at :: millis
  prt_created_at :: millis

record refresh_token =
  rt_id :: uuid
  rt_token_hash :: string
  rt_user_id :: uuid
  rt_expires_at :: millis
  rt_used :: bool
  rt_created_at :: millis

record api_key =
  ak_key_id :: uuid
  ak_org_id :: uuid
  ak_user_id :: "uuid option"
  ak_key_hash :: string
  ak_key_prefix :: string
  ak_name :: "string option"
  ak_status :: api_key_status
  ak_permissions :: "permission list"
  ak_created_at :: millis
  ak_last_used_at :: "millis option"

text \<open>No code reads or writes this table.\<close>

record audit_log =
  al_log_id :: uuid
  al_actor_user_id :: uuid
  al_action :: string
  al_target_org_id :: "uuid option"
  al_target_user_id :: "uuid option"
  al_payload :: "(string \<times> json) list"
  al_created_at :: millis

record event =
  ev_event_id :: uuid
  ev_org_id :: uuid
  ev_user_id :: "uuid option"
  ev_api_key_id :: "uuid option"
  ev_idempotency_key :: "string option"
  ev_prompt :: string
  ev_output :: string
  ev_model_id :: string
  ev_workflow_id :: "string option"
  ev_metadata :: "(string \<times> json) list option"
  ev_timestamp :: millis
  ev_received_at :: millis
  ev_canonical_hash :: "string option"
  ev_status :: event_status
  ev_tx_hash :: "string option"
  ev_block_number :: "string option" \<comment> \<open>a bigint column, read as text\<close>
  ev_chain_id :: "int option"
  ev_anchored_at :: "millis option"
  ev_anchor_error :: "string option"
  ev_created_at :: millis

record store =
  organisations :: "organisation list"
  users :: "user list"
  invitations :: "invitation list"
  otp_tokens :: "otp_token list"
  reset_tokens :: "password_reset_token list"
  refresh_tokens :: "refresh_token list"
  api_keys :: "api_key list"
  events :: "event list"

definition empty_store :: store where
  "empty_store =
     \<lparr>organisations = [], users = [], invitations = [], otp_tokens = [], reset_tokens = [],
      refresh_tokens = [], api_keys = [], events = []\<rparr>"

definition org_constraints :: "organisation constraint list" where
  "org_constraints =
     [(\<lambda>g. Some [o_org_id g], ''organisations_pkey''), (\<lambda>g. Some [o_name g], ''organisations_name''),
      (\<lambda>g. map_option (\<lambda>v. [v]) (o_stripe_customer_id g), ''organisations_stripe_customer_id''),
      (\<lambda>g. map_option (\<lambda>v. [v]) (o_stripe_subscription_id g), ''organisations_stripe_subscription_id'')]"

definition user_constraints :: "user constraint list" where
  "user_constraints =
     [(\<lambda>u. Some [u_user_id u], ''users_pkey''), (\<lambda>u. Some [u_email u], ''users_email''),
      (\<lambda>u. map_option (\<lambda>v. [v]) (u_google_sub u), ''users_google_sub'')]"

definition invitation_constraints :: "invitation constraint list" where
  "invitation_constraints =
     [(\<lambda>i. Some [inv_invitation_id i], ''invitations_pkey''),
      (\<lambda>i. Some [inv_token_hash i], ''invitations_token_hash'')]"

definition otp_constraints :: "otp_token constraint list" where
  "otp_constraints = [(\<lambda>t. Some [otp_id t], ''otp_tokens_pkey'')]"

definition reset_constraints :: "password_reset_token constraint list" where
  "reset_constraints =
     [(\<lambda>t. Some [prt_token_id t], ''password_reset_tokens_pkey''),
      (\<lambda>t. Some [prt_token_hash t], ''password_reset_tokens_token_hash'')]"

definition refresh_constraints :: "refresh_token constraint list" where
  "refresh_constraints =
     [(\<lambda>t. Some [rt_id t], ''refresh_tokens_pkey''),
      (\<lambda>t. Some [rt_token_hash t], ''refresh_tokens_token_hash'')]"

definition api_key_constraints :: "api_key constraint list" where
  "api_key_constraints =
     [(\<lambda>k. Some [ak_key_id k], ''api_keys_pkey''), (\<lambda>k. Some [ak_key_hash k], ''api_keys_key_hash'')]"

text \<open>The index on the pair of organisation and idempotency key skips rows without a key.\<close>

definition event_constraints :: "event constraint list" where
  "event_constraints =
     [(\<lambda>e. Some [ev_event_id e], ''events_pkey''),
      (\<lambda>e. map_option (\<lambda>k. [ev_org_id e, k]) (ev_idempotency_key e),
       ''events_org_idempotency_uniq'')]"

end
