(* ===== verification/Repositories.thy ===== *)
theory Repositories
  imports Store
begin

text \<open>
  The functions of \<open>src/repositories\<close>, one by one. A query returns its rows, a write that can
  violate a unique constraint returns the new store or the error, every other write returns
  the new store. \<open>now\<close> is the time of the statement, \<open>new_id\<close> the identifier the database
  generates for an inserted row.

  TypeORM leaves a null value out of the conditions of \<open>findOne\<close>: a lookup by an identifier
  that is null takes the first row of the table.
\<close>

section \<open>organisation.repository.ts\<close>

definition findOrgById :: "store \<Rightarrow> uuid option \<Rightarrow> organisation option" where
  "findOrgById db orgId =
     find_row (\<lambda>g. case orgId of None \<Rightarrow> True | Some i \<Rightarrow> o_org_id g = i) (organisations db)"

definition findOrgByName :: "store \<Rightarrow> string \<Rightarrow> organisation option" where
  "findOrgByName db name = find_row (\<lambda>g. o_name g = name) (organisations db)"

definition activateOrgById :: "millis \<Rightarrow> store \<Rightarrow> uuid \<Rightarrow> store" where
  "activateOrgById now db orgId =
     db\<lparr>organisations := update_where (\<lambda>g. o_org_id g = orgId \<and> o_status g = PAYMENT_PENDING)
       (\<lambda>g. g\<lparr>o_status := OrgACTIVE, o_subscription_status := SubACTIVE, o_updated_at := now\<rparr>)
       (organisations db)\<rparr>"

definition new_organisation :: "millis \<Rightarrow> uuid \<Rightarrow> string \<Rightarrow> organisation" where
  "new_organisation now new_id name =
     \<lparr>o_org_id = new_id, o_name = name, o_status = PAYMENT_PENDING, o_user_limit = 10,
      o_stripe_customer_id = None, o_stripe_subscription_id = None, o_subscription_status = TRIALING,
      o_created_at = now, o_updated_at = now\<rparr>"

record user_data =
  ud_email :: string
  ud_password_hash :: "string option"
  ud_google_sub :: "string option"
  ud_org_id :: "uuid option"
  ud_role :: user_role
  ud_invited_by :: "uuid option"
  ud_status :: user_status
  ud_mfa_enabled :: bool

definition new_user :: "millis \<Rightarrow> uuid \<Rightarrow> user_data \<Rightarrow> user" where
  "new_user now new_id d =
     \<lparr>u_user_id = new_id, u_org_id = ud_org_id d, u_email = ud_email d,
      u_password_hash = ud_password_hash d, u_google_sub = ud_google_sub d, u_role = ud_role d,
      u_status = ud_status d, u_mfa_enabled = ud_mfa_enabled d, u_totp_secret = None,
      u_totp_secret_pending = None, u_invited_by = ud_invited_by d, u_created_at = now\<rparr>"

record create_org_input =
  co_orgName :: string
  co_adminEmail :: string
  co_passwordHash :: "string option"
  co_googleSub :: "string option"

definition createOrgWithAdmin ::
    "millis \<Rightarrow> uuid \<Rightarrow> uuid \<Rightarrow> store \<Rightarrow> create_org_input \<Rightarrow> ((organisation \<times> user) \<times> store) result" where
  "createOrgWithAdmin now org_id user_id db input =
     (let org = new_organisation now org_id (co_orgName input) in
      case insert_row org_constraints org (organisations db) of
        Inl err \<Rightarrow> Inl err
      | Inr orgs \<Rightarrow>
          let user = new_user now user_id
                \<lparr>ud_email = co_adminEmail input, ud_password_hash = co_passwordHash input,
                 ud_google_sub = co_googleSub input, ud_org_id = Some org_id, ud_role = ADMIN,
                 ud_invited_by = None, ud_status = UserACTIVE, ud_mfa_enabled = False\<rparr>
          in (case insert_row user_constraints user (users db) of
               Inl err \<Rightarrow> Inl err
             | Inr us \<Rightarrow> Inr ((org, user), db\<lparr>organisations := orgs, users := us\<rparr>)))"

section \<open>user.repository.ts\<close>

definition findUserByEmail :: "store \<Rightarrow> string \<Rightarrow> user option" where
  "findUserByEmail db email = find_row (\<lambda>u. u_email u = email) (users db)"

definition findUserByGoogleSub :: "store \<Rightarrow> string \<Rightarrow> user option" where
  "findUserByGoogleSub db googleSub = find_row (\<lambda>u. u_google_sub u = Some googleSub) (users db)"

definition updateUserGoogleSub :: "store \<Rightarrow> uuid \<Rightarrow> string \<Rightarrow> store result" where
  "updateUserGoogleSub db userId googleSub =
     (if \<exists>u \<in> set (users db). u_google_sub u = Some googleSub \<and> u_user_id u \<noteq> userId
      then Inl (unique_violation ''users_google_sub'')
      else Inr (db\<lparr>users := update_where (\<lambda>u. u_user_id u = userId)
                              (\<lambda>u. u\<lparr>u_google_sub := Some googleSub\<rparr>) (users db)\<rparr>))"

definition countActiveUsersByOrg :: "store \<Rightarrow> uuid \<Rightarrow> int" where
  "countActiveUsersByOrg db orgId =
     count_rows (\<lambda>u. u_org_id u = Some orgId \<and> u_status u = UserACTIVE) (users db)"

definition findUserByIdAndOrg :: "store \<Rightarrow> uuid \<Rightarrow> uuid \<Rightarrow> user option" where
  "findUserByIdAndOrg db userId orgId =
     find_row (\<lambda>u. u_user_id u = userId \<and> u_org_id u = Some orgId \<and> u_status u = UserACTIVE) (users db)"

definition findUserByEmailAndOrg :: "store \<Rightarrow> string \<Rightarrow> uuid \<Rightarrow> user option" where
  "findUserByEmailAndOrg db email orgId =
     find_row (\<lambda>u. u_email u = email \<and> u_org_id u = Some orgId \<and> u_status u = UserACTIVE) (users db)"

definition findUsersByIds :: "store \<Rightarrow> uuid list \<Rightarrow> (uuid \<times> string) list" where
  "findUsersByIds db userIds =
     (if userIds = [] then []
      else map (\<lambda>u. (u_user_id u, u_email u)) (filter (\<lambda>u. u_user_id u \<in> set userIds) (users db)))"

text \<open>\<open>findOne({ where: { user_id } })\<close>, as the services call it on the repository itself.\<close>

definition findUserById :: "store \<Rightarrow> uuid \<Rightarrow> user option" where
  "findUserById db userId = find_row (\<lambda>u. u_user_id u = userId) (users db)"

section \<open>invitation.repository.ts\<close>

definition findInvitationByTokenHash :: "millis \<Rightarrow> store \<Rightarrow> string \<Rightarrow> invitation option" where
  "findInvitationByTokenHash now db tokenHash =
     find_row (\<lambda>i. inv_token_hash i = tokenHash \<and> inv_status i = PENDING \<and> inv_expires_at i > now)
       (invitations db)"

definition acceptInvitationAndCreateUser ::
    "millis \<Rightarrow> uuid \<Rightarrow> store \<Rightarrow> invitation \<Rightarrow> user_data \<Rightarrow> (user \<times> store) result" where
  "acceptInvitationAndCreateUser now new_id db invitation userData =
     (let newUser = new_user now new_id userData in
      case insert_row user_constraints newUser (users db) of
        Inl err \<Rightarrow> Inl err
      | Inr us \<Rightarrow>
          Inr (newUser,
            db\<lparr>users := us,
               invitations := update_where (\<lambda>i. inv_invitation_id i = inv_invitation_id invitation)
                 (\<lambda>i. i\<lparr>inv_status := ACCEPTED\<rparr>) (invitations db)\<rparr>))"

section \<open>otp-token.repository.ts\<close>

definition findLatestOtpToken :: "millis \<Rightarrow> store \<Rightarrow> string \<Rightarrow> otp_token option" where
  "findLatestOtpToken now db emailHash =
     latest otp_created_at
       (filter (\<lambda>t. otp_email_hash t = emailHash \<and> \<not> otp_used t \<and> otp_expires_at t > now) (otp_tokens db))"

definition markOtpTokenUsed :: "store \<Rightarrow> uuid \<Rightarrow> store" where
  "markOtpTokenUsed db i =
     db\<lparr>otp_tokens := update_where (\<lambda>t. otp_id t = i) (\<lambda>t. t\<lparr>otp_used := True\<rparr>) (otp_tokens db)\<rparr>"

definition incrementOtpAttempts :: "store \<Rightarrow> uuid \<Rightarrow> store" where
  "incrementOtpAttempts db i =
     db\<lparr>otp_tokens := update_where (\<lambda>t. otp_id t = i)
       (\<lambda>t. t\<lparr>otp_attempts := otp_attempts t + 1\<rparr>) (otp_tokens db)\<rparr>"

definition insertOtpToken :: "millis \<Rightarrow> uuid \<Rightarrow> store \<Rightarrow> string \<Rightarrow> string \<Rightarrow> millis \<Rightarrow> store result" where
  "insertOtpToken now new_id db emailHash otpHash expiresAt =
     map_sum id (\<lambda>ts. db\<lparr>otp_tokens := ts\<rparr>)
       (insert_row otp_constraints
         \<lparr>otp_id = new_id, otp_email_hash = emailHash, otp_hash = otpHash, otp_expires_at = expiresAt,
          otp_used = False, otp_attempts = 0, otp_created_at = now\<rparr> (otp_tokens db))"

section \<open>password-reset-token.repository.ts\<close>

definition findPasswordResetToken :: "millis \<Rightarrow> store \<Rightarrow> string \<Rightarrow> password_reset_token option" where
  "findPasswordResetToken now db tokenHash =
     find_row (\<lambda>t. prt_token_hash t = tokenHash \<and> \<not> prt_used t \<and> prt_expires_at t > now) (reset_tokens db)"

definition insertPasswordResetToken ::
    "millis \<Rightarrow> uuid \<Rightarrow> store \<Rightarrow> uuid \<Rightarrow> string \<Rightarrow> millis \<Rightarrow> store result" where
  "insertPasswordResetToken now new_id db userId tokenHash expiresAt =
     map_sum id (\<lambda>ts. db\<lparr>reset_tokens := ts\<rparr>)
       (insert_row reset_constraints
         \<lparr>prt_token_id = new_id, prt_user_id = userId, prt_token_hash = tokenHash, prt_used = False,
          prt_expires_at = expiresAt, prt_created_at = now\<rparr> (reset_tokens db))"

definition applyPasswordReset :: "store \<Rightarrow> uuid \<Rightarrow> uuid \<Rightarrow> string \<Rightarrow> store" where
  "applyPasswordReset db userId tokenId passwordHash =
     db\<lparr>users := update_where (\<lambda>u. u_user_id u = userId)
          (\<lambda>u. u\<lparr>u_password_hash := Some passwordHash\<rparr>) (users db),
        reset_tokens := update_where (\<lambda>t. prt_token_id t = tokenId)
          (\<lambda>t. t\<lparr>prt_used := True\<rparr>) (reset_tokens db)\<rparr>"

section \<open>refresh-token.repository.ts\<close>

definition findRefreshTokenByHash :: "millis \<Rightarrow> store \<Rightarrow> string \<Rightarrow> refresh_token option" where
  "findRefreshTokenByHash now db tokenHash =
     find_row (\<lambda>t. rt_token_hash t = tokenHash \<and> \<not> rt_used t \<and> rt_expires_at t > now) (refresh_tokens db)"

definition markRefreshTokenUsedByHash :: "store \<Rightarrow> string \<Rightarrow> store" where
  "markRefreshTokenUsedByHash db tokenHash =
     db\<lparr>refresh_tokens := update_where (\<lambda>t. rt_token_hash t = tokenHash \<and> \<not> rt_used t)
       (\<lambda>t. t\<lparr>rt_used := True\<rparr>) (refresh_tokens db)\<rparr>"

definition new_refresh_token :: "millis \<Rightarrow> uuid \<Rightarrow> uuid \<Rightarrow> string \<Rightarrow> millis \<Rightarrow> refresh_token" where
  "new_refresh_token now new_id userId tokenHash expiresAt =
     \<lparr>rt_id = new_id, rt_token_hash = tokenHash, rt_user_id = userId, rt_expires_at = expiresAt,
      rt_used = False, rt_created_at = now\<rparr>"

definition insertRefreshToken ::
    "millis \<Rightarrow> uuid \<Rightarrow> store \<Rightarrow> uuid \<Rightarrow> string \<Rightarrow> millis \<Rightarrow> store result" where
  "insertRefreshToken now new_id db userId tokenHash expiresAt =
     map_sum id (\<lambda>ts. db\<lparr>refresh_tokens := ts\<rparr>)
       (insert_row refresh_constraints (new_refresh_token now new_id userId tokenHash expiresAt)
         (refresh_tokens db))"

section \<open>api-key.repository.ts\<close>

record create_key_input =
  ck_org_id :: uuid
  ck_user_id :: "uuid option"
  ck_key_hash :: string
  ck_key_prefix :: string
  ck_permissions :: "permission list"
  ck_name :: "string option"

definition createApiKey_row :: "millis \<Rightarrow> uuid \<Rightarrow> store \<Rightarrow> create_key_input \<Rightarrow> (api_key \<times> store) result" where
  "createApiKey_row now new_id db input =
     (let k = \<lparr>ak_key_id = new_id, ak_org_id = ck_org_id input, ak_user_id = ck_user_id input,
               ak_key_hash = ck_key_hash input, ak_key_prefix = ck_key_prefix input,
               ak_name = ck_name input, ak_status = KeyACTIVE, ak_permissions = ck_permissions input,
               ak_created_at = now, ak_last_used_at = None\<rparr>
      in map_sum id (\<lambda>ks. (k, db\<lparr>api_keys := ks\<rparr>)) (insert_row api_key_constraints k (api_keys db)))"

definition findApiKeyByHash :: "store \<Rightarrow> string \<Rightarrow> api_key option" where
  "findApiKeyByHash db keyHash =
     find_row (\<lambda>k. ak_key_hash k = keyHash \<and> ak_status k = KeyACTIVE) (api_keys db)"

definition touchLastUsed :: "millis \<Rightarrow> store \<Rightarrow> uuid \<Rightarrow> store" where
  "touchLastUsed now db keyId =
     db\<lparr>api_keys := update_where (\<lambda>k. ak_key_id k = keyId) (\<lambda>k. k\<lparr>ak_last_used_at := Some now\<rparr>) (api_keys db)\<rparr>"

definition listApiKeysByOrg :: "store \<Rightarrow> uuid \<Rightarrow> api_key list" where
  "listApiKeysByOrg db orgId = newest_first ak_created_at (filter (\<lambda>k. ak_org_id k = orgId) (api_keys db))"

definition findApiKeyByIdAndOrg :: "store \<Rightarrow> uuid \<Rightarrow> uuid \<Rightarrow> api_key option" where
  "findApiKeyByIdAndOrg db keyId orgId =
     find_row (\<lambda>k. ak_key_id k = keyId \<and> ak_org_id k = orgId) (api_keys db)"

definition revokeApiKey :: "store \<Rightarrow> uuid \<Rightarrow> uuid \<Rightarrow> store" where
  "revokeApiKey db keyId orgId =
     db\<lparr>api_keys := update_where (\<lambda>k. ak_key_id k = keyId \<and> ak_org_id k = orgId)
       (\<lambda>k. k\<lparr>ak_status := REVOKED\<rparr>) (api_keys db)\<rparr>"

section \<open>event.repository.ts\<close>

record create_event_input =
  ce_in_org_id :: uuid
  ce_in_api_key_id :: "uuid option"
  ce_in_user_id :: "uuid option"
  ce_in_prompt :: string
  ce_in_output :: string
  ce_in_model_id :: string
  ce_in_workflow_id :: "string option"
  ce_in_metadata :: "(string \<times> json) list option"
  ce_in_timestamp :: millis
  ce_in_idempotency_key :: "string option"

definition createEvent :: "millis \<Rightarrow> uuid \<Rightarrow> store \<Rightarrow> create_event_input \<Rightarrow> (event \<times> store) result" where
  "createEvent now new_id db input =
     (let e = \<lparr>ev_event_id = new_id, ev_org_id = ce_in_org_id input, ev_user_id = ce_in_user_id input,
               ev_api_key_id = ce_in_api_key_id input, ev_idempotency_key = ce_in_idempotency_key input,
               ev_prompt = ce_in_prompt input, ev_output = ce_in_output input,
               ev_model_id = ce_in_model_id input, ev_workflow_id = ce_in_workflow_id input,
               ev_metadata = ce_in_metadata input, ev_timestamp = ce_in_timestamp input,
               ev_received_at = now, ev_canonical_hash = None, ev_status = PROCESSING, ev_tx_hash = None,
               ev_block_number = None, ev_chain_id = None, ev_anchored_at = None, ev_anchor_error = None,
               ev_created_at = now\<rparr>
      in map_sum id (\<lambda>es. (e, db\<lparr>events := es\<rparr>)) (insert_row event_constraints e (events db)))"

definition findEventByIdempotencyKey :: "store \<Rightarrow> uuid \<Rightarrow> string \<Rightarrow> event option" where
  "findEventByIdempotencyKey db orgId idempotencyKey =
     find_row (\<lambda>e. ev_org_id e = orgId \<and> ev_idempotency_key e = Some idempotencyKey) (events db)"

definition findEventById :: "store \<Rightarrow> uuid \<Rightarrow> uuid \<Rightarrow> event option" where
  "findEventById db eventId orgId =
     find_row (\<lambda>e. ev_event_id e = eventId \<and> ev_org_id e = orgId) (events db)"

definition update_event :: "store \<Rightarrow> uuid \<Rightarrow> uuid \<Rightarrow> (event \<Rightarrow> event) \<Rightarrow> store" where
  "update_event db eventId orgId f =
     db\<lparr>events := update_where (\<lambda>e. ev_event_id e = eventId \<and> ev_org_id e = orgId) f (events db)\<rparr>"

record to_anchoring_input =
  ta_event_id :: uuid
  ta_org_id :: uuid
  ta_canonical_hash :: string
  ta_encrypted_prompt :: string
  ta_encrypted_output :: string
  ta_status :: event_status

definition updateEventToAnchoring :: "store \<Rightarrow> to_anchoring_input \<Rightarrow> store" where
  "updateEventToAnchoring db input =
     update_event db (ta_event_id input) (ta_org_id input)
       (\<lambda>e. e\<lparr>ev_canonical_hash := Some (ta_canonical_hash input), ev_prompt := ta_encrypted_prompt input,
              ev_output := ta_encrypted_output input, ev_status := ta_status input\<rparr>)"

record to_anchored_input =
  td_event_id :: uuid
  td_org_id :: uuid
  td_tx_hash :: string
  td_block_number :: nat
  td_chain_id :: int
  td_anchored_at :: millis

definition updateEventToAnchored :: "store \<Rightarrow> to_anchored_input \<Rightarrow> store" where
  "updateEventToAnchored db input =
     update_event db (td_event_id input) (td_org_id input)
       (\<lambda>e. e\<lparr>ev_tx_hash := Some (td_tx_hash input), ev_block_number := Some (show_nat (td_block_number input)),
              ev_chain_id := Some (td_chain_id input), ev_anchored_at := Some (td_anchored_at input),
              ev_status := ANCHORED\<rparr>)"

definition updateEventToAnchorFailed :: "store \<Rightarrow> uuid \<Rightarrow> uuid \<Rightarrow> string \<Rightarrow> store" where
  "updateEventToAnchorFailed db eventId orgId anchor_error =
     update_event db eventId orgId (\<lambda>e. e\<lparr>ev_status := ANCHOR_FAILED, ev_anchor_error := Some anchor_error\<rparr>)"

text \<open>The filters of a listing; an empty text is falsy and adds no condition.\<close>

record list_events_input =
  li_org_id :: uuid
  li_user_id :: "uuid option"
  li_page :: int
  li_page_size :: int
  li_sort_asc :: bool
  li_status :: "event_status list option"
  li_from :: "millis option"
  li_to :: "millis option"
  li_workflow_id :: "string option"
  li_model_id :: "string option"

definition event_matches :: "list_events_input \<Rightarrow> event \<Rightarrow> bool" where
  "event_matches input e \<longleftrightarrow>
     ev_org_id e = li_org_id input \<and>
     (truthy (li_user_id input) \<longrightarrow> ev_user_id e = li_user_id input) \<and>
     (case li_status input of Some (s # ss) \<Rightarrow> ev_status e \<in> set (s # ss) | _ \<Rightarrow> True) \<and>
     (case li_from input of None \<Rightarrow> True | Some t \<Rightarrow> ev_created_at e \<ge> t) \<and>
     (case li_to input of None \<Rightarrow> True | Some t \<Rightarrow> ev_created_at e \<le> t) \<and>
     (truthy (li_workflow_id input) \<longrightarrow> ev_workflow_id e = li_workflow_id input) \<and>
     (truthy (li_model_id input) \<longrightarrow> Some (ev_model_id e) = li_model_id input)"

definition listEvents :: "store \<Rightarrow> list_events_input \<Rightarrow> event list \<times> int" where
  "listEvents db input =
     (let matching = filter (event_matches input) (events db);
          ordered = sort_key (\<lambda>e. if li_sort_asc input then ev_created_at e else - ev_created_at e) matching
      in (take (nat (li_page_size input)) (drop (nat ((li_page input - 1) * li_page_size input)) ordered),
          int (length matching)))"

lemmas [repo_defs] =
  findOrgById_def findOrgByName_def findUserByEmail_def findUserByGoogleSub_def findUserById_def
  findUserByIdAndOrg_def findUserByEmailAndOrg_def findInvitationByTokenHash_def findLatestOtpToken_def
  findPasswordResetToken_def findRefreshTokenByHash_def findApiKeyByHash_def findApiKeyByIdAndOrg_def
  findEventByIdempotencyKey_def findEventById_def

end
