(* ===== verification/JsDate.thy ===== *)
theory JsDate
  imports JsString
begin

text \<open>
  The parts of the JavaScript \<open>Date\<close> the source uses: \<open>new Date(text)\<close> and
  \<open>toISOString\<close>, by the calendar arithmetic of ECMAScript (Day, DayFromYear, YearFromTime,
  MonthFromTime, DateFromTime, MakeDay). A valid \<open>Date\<close> is its number of milliseconds,
  an invalid one is \<open>None\<close>.

  ECMAScript leaves texts that are not in its date-time format, and date-times without a
  zone, to the engine and the host's zone; what they give is the parameter \<open>host\<close> of
  \<open>date_parse\<close>.
\<close>

section \<open>Calendar\<close>

definition ms_per_day :: int where
  "ms_per_day = 86400000"

definition is_leap :: "int \<Rightarrow> bool" where
  "is_leap y \<longleftrightarrow> y mod 4 = 0 \<and> (y mod 100 \<noteq> 0 \<or> y mod 400 = 0)"

definition day_from_year :: "int \<Rightarrow> int" where
  "day_from_year y =
     365 * (y - 1970) + (y - 1969) div 4 - (y - 1901) div 100 + (y - 1601) div 400"

definition year_from_day :: "int \<Rightarrow> int" where
  "year_from_day d =
     (let y = 1970 + (400 * d) div 146097 in
      if d < day_from_year y then y - 1
      else if day_from_year (y + 1) \<le> d then y + 1 else y)"

definition month_start :: "bool \<Rightarrow> nat \<Rightarrow> int" where
  "month_start leap m =
     [0, 31, 59, 90, 120, 151, 181, 212, 243, 273, 304, 334] ! m + (if leap \<and> 2 \<le> m then 1 else 0)"

definition month_length :: "bool \<Rightarrow> nat \<Rightarrow> int" where
  "month_length leap m =
     [31, if leap then 29 else 28, 31, 30, 31, 30, 31, 31, 30, 31, 30, 31] ! m"

text \<open>The month of a day of the year: the last one that starts on or before it.\<close>

definition month_from_day :: "bool \<Rightarrow> int \<Rightarrow> nat" where
  "month_from_day leap k = last (filter (\<lambda>m. month_start leap m \<le> k) [0..<12])"

definition make_day :: "int \<Rightarrow> nat \<Rightarrow> int \<Rightarrow> int" where
  "make_day y m dt = day_from_year y + month_start (is_leap y) m + dt - 1"

text \<open>TimeClip: a \<open>Date\<close> holds at most 8.64e15 milliseconds to either side of 1970.\<close>

definition time_clip :: "int \<Rightarrow> millis option" where
  "time_clip t = (if \<bar>t\<bar> \<le> 8640000000000000 then Some t else None)"

definition valid_time :: "millis \<Rightarrow> bool" where
  "valid_time t \<longleftrightarrow> \<bar>t\<bar> \<le> 8640000000000000"

section \<open>toISOString\<close>

definition pad :: "nat \<Rightarrow> int \<Rightarrow> string" where
  "pad n v = padStart (show_nat (nat v)) n CHR ''0''"

definition iso_year :: "int \<Rightarrow> string" where
  "iso_year y =
     (if 0 \<le> y \<and> y \<le> 9999 then pad 4 y
      else if y < 0 then ''-'' @ pad 6 (- y) else ''+'' @ pad 6 y)"

definition toISOString :: "millis \<Rightarrow> string" where
  "toISOString t =
     (let d = t div ms_per_day; r = t mod ms_per_day;
          y = year_from_day d; k = d - day_from_year y; m = month_from_day (is_leap y) k
      in iso_year y @ ''-'' @ pad 2 (int m + 1) @ ''-'' @ pad 2 (k - month_start (is_leap y) m + 1) @
         ''T'' @ pad 2 (r div 3600000) @ '':'' @ pad 2 (r div 60000 mod 60) @ '':'' @
         pad 2 (r div 1000 mod 60) @ ''.'' @ pad 3 (r mod 1000) @ ''Z'')"

section \<open>new Date(text)\<close>

definition take_digits :: "nat \<Rightarrow> string \<Rightarrow> (int \<times> string) option" where
  "take_digits n s =
     (if n \<le> length s \<and> list_all is_digit (take n s)
      then Some (int (digits_val (take n s)), drop n s) else None)"

definition take_char :: "char \<Rightarrow> string \<Rightarrow> string option" where
  "take_char c s = (case s of [] \<Rightarrow> None | x # xs \<Rightarrow> if x = c then Some xs else None)"

definition parse_year :: "string \<Rightarrow> (int \<times> string) option" where
  "parse_year s =
     (case s of
        [] \<Rightarrow> None
      | c # cs \<Rightarrow>
          if c = CHR ''+'' then take_digits 6 cs
          else if c = CHR ''-'' then
            (case take_digits 6 cs of
               None \<Rightarrow> None
             | Some (y, rest) \<Rightarrow> if y = 0 then None else Some (- y, rest))
          else take_digits 4 s)"

text \<open>The date: a year, a year and a month, or a full date (the day within its month).\<close>

definition parse_day :: "string \<Rightarrow> (int \<times> string) option" where
  "parse_day s =
     (case parse_year s of None \<Rightarrow> None | Some (y, s1) \<Rightarrow>
     (case take_char CHR ''-'' s1 of None \<Rightarrow> Some (make_day y 0 1, s1) | Some s2 \<Rightarrow>
     (case take_digits 2 s2 of None \<Rightarrow> None | Some (mo, s3) \<Rightarrow>
      if mo < 1 \<or> 12 < mo then None else
     (case take_char CHR ''-'' s3 of None \<Rightarrow> Some (make_day y (nat (mo - 1)) 1, s3) | Some s4 \<Rightarrow>
     (case take_digits 2 s4 of None \<Rightarrow> None | Some (dt, s5) \<Rightarrow>
      if dt < 1 \<or> month_length (is_leap y) (nat (mo - 1)) < dt then None
      else Some (make_day y (nat (mo - 1)) dt, s5))))))"

text \<open>The fraction of a second: one or more digits, of which the first three count.\<close>

definition parse_fraction :: "string \<Rightarrow> (int \<times> string) option" where
  "parse_fraction s =
     (let ds = takeWhile is_digit s in
      if ds = [] then None
      else Some (int (digits_val (take 3 (ds @ ''00''))), dropWhile is_digit s))"

definition parse_seconds :: "string \<Rightarrow> (int \<times> string) option" where
  "parse_seconds s =
     (case take_char CHR '':'' s of None \<Rightarrow> Some (0, s) | Some s1 \<Rightarrow>
     (case take_digits 2 s1 of None \<Rightarrow> None | Some (se, s2) \<Rightarrow>
      if 59 < se then None else
     (case take_char CHR ''.'' s2 of None \<Rightarrow> Some (1000 * se, s2) | Some s3 \<Rightarrow>
     (case parse_fraction s3 of None \<Rightarrow> None | Some (f, s4) \<Rightarrow> Some (1000 * se + f, s4)))))"

definition parse_clock :: "string \<Rightarrow> (int \<times> string) option" where
  "parse_clock s =
     (case take_digits 2 s of None \<Rightarrow> None | Some (h, s1) \<Rightarrow>
     (case take_char CHR '':'' s1 of None \<Rightarrow> None | Some s2 \<Rightarrow>
     (case take_digits 2 s2 of None \<Rightarrow> None | Some (mi, s3) \<Rightarrow>
     (case parse_seconds s3 of None \<Rightarrow> None | Some (ms, s4) \<Rightarrow>
      if 24 < h \<or> 59 < mi \<or> (h = 24 \<and> (mi \<noteq> 0 \<or> ms \<noteq> 0)) then None
      else Some (3600000 * h + 60000 * mi + ms, s4)))))"

text \<open>The zone, as the milliseconds to subtract; the text ends after it.\<close>

definition parse_zone :: "string \<Rightarrow> int option" where
  "parse_zone s =
     (case s of
        [] \<Rightarrow> None
      | c # cs \<Rightarrow>
          if c = CHR ''Z'' then (if cs = [] then Some 0 else None)
          else if c = CHR ''+'' \<or> c = CHR ''-'' then
            (case take_digits 2 cs of None \<Rightarrow> None | Some (h, s1) \<Rightarrow>
            (case take_char CHR '':'' s1 of None \<Rightarrow> None | Some s2 \<Rightarrow>
            (case take_digits 2 s2 of None \<Rightarrow> None | Some (mi, s3) \<Rightarrow>
             if s3 \<noteq> [] \<or> 23 < h \<or> 59 < mi then None
             else Some ((if c = CHR ''-'' then -1 else 1) * (3600000 * h + 60000 * mi)))))
          else None)"

definition iso_parse :: "string \<Rightarrow> int option" where
  "iso_parse s =
     (case parse_day s of None \<Rightarrow> None | Some (d, s1) \<Rightarrow>
      if s1 = [] then Some (d * ms_per_day) else
     (case take_char CHR ''T'' s1 of None \<Rightarrow> None | Some s2 \<Rightarrow>
     (case parse_clock s2 of None \<Rightarrow> None | Some (ms, s3) \<Rightarrow>
     (case parse_zone s3 of None \<Rightarrow> None | Some off \<Rightarrow> Some (d * ms_per_day + ms - off)))))"

definition date_parse :: "(string \<Rightarrow> millis option) \<Rightarrow> string \<Rightarrow> millis option" where
  "date_parse host s = (case iso_parse s of Some t \<Rightarrow> time_clip t | None \<Rightarrow> host s)"

section \<open>The calendar is consistent\<close>

lemma div_bounds:
  assumes "0 < (c::int)"
  shows "c * (x div c) \<le> x" and "x < c * (x div c) + c"
  using mult_div_mod_eq [of c x] pos_mod_sign [OF assms, of x] pos_mod_bound [OF assms, of x]
  by linarith+

lemma div_plus_one:
  assumes "0 < (c::int)"
  shows "(x + 1) div c = x div c + (if (x + 1) mod c = 0 then 1 else 0)"
proof (cases "(x + 1) mod c = 0")
  case True
  then have "(x + 1) div c * c = x + 1" using mult_div_mod_eq [of c "x + 1"] by (simp add: mult.commute)
  then have "x = c * ((x + 1) div c - 1) + (c - 1)" by (simp add: algebra_simps)
  then have "x div c = (x + 1) div c - 1" using assms by (intro int_div_pos_eq [of _ c _ "c - 1"]) auto
  with True show ?thesis by simp
next
  case False
  have r: "(x + 1) mod c \<ge> 1"
    using False pos_mod_sign [OF assms, of "x + 1"] by linarith
  have "x = c * ((x + 1) div c) + ((x + 1) mod c - 1)"
    using mult_div_mod_eq [of c "x + 1"] by linarith
  then have "x div c = (x + 1) div c"
    using r pos_mod_bound [OF assms, of "x + 1"] by (intro int_div_pos_eq [of _ c _ "(x + 1) mod c - 1"]) auto
  with False show ?thesis by simp
qed

lemma day_from_year_Suc:
  "day_from_year (y + 1) = day_from_year y + (if is_leap y then 366 else 365)"
proof -
  have m4: "(y - 1968) mod 4 = y mod 4" using mod_mult_self2 [of y 4 "- 492"] by simp
  have m100: "(y - 1900) mod 100 = y mod 100" using mod_mult_self2 [of y 100 "- 19"] by simp
  have m400: "(y - 1600) mod 400 = y mod 400" using mod_mult_self2 [of y 400 "- 4"] by simp
  have a: "(y - 1968) div 4 = (y - 1969) div 4 + (if y mod 4 = 0 then 1 else 0)"
    using div_plus_one [of 4 "y - 1969"] by (simp add: m4)
  have b: "(y - 1900) div 100 = (y - 1901) div 100 + (if y mod 100 = 0 then 1 else 0)"
    using div_plus_one [of 100 "y - 1901"] by (simp add: m100)
  have c: "(y - 1600) div 400 = (y - 1601) div 400 + (if y mod 400 = 0 then 1 else 0)"
    using div_plus_one [of 400 "y - 1601"] by (simp add: m400)
  have d: "y mod 400 = 0 \<Longrightarrow> y mod 100 = 0"
    using mod_mod_cancel [of 100 400 y] by simp
  have e: "y mod 100 = 0 \<Longrightarrow> y mod 4 = 0"
    using mod_mod_cancel [of 4 100 y] by simp
  have "day_from_year (y + 1) = 365 * (y - 1970) + 365 + (y - 1968) div 4 - (y - 1900) div 100 + (y - 1600) div 400"
    unfolding day_from_year_def by (simp add: right_diff_distrib)
  then have "day_from_year (y + 1) = day_from_year y + 365 + (if y mod 4 = 0 then 1 else 0)
      - (if y mod 100 = 0 then 1 else 0) + (if y mod 400 = 0 then 1 else 0)"
    unfolding a b c day_from_year_def by linarith
  then show ?thesis
    using d e unfolding is_leap_def by presburger
qed

lemma day_from_year_near:
  assumes "q = (400 * d) div 146097"
  shows "day_from_year (1970 + q) \<le> d + 2" and "d < day_from_year (1970 + q + 1) + 2"
proof -
  note q = div_bounds [of 146097 "400 * d", folded assms]
  define A where "A = (q + 1) div 4"
  define B where "B = (q + 69) div 100"
  define C where "C = (q + 369) div 400"
  note A = div_bounds [of 4 "q + 1", folded A_def]
  note B = div_bounds [of 100 "q + 69", folded B_def]
  note C = div_bounds [of 400 "q + 369", folded C_def]
  have e: "day_from_year (1970 + q) = 365 * q + A - B + C"
    by (simp add: day_from_year_def A_def B_def C_def algebra_simps)
  show "day_from_year (1970 + q) \<le> d + 2"
    unfolding e using q A B C by linarith
  have "d < 365 * q + A - B + C + 365 + 2"
    using q A B C by linarith
  then show "d < day_from_year (1970 + q + 1) + 2"
    unfolding day_from_year_Suc e by simp
qed

text \<open>\<open>year_from_day\<close> finds the year whose days include the given one.\<close>

lemma year_from_day_bounds:
  "day_from_year (year_from_day d) \<le> d \<and> d < day_from_year (year_from_day d + 1)"
proof -
  define q where "q = (400 * d) div 146097"
  note near = day_from_year_near [OF q_def]
  define y where "y = 1970 + q"
  have n1: "day_from_year y \<le> d + 2" and n2: "d < day_from_year (y + 1) + 2"
    using near by (simp_all add: y_def)
  have e: "year_from_day d = (if d < day_from_year y then y - 1
      else if day_from_year (y + 1) \<le> d then y + 1 else y)"
    by (simp add: year_from_day_def Let_def y_def q_def)
  have s0: "day_from_year y = day_from_year (y - 1) + (if is_leap (y - 1) then 366 else 365)"
    using day_from_year_Suc [of "y - 1"] by simp
  have s2: "day_from_year (y + 2) = day_from_year (y + 1) + (if is_leap (y + 1) then 366 else 365)"
    using day_from_year_Suc [of "y + 1"] by (simp add: add.assoc)
  consider "d < day_from_year y" | "day_from_year (y + 1) \<le> d" | "day_from_year y \<le> d" "d < day_from_year (y + 1)"
    by linarith
  then show ?thesis
  proof cases
    case 1
    then show ?thesis using n1 s0 by (auto simp: e split: if_splits)
  next
    case 2
    moreover have "day_from_year y \<le> d" using 2 day_from_year_Suc [of y] by (auto split: if_splits)
    ultimately show ?thesis using n2 s2 by (auto simp: e add.assoc split: if_splits)
  next
    case 3
    then show ?thesis by (simp add: e)
  qed
qed

lemma month_start_Suc:
  "m < 11 \<Longrightarrow> month_start leap (Suc m) = month_start leap m + month_length leap m"
  by (auto simp: month_start_def month_length_def less_Suc_eq numeral_eq_Suc)

lemma month_year_end: "month_start leap 11 + month_length leap 11 = (if leap then 366 else 365)"
  by (simp add: month_start_def month_length_def)

lemma month_from_day_bounds:
  assumes "0 \<le> k" and "k < (if leap then 366 else 365)"
  defines "m \<equiv> month_from_day leap k"
  shows "m < 12" and "month_start leap m \<le> k" and "k < month_start leap m + month_length leap m"
proof -
  define ms where "ms = filter (\<lambda>m. month_start leap m \<le> k) [0..<12]"
  have "0 \<in> set ms" using assms(1) by (simp add: ms_def month_start_def)
  then have "last ms \<in> set ms" by (intro last_in_set) auto
  then have m: "m < 12" "month_start leap m \<le> k"
    by (auto simp: m_def month_from_day_def ms_def)
  then show "m < 12" and "month_start leap m \<le> k" by simp_all
  show "k < month_start leap m + month_length leap m"
  proof (cases "m < 11")
    case True
    have "sorted ms" by (simp add: ms_def sorted_wrt_filter)
    have "\<not> month_start leap (Suc m) \<le> k"
    proof
      assume "month_start leap (Suc m) \<le> k"
      with True have "Suc m \<in> set ms" by (simp add: ms_def)
      then obtain i where i: "i < length ms" "ms ! i = Suc m" by (auto simp: in_set_conv_nth)
      have "ms ! i \<le> ms ! (length ms - 1)" using \<open>sorted ms\<close> i(1) by (intro sorted_nth_mono) auto
      moreover have "ms ! (length ms - 1) = m"
      proof -
        from i(1) have "ms \<noteq> []" by auto
        then show ?thesis by (simp add: m_def month_from_day_def ms_def [symmetric] last_conv_nth)
      qed
      ultimately show False using i(2) by simp
    qed
    then show ?thesis using month_start_Suc [OF True] by simp
  next
    case False
    then have "m = 11" using m(1) by simp
    then show ?thesis using assms(2) month_year_end [of leap] by simp
  qed
qed

lemma month_length_le: "m < 12 \<Longrightarrow> month_length leap m \<le> 31"
  by (auto simp: month_length_def less_Suc_eq numeral_eq_Suc)

section \<open>Reading back what toISOString prints\<close>

lemma show_nat_length_le: "0 < n \<Longrightarrow> v < 10 ^ n \<Longrightarrow> length (show_nat v) \<le> n"
proof (induction n arbitrary: v)
  case 0
  then show ?case by simp
next
  case (Suc n)
  show ?case
  proof (cases "v < 10")
    case True
    then show ?thesis by (simp add: show_nat.simps [of v])
  next
    case False
    with Suc.prems have v: "v div 10 < 10 ^ n" "0 < n"
      by (auto simp: less_mult_imp_div_less intro: Suc_leI gr0I)
    with Suc.IH False show ?thesis by (simp add: show_nat.simps [of v])
  qed
qed

lemma digits_val_zeros: "digits_val (replicate n CHR ''0'' @ ds) = digits_val ds"
proof -
  have "foldl (\<lambda>n d. 10 * n + digit_val d) 0 (replicate n CHR ''0'') = 0"
    by (induction n) (simp_all add: digit_val_def code_unit_def)
  then show ?thesis by (simp add: digits_val_def)
qed

lemma pad_length: "0 < n \<Longrightarrow> 0 \<le> v \<Longrightarrow> v < 10 ^ n \<Longrightarrow> length (pad n v) = n"
  using show_nat_length_le [of n "nat v"] by (simp add: pad_def length_padStart nat_less_iff max_def)

lemma pad_digits: "\<forall>c \<in> set (pad n v). is_digit c"
  using show_nat_digits by (auto simp: pad_def padStart_def is_digit_def code_unit_def)

lemma pad_val: "0 \<le> v \<Longrightarrow> digits_val (pad n v) = nat v"
  by (simp add: pad_def padStart_def digits_val_zeros)

lemma take_digits_pad [simp]:
  "0 < n \<Longrightarrow> 0 \<le> v \<Longrightarrow> v < 10 ^ n \<Longrightarrow> take_digits n (pad n v @ rest) = Some (v, rest)"
  using pad_digits [of n v] by (simp add: take_digits_def pad_length pad_val list_all_iff)

lemma take_char_same [simp]: "take_char c (c # s) = Some s"
  by (simp add: take_char_def)

lemma pad_Cons: "0 < n \<Longrightarrow> 0 \<le> v \<Longrightarrow> v < 10 ^ n \<Longrightarrow> \<exists>c cs. pad n v = c # cs \<and> is_digit c"
  using pad_length [of n v] pad_digits [of n v] by (cases "pad n v") auto

lemma parse_year_iso_year [simp]:
  assumes "\<bar>y\<bar> < 1000000"
  shows "parse_year (iso_year y @ rest) = Some (y, rest)"
proof -
  consider "0 \<le> y \<and> y \<le> 9999" | "y < 0" | "9999 < y" by linarith
  then show ?thesis
  proof cases
    case 1
    then obtain c cs where c: "pad 4 y = c # cs" "is_digit c" using pad_Cons [of 4 y] by auto
    then have "c \<noteq> CHR ''+''" "c \<noteq> CHR ''-''" by (auto simp: is_digit_def code_unit_def)
    moreover have "take_digits 4 (pad 4 y @ rest) = Some (y, rest)" using 1 by simp
    ultimately show ?thesis using 1 c by (simp add: parse_year_def iso_year_def)
  next
    case 2
    then have "take_digits 6 (pad 6 (- y) @ rest) = Some (- y, rest)" using assms by simp
    with 2 show ?thesis by (simp add: parse_year_def iso_year_def)
  next
    case 3
    then have "take_digits 6 (pad 6 y @ rest) = Some (y, rest)" using assms by simp
    with 3 show ?thesis by (simp add: parse_year_def iso_year_def)
  qed
qed

lemma parse_fraction_pad:
  assumes "0 \<le> v" and "v < 1000"
  shows "parse_fraction (pad 3 v @ ''Z'') = Some (v, ''Z'')"
proof -
  have len: "length (pad 3 v) = 3" using assms by (simp add: pad_length)
  have z: "\<not> is_digit CHR ''Z''" by (simp add: is_digit_def code_unit_def)
  have tw: "takeWhile is_digit (pad 3 v @ ''Z'') = pad 3 v"
    using pad_digits z by (intro takeWhile_prefix_eq) auto
  have dw: "dropWhile is_digit (pad 3 v @ ''Z'') = ''Z''"
    using pad_digits [of 3 v] z by (subst dropWhile_append2) auto
  have "pad 3 v \<noteq> []" using len by auto
  then show ?thesis
    unfolding parse_fraction_def tw dw Let_def using len assms by (simp add: pad_val)
qed

lemma parse_clock_toISO:
  assumes "0 \<le> r" and "r < ms_per_day"
  shows "parse_clock (pad 2 (r div 3600000) @ '':'' @ pad 2 (r div 60000 mod 60) @ '':'' @
     pad 2 (r div 1000 mod 60) @ ''.'' @ pad 3 (r mod 1000) @ ''Z'') = Some (r, ''Z'')"
proof -
  define h where "h = r div 3600000"
  define mi where "mi = r div 60000 mod 60"
  define se where "se = r div 1000 mod 60"
  define f where "f = r mod 1000"
  have h: "0 \<le> h" "h < 24"
    using assms div_bounds [of 3600000 r] by (simp_all add: h_def ms_per_day_def pos_imp_zdiv_nonneg_iff)
  have rest: "0 \<le> mi" "mi < 60" "0 \<le> se" "se < 60" "0 \<le> f" "f < 1000"
    by (simp_all add: mi_def se_def f_def)
  have r: "r = 3600000 * h + 60000 * mi + (1000 * se + f)"
  proof -
    have e1: "r = 1000 * (r div 1000) + f" by (simp add: f_def)
    have e2: "r div 1000 = 60 * (r div 1000 div 60) + se" by (simp add: se_def)
    have e3: "r div 1000 div 60 = 60 * (r div 1000 div 60 div 60) + (r div 1000 div 60) mod 60" by simp
    have e4: "r div 1000 div 60 = r div 60000" "r div 60000 div 60 = h"
      by (simp_all add: h_def zdiv_zmult2_eq [symmetric])
    from e1 e2 e3 show ?thesis unfolding e4 mi_def [symmetric] by linarith
  qed
  have sec: "parse_seconds ('':'' @ pad 2 se @ ''.'' @ pad 3 f @ ''Z'') = Some (1000 * se + f, ''Z'')"
    using rest by (simp add: parse_seconds_def parse_fraction_pad)
  show ?thesis
    unfolding h_def [symmetric] mi_def [symmetric] se_def [symmetric] f_def [symmetric]
    using h rest sec by (simp add: parse_clock_def r)
qed

lemma valid_day_bounds:
  assumes "valid_time t"
  shows "\<bar>year_from_day (t div ms_per_day)\<bar> < 1000000"
proof -
  define d where "d = t div ms_per_day"
  note d = div_bounds [of ms_per_day t, folded d_def]
  have "\<bar>d\<bar> \<le> 100000001"
    using d assms by (simp add: valid_time_def ms_per_day_def)
  moreover have "\<bar>year_from_day d - 1970 - (400 * d) div 146097\<bar> \<le> 1"
    by (simp add: year_from_day_def Let_def)
  moreover note div_bounds [of 146097 "400 * d"]
  ultimately show ?thesis unfolding d_def [symmetric] by linarith
qed

lemma iso_parse_toISOString:
  assumes "valid_time t"
  shows "iso_parse (toISOString t) = Some t"
proof -
  define d where "d = t div ms_per_day"
  define r where "r = t mod ms_per_day"
  define y where "y = year_from_day d"
  define k where "k = d - day_from_year y"
  define m where "m = month_from_day (is_leap y) k"
  define dt where "dt = k - month_start (is_leap y) m + 1"
  have r: "0 \<le> r" "r < ms_per_day" by (simp_all add: r_def ms_per_day_def)
  have k: "0 \<le> k" "k < (if is_leap y then 366 else 365)"
    using year_from_day_bounds [of d] day_from_year_Suc [of y] by (auto simp: k_def y_def)
  note m = month_from_day_bounds [OF k, folded m_def]
  have dt: "1 \<le> dt" "dt \<le> month_length (is_leap y) m" "dt \<le> 31"
    using m month_length_le [OF m(1), of "is_leap y"] by (auto simp: dt_def)
  have day: "make_day y m dt = d" by (simp add: make_day_def dt_def k_def)
  have y: "\<bar>y\<bar> < 1000000" using valid_day_bounds [OF assms] by (simp add: y_def d_def)
  define clock where "clock = pad 2 (r div 3600000) @ '':'' @ pad 2 (r div 60000 mod 60) @ '':'' @
     pad 2 (r div 1000 mod 60) @ ''.'' @ pad 3 (r mod 1000) @ ''Z''"
  have iso: "toISOString t = iso_year y @ ''-'' @ pad 2 (int m + 1) @ ''-'' @ pad 2 dt @ ''T'' @ clock"
    by (simp add: toISOString_def Let_def d_def r_def y_def k_def m_def dt_def clock_def)
  have day_ok: "parse_day (toISOString t) = Some (d, ''T'' @ clock)"
    unfolding iso using y m(1) dt day by (simp add: parse_day_def)
  have "parse_clock clock = Some (r, ''Z'')"
    unfolding clock_def by (rule parse_clock_toISO [OF r])
  then have "iso_parse (toISOString t) = Some (d * ms_per_day + r)"
    by (simp add: iso_parse_def day_ok parse_zone_def)
  also have "d * ms_per_day + r = t" by (simp add: d_def r_def)
  finally show ?thesis .
qed

lemma toISOString_inject:
  "valid_time t \<Longrightarrow> valid_time u \<Longrightarrow> toISOString t = toISOString u \<longleftrightarrow> t = u"
  by (metis iso_parse_toISOString option.inject)

lemma date_parse_toISOString [simp]:
  "valid_time t \<Longrightarrow> date_parse host (toISOString t) = Some t"
  by (simp add: date_parse_def iso_parse_toISOString time_clip_def valid_time_def)

lemma date_parse_valid:
  assumes "date_parse host s = Some t" and "\<And>u. host s = Some u \<Longrightarrow> valid_time u"
  shows "valid_time t"
  using assms by (auto simp: date_parse_def time_clip_def valid_time_def split: option.splits if_splits)

end
