(* ===== verification/Canonical.thy ===== *)
theory Canonical
  imports Json JsDate Crypto
begin

text \<open>
  \<open>services/CanonicalisationService.ts\<close>: the canonical text of an event, whose SHA-256 hash
  is what the program anchors on chain. \<open>sortKeysRecursive\<close> rebuilds every object by adding
  its properties in the sorted order of their keys; what order the rebuilt object then
  enumerates them in is the engine's (\<open>obj_put\<close>).
\<close>

section \<open>Sorting keys\<close>

definition prop_get :: "(string \<times> json) list \<Rightarrow> string \<Rightarrow> json" where
  "prop_get ps k = (case map_of ps k of Some v \<Rightarrow> v | None \<Rightarrow> JNull)"

text \<open>\<open>for (const key of Object.keys(value).sort()) sorted[key] = ...\<close>\<close>

definition put_sorted :: "(string \<times> json) list \<Rightarrow> (string \<times> json) list" where
  "put_sorted ps = foldl (\<lambda>acc k. obj_put acc k (prop_get ps k)) [] (sort (map fst ps))"

fun sortKeysRecursive :: "json \<Rightarrow> json"
  and sort_items :: "json list \<Rightarrow> json list"
  and sort_fields :: "(string \<times> json) list \<Rightarrow> (string \<times> json) list"
where
  "sortKeysRecursive (JArr xs) = JArr (sort_items xs)"
| "sortKeysRecursive (JObj ps) = JObj (put_sorted (sort_fields ps))"
| "sortKeysRecursive JNull = JNull"
| "sortKeysRecursive (JBool b) = JBool b"
| "sortKeysRecursive (JNum n) = JNum n"
| "sortKeysRecursive (JStr s) = JStr s"
| "sort_items [] = []"
| "sort_items (x # xs) = sortKeysRecursive x # sort_items xs"
| "sort_fields [] = []"
| "sort_fields (p # ps) = (fst p, sortKeysRecursive (snd p)) # sort_fields ps"

section \<open>Canonicalisation\<close>

record canon_event =
  ce_prompt :: string
  ce_output :: string
  ce_model_id :: string
  ce_timestamp :: string
  ce_workflow_id :: "string option" \<comment> \<open>\<open>None\<close> for null or undefined\<close>
  ce_metadata :: "(string \<times> json) list option"

definition canonical_object :: "canon_event \<Rightarrow> millis \<Rightarrow> (string \<times> json) list" where
  "canonical_object ev t =
     [(''model_id'', JStr (ce_model_id ev)),
      (''output'', JStr (ce_output ev)),
      (''prompt'', JStr (ce_prompt ev)),
      (''timestamp'', JStr (toISOString t))] @
     (case ce_workflow_id ev of None \<Rightarrow> [] | Some w \<Rightarrow> [(''workflow_id'', JStr w)]) @
     (case ce_metadata ev of None \<Rightarrow> [] | Some m \<Rightarrow> [(''metadata'', JObj m)])"

definition canonicalise :: "(string \<Rightarrow> millis option) \<Rightarrow> canon_event \<Rightarrow> string result" where
  "canonicalise host ev =
     (case date_parse host (ce_timestamp ev) of
        None \<Rightarrow> Inl (Native ''Invalid time value'' None)
      | Some t \<Rightarrow> Inr (stringify (sortKeysRecursive (JObj (canonical_object ev t)))))"

definition canonical_hash :: "libs \<Rightarrow> string \<Rightarrow> string" where
  "canonical_hash L canonicalString = hashSHA256 L canonicalString"

section \<open>Rebuilding an object keeps its properties\<close>

lemma sort_items_map: "sort_items xs = map sortKeysRecursive xs"
  by (induction xs) simp_all

lemma sort_fields_map: "sort_fields ps = map (\<lambda>p. (fst p, sortKeysRecursive (snd p))) ps"
  by (induction ps) simp_all

lemma map_fst_sort_fields [simp]: "map fst (sort_fields ps) = map fst ps"
  by (simp add: sort_fields_map)

lemma mset_insert_index [simp]: "mset (insert_index k v ps) = add_mset (k, v) (mset ps)"
  by (induction ps) auto

lemma mset_obj_put:
  "k \<noteq> ''__proto__'' \<Longrightarrow> k \<notin> set (map fst ps) \<Longrightarrow> mset (obj_put ps k v) = add_mset (k, v) (mset ps)"
  by (simp add: obj_put_def)

lemma set_keys_obj_put: "set (map fst (obj_put ps k v)) \<subseteq> insert k (set (map fst ps))"
proof -
  have "set (insert_index k v ps) = insert (k, v) (set ps)"
    using mset_insert_index [of k v ps] by (metis set_mset_add_mset_insert set_mset_mset)
  then show ?thesis by (auto simp: obj_put_def)
qed

lemma foldl_put_mset:
  assumes "distinct ks" and "''__proto__'' \<notin> set ks" and "set ks \<inter> set (map fst acc) = {}"
  shows "mset (foldl (\<lambda>acc k. obj_put acc k (f k)) acc ks) = mset acc + mset (map (\<lambda>k. (k, f k)) ks)"
  using assms
proof (induction ks arbitrary: acc)
  case Nil
  then show ?case by simp
next
  case (Cons k ks)
  have put: "mset (obj_put acc k (f k)) = add_mset (k, f k) (mset acc)"
    using Cons.prems by (intro mset_obj_put) auto
  have "set ks \<inter> set (map fst (obj_put acc k (f k))) = {}"
    using set_keys_obj_put [of acc k "f k"] Cons.prems by auto
  then show ?case using Cons.IH [of "obj_put acc k (f k)"] Cons.prems put by simp
qed

lemma prop_get_field:
  assumes "distinct (map fst ps)" and "p \<in> set ps"
  shows "(fst p, prop_get ps (fst p)) = p"
proof -
  have "map_of ps (fst p) = Some (snd p)" using assms by (intro map_of_is_SomeI) auto
  then show ?thesis by (simp add: prop_get_def)
qed

lemma map_prop_get:
  assumes "distinct (map fst ps)"
  shows "map (\<lambda>k. (k, prop_get ps k)) (map fst ps) = ps"
proof -
  have "map (\<lambda>p. (fst p, prop_get ps (fst p))) ps = ps"
    by (intro map_idI prop_get_field assms)
  then show ?thesis by (simp add: comp_def)
qed

lemma mset_put_sorted:
  assumes "distinct (map fst ps)" and "''__proto__'' \<notin> set (map fst ps)"
  shows "mset (put_sorted ps) = mset ps"
proof -
  have "mset (put_sorted ps) = mset (map (\<lambda>k. (k, prop_get ps k)) (sort (map fst ps)))"
    unfolding put_sorted_def using assms by (subst foldl_put_mset) auto
  also have "\<dots> = mset (map (\<lambda>k. (k, prop_get ps k)) (map fst ps))" by (simp only: mset_map mset_sort)
  also have "\<dots> = mset ps" by (simp only: map_prop_get [OF assms(1)])
  finally show ?thesis .
qed

section \<open>The canonical form does not depend on the order of keys\<close>

text \<open>
  Two values are the same up to the order of object fields, at every depth. Keys of an
  object are distinct, as the engine keeps them.
\<close>

inductive json_same :: "json \<Rightarrow> json \<Rightarrow> bool" where
  same_refl: "json_same v v"
| same_arr: "list_all2 json_same xs ys \<Longrightarrow> json_same (JArr xs) (JArr ys)"
| same_obj: "distinct (map fst ps) \<Longrightarrow>
     list_all2 (\<lambda>p q. fst p = fst q \<and> json_same (snd p) (snd q)) ps qs \<Longrightarrow>
     mset qs = mset rs \<Longrightarrow> json_same (JObj ps) (JObj rs)"

inductive_cases json_same_objE: "json_same (JObj ps) w"
inductive_simps json_same_simps [simp]:
  "json_same JNull w" "json_same (JBool b) w" "json_same (JNum n) w" "json_same (JStr s) w"

lemma mset_eq_sort_map_fst: "mset ps = mset qs \<Longrightarrow> sort (map fst ps) = sort (map fst qs)"
  by (metis mset_map properties_for_sort mset_sort sorted_sort)

lemma put_sorted_perm:
  assumes "distinct (map fst ps)" and "mset ps = mset qs"
  shows "put_sorted ps = put_sorted qs"
proof -
  have "distinct (map fst qs)"
    using assms mset_eq_imp_distinct_iff [of "map fst ps" "map fst qs"] by simp
  then have "map_of ps = map_of qs"
    using assms(1) mset_eq_setD [OF assms(2)] by (simp add: map_of_inject_set)
  then show ?thesis
    using mset_eq_sort_map_fst [OF assms(2)] by (simp add: put_sorted_def prop_get_def)
qed

lemma sortKeysRecursive_same: "json_same v w \<Longrightarrow> sortKeysRecursive v = sortKeysRecursive w"
proof (induction rule: json_same.induct)
  case (same_arr xs ys)
  then have "sort_items xs = sort_items ys"
    by (induction rule: list_all2_induct) auto
  then show ?case by simp
next
  case (same_obj ps qs rs)
  from same_obj.IH have "sort_fields ps = sort_fields qs"
    by (induction rule: list_all2_induct) auto
  moreover have "map fst ps = map fst qs"
    using same_obj.IH by (induction rule: list_all2_induct) auto
  then have "put_sorted (sort_fields qs) = put_sorted (sort_fields rs)"
    using same_obj.hyps by (intro put_sorted_perm) (auto simp: sort_fields_map comp_def)
  ultimately show ?case by simp
qed simp

section \<open>Nothing is lost but the order\<close>

fun keys_ok :: "json \<Rightarrow> bool"
  and keys_ok_items :: "json list \<Rightarrow> bool"
  and keys_ok_fields :: "(string \<times> json) list \<Rightarrow> bool"
where
  "keys_ok (JArr xs) = keys_ok_items xs"
| "keys_ok (JObj ps) =
     (distinct (map fst ps) \<and> ''__proto__'' \<notin> set (map fst ps) \<and> keys_ok_fields ps)"
| "keys_ok JNull = True"
| "keys_ok (JBool b) = True"
| "keys_ok (JNum n) = True"
| "keys_ok (JStr s) = True"
| "keys_ok_items [] = True"
| "keys_ok_items (x # xs) = (keys_ok x \<and> keys_ok_items xs)"
| "keys_ok_fields [] = True"
| "keys_ok_fields (p # ps) = (keys_ok (snd p) \<and> keys_ok_fields ps)"

lemma json_same_sort:
  "keys_ok v \<Longrightarrow> json_same v (sortKeysRecursive v)"
  and items_same_sort: "keys_ok_items xs \<Longrightarrow> list_all2 json_same xs (sort_items xs)"
  and fields_same_sort:
    "keys_ok_fields ps \<Longrightarrow>
       list_all2 (\<lambda>p q. fst p = fst q \<and> json_same (snd p) (snd q)) ps (sort_fields ps)"
proof (induction v and xs and ps rule: sortKeysRecursive_sort_items_sort_fields.induct)
  case (1 xs)
  then show ?case by (simp add: same_arr)
next
  case (2 ps)
  then have "mset (sort_fields ps) = mset (put_sorted (sort_fields ps))"
    by (intro mset_put_sorted [symmetric]) auto
  with 2 show ?case by (auto intro: same_obj)
qed (auto intro: same_refl)

lemma sortKeysRecursive_idem:
  "keys_ok v \<Longrightarrow> sortKeysRecursive (sortKeysRecursive v) = sortKeysRecursive v"
  by (rule sortKeysRecursive_same [OF json_same_sort, symmetric])

lemma foldl_put_values:
  assumes "\<And>k. P (f k)" and "\<forall>p \<in> set acc. P (snd p)"
  shows "\<forall>p \<in> set (foldl (\<lambda>acc k. obj_put acc k (f k)) acc ks). P (snd p)"
  using assms(2)
proof (induction ks arbitrary: acc)
  case Nil
  then show ?case by simp
next
  case (Cons k ks)
  have "set (insert_index k (f k) acc) = insert (k, f k) (set acc)"
    using mset_insert_index [of k "f k" acc] by (metis set_mset_add_mset_insert set_mset_mset)
  then have "\<forall>p \<in> set (obj_put acc k (f k)). P (snd p)"
    using Cons.prems assms(1) by (auto simp: obj_put_def)
  then show ?case using Cons.IH by simp
qed

lemma json_ok_put_sorted: "json_ok_fields ps \<Longrightarrow> json_ok_fields (put_sorted ps)"
  unfolding json_ok_fields_iff put_sorted_def
  by (rule foldl_put_values) (auto simp: prop_get_def dest!: map_of_SomeD split: option.splits)

lemma json_ok_sort:
  "json_ok v \<Longrightarrow> json_ok (sortKeysRecursive v)"
  and json_ok_sort_items: "json_ok_items xs \<Longrightarrow> json_ok_items (sort_items xs)"
  and json_ok_sort_fields: "json_ok_fields ps \<Longrightarrow> json_ok_fields (sort_fields ps)"
  by (induction v and xs and ps rule: sortKeysRecursive_sort_items_sort_fields.induct)
    (auto intro: json_ok_put_sorted)

section \<open>The order of the rebuilt keys\<close>

lemma insort_index_keys:
  assumes "\<forall>k' \<in> set (map fst as). is_index_key k'" and "\<forall>k' \<in> set (map fst bs). \<not> is_index_key k'"
  shows "map fst (insert_index k v (as @ bs)) = insort_key digits_val k (map fst as) @ map fst bs"
  using assms
proof (induction as)
  case Nil
  then show ?case by (cases bs) auto
next
  case (Cons a as)
  then show ?case by (cases a) auto
qed

lemma foldl_put_keys:
  assumes "distinct ks" and "''__proto__'' \<notin> set ks"
    and "map fst acc = sort_key digits_val xs @ ns"
    and "\<forall>k \<in> set xs. is_index_key k" and "\<forall>k \<in> set ns. \<not> is_index_key k"
    and "set ks \<inter> (set xs \<union> set ns) = {}"
  shows "map fst (foldl (\<lambda>acc k. obj_put acc k (f k)) acc ks) =
    sort_key digits_val (rev (filter is_index_key ks) @ xs) @ ns @ filter (\<lambda>k. \<not> is_index_key k) ks"
  using assms
proof (induction ks arbitrary: acc xs ns)
  case Nil
  then show ?case by simp
next
  case (Cons k ks)
  define acc' where "acc' = obj_put acc k (f k)"
  have fresh: "k \<notin> set (map fst acc)" using Cons.prems by auto
  have k: "k \<noteq> ''__proto__''" using Cons.prems by auto
  have keys: "map fst (take (length xs) acc) = sort_key digits_val xs"
    "map fst (drop (length xs) acc) = ns"
    using Cons.prems(3) by (simp_all flip: take_map drop_map)
  show ?case
  proof (cases "is_index_key k")
    case True
    have ix: "\<forall>k' \<in> set (map fst (take (length xs) acc)). is_index_key k'"
      "\<forall>k' \<in> set (map fst (drop (length xs) acc)). \<not> is_index_key k'"
      using Cons.prems(4,5) by (simp_all only: keys set_sort)
    have "acc' = insert_index k (f k) (take (length xs) acc @ drop (length xs) acc)"
      using fresh True k by (simp add: acc'_def obj_put_def)
    then have "map fst acc' = insort_key digits_val k (sort_key digits_val xs) @ ns"
      by (simp only: insort_index_keys [OF ix] keys)
    then have "map fst acc' = sort_key digits_val (k # xs) @ ns" by simp
    moreover have "set ks \<inter> (set (k # xs) \<union> set ns) = {}" using Cons.prems by auto
    ultimately show ?thesis
      using Cons.IH [of acc' "k # xs" ns] Cons.prems True by (simp add: acc'_def)
  next
    case False
    have "map fst acc' = sort_key digits_val xs @ ns @ [k]"
      using Cons.prems fresh False k by (simp add: acc'_def obj_put_def)
    moreover have "set ks \<inter> (set xs \<union> set (ns @ [k])) = {}" using Cons.prems by auto
    ultimately show ?thesis
      using Cons.IH [of acc' xs "ns @ [k]"] Cons.prems False by (simp add: acc'_def)
  qed
qed

text \<open>Array indices come first, by value; the other keys follow in the order of their code units.\<close>

lemma put_sorted_keys:
  assumes "distinct (map fst ps)" and "''__proto__'' \<notin> set (map fst ps)"
  shows "map fst (put_sorted ps) =
    sort_key digits_val (rev (filter is_index_key (sort (map fst ps)))) @
    sort (filter (\<lambda>k. \<not> is_index_key k) (map fst ps))"
  unfolding put_sorted_def using assms
  by (subst foldl_put_keys [where xs = "[]" and ns = "[]"]) (simp_all add: filter_sort)

lemma put_sorted_plain:
  assumes "distinct (map fst ps)" and "''__proto__'' \<notin> set (map fst ps)"
    and "\<forall>k \<in> set (map fst ps). \<not> is_index_key k"
  shows "put_sorted ps = map (\<lambda>k. (k, prop_get ps k)) (sort (map fst ps))"
proof -
  have ms: "mset (put_sorted ps) = mset ps" by (rule mset_put_sorted [OF assms(1,2)])
  have "filter is_index_key (sort (map fst ps)) = []"
    using assms(3) by (auto simp: filter_empty_conv)
  then have keys: "map fst (put_sorted ps) = sort (map fst ps)"
    using put_sorted_keys [OF assms(1,2)] assms(3) by (simp add: filter_id_conv)
  have "map (\<lambda>p. (fst p, prop_get ps (fst p))) (put_sorted ps) = put_sorted ps"
    using mset_eq_setD [OF ms] by (intro map_idI prop_get_field assms(1)) auto
  then have "map (\<lambda>k. (k, prop_get ps k)) (map fst (put_sorted ps)) = put_sorted ps"
    by (simp add: comp_def)
  then show ?thesis by (simp only: keys)
qed

text \<open>A property named \<open>__proto__\<close> leaves no trace in the rebuilt object.\<close>

lemma foldl_put_proto:
  "foldl (\<lambda>acc k. obj_put acc k (f k)) acc ks =
   foldl (\<lambda>acc k. obj_put acc k (f k)) acc (filter (\<lambda>k. k \<noteq> ''__proto__'') ks)"
  by (induction ks arbitrary: acc) (auto simp: obj_put_def)

lemma foldl_put_cong:
  "(\<And>k. k \<in> set ks \<Longrightarrow> f k = g k) \<Longrightarrow>
   foldl (\<lambda>acc k. obj_put acc k (f k)) acc ks = foldl (\<lambda>acc k. obj_put acc k (g k)) acc ks"
  by (rule foldl_cong) auto

lemma put_sorted_proto:
  assumes "''__proto__'' \<notin> set (map fst (ps @ qs))"
  shows "put_sorted (ps @ (''__proto__'', v) # qs) = put_sorted (ps @ qs)"
proof -
  define pk where "pk = ''__proto__''"
  have pk: "pk \<notin> set (map fst ps)" "pk \<notin> set (map fst qs)" using assms by (simp_all add: pk_def)
  have keys: "filter (\<lambda>k. k \<noteq> pk) (sort (map fst (ps @ (pk, v) # qs))) =
      filter (\<lambda>k. k \<noteq> pk) (sort (map fst (ps @ qs)))"
    by (simp only: filter_sort) simp
  have get: "prop_get (ps @ (pk, v) # qs) k = prop_get (ps @ qs) k" if "k \<noteq> pk" for k
    using that by (auto simp: prop_get_def map_add_def split: option.split)
  have "put_sorted (ps @ (pk, v) # qs) =
      foldl (\<lambda>acc k. obj_put acc k (prop_get (ps @ (pk, v) # qs) k)) []
        (filter (\<lambda>k. k \<noteq> pk) (sort (map fst (ps @ qs))))"
    unfolding put_sorted_def using keys by (subst foldl_put_proto) (simp add: pk_def)
  also have "\<dots> = foldl (\<lambda>acc k. obj_put acc k (prop_get (ps @ qs) k)) []
        (filter (\<lambda>k. k \<noteq> pk) (sort (map fst (ps @ qs))))"
    by (rule foldl_put_cong) (use get in auto)
  also have "\<dots> = put_sorted (ps @ qs)"
    unfolding put_sorted_def pk_def by (rule foldl_put_proto [symmetric])
  finally show ?thesis by (simp only: pk_def)
qed

section \<open>The canonical text determines the content\<close>

lemma canonical_keys_sorted:
  "sort [''model_id'', ''output'', ''prompt'', ''timestamp''] = [''model_id'', ''output'', ''prompt'', ''timestamp'']"
  "sort [''model_id'', ''output'', ''prompt'', ''timestamp'', ''workflow_id''] =
     [''model_id'', ''output'', ''prompt'', ''timestamp'', ''workflow_id'']"
  "sort [''model_id'', ''output'', ''prompt'', ''timestamp'', ''metadata''] =
     [''metadata'', ''model_id'', ''output'', ''prompt'', ''timestamp'']"
  "sort [''model_id'', ''output'', ''prompt'', ''timestamp'', ''workflow_id'', ''metadata''] =
     [''metadata'', ''model_id'', ''output'', ''prompt'', ''timestamp'', ''workflow_id'']"
  by code_simp+

lemma canonical_keys_plain:
  "\<forall>k \<in> set [''model_id'', ''output'', ''prompt'', ''timestamp'', ''workflow_id'', ''metadata'']. \<not> is_index_key k"
  by code_simp

lemma sorted_canonical_object:
  "sortKeysRecursive (JObj (canonical_object ev t)) = JObj
     ((case ce_metadata ev of None \<Rightarrow> [] | Some m \<Rightarrow> [(''metadata'', sortKeysRecursive (JObj m))]) @
      [(''model_id'', JStr (ce_model_id ev)), (''output'', JStr (ce_output ev)),
       (''prompt'', JStr (ce_prompt ev)), (''timestamp'', JStr (toISOString t))] @
      (case ce_workflow_id ev of None \<Rightarrow> [] | Some w \<Rightarrow> [(''workflow_id'', JStr w)]))"
proof -
  have p: "map fst (sort_fields (canonical_object ev t)) = map fst (canonical_object ev t)" by simp
  have k: "\<forall>k \<in> set (map fst (canonical_object ev t)). \<not> is_index_key k"
    "distinct (map fst (canonical_object ev t))" "''__proto__'' \<notin> set (map fst (canonical_object ev t))"
    using canonical_keys_plain by (auto simp: canonical_object_def split: option.splits)
  have "put_sorted (sort_fields (canonical_object ev t)) =
     map (\<lambda>k. (k, prop_get (sort_fields (canonical_object ev t)) k)) (sort (map fst (canonical_object ev t)))"
    by (rule put_sorted_plain [of "sort_fields (canonical_object ev t)", unfolded p, OF k(2,3,1)])
  then show ?thesis
    by (cases "ce_workflow_id ev"; cases "ce_metadata ev")
      (simp_all add: canonical_object_def canonical_keys_sorted prop_get_def del: sort_key_simps)
qed

text \<open>What of an event its canonical text fixes.\<close>

definition metadata_ok :: "canon_event \<Rightarrow> bool" where
  "metadata_ok ev = (case ce_metadata ev of None \<Rightarrow> True | Some m \<Rightarrow> json_ok (JObj m))"

definition sorted_metadata :: "canon_event \<Rightarrow> json option" where
  "sorted_metadata ev = map_option (\<lambda>m. sortKeysRecursive (JObj m)) (ce_metadata ev)"

definition canonical_content ::
    "(string \<Rightarrow> millis option) \<Rightarrow> canon_event \<Rightarrow>
       string \<times> string \<times> string \<times> millis option \<times> string option \<times> json option" where
  "canonical_content host ev =
     (ce_prompt ev, ce_output ev, ce_model_id ev, date_parse host (ce_timestamp ev),
      ce_workflow_id ev, sorted_metadata ev)"

lemma json_ok_canonical_object: "metadata_ok ev \<Longrightarrow> json_ok (JObj (canonical_object ev t))"
  by (auto simp: metadata_ok_def canonical_object_def json_ok_fields_iff split: option.splits)

lemma sorted_object_inject:
  assumes "sortKeysRecursive (JObj (canonical_object ev t)) = sortKeysRecursive (JObj (canonical_object ev' t'))"
  shows "ce_prompt ev = ce_prompt ev' \<and> ce_output ev = ce_output ev' \<and>
     ce_model_id ev = ce_model_id ev' \<and> toISOString t = toISOString t' \<and>
     ce_workflow_id ev = ce_workflow_id ev' \<and> sorted_metadata ev = sorted_metadata ev'"
  using assms unfolding sorted_canonical_object sorted_metadata_def
  by (cases "ce_workflow_id ev"; cases "ce_workflow_id ev'"; cases "ce_metadata ev"; cases "ce_metadata ev'")
    simp_all

lemma canonicalise_inject:
  assumes "canonicalise host ev = Inr s" and "canonicalise host ev' = Inr s"
    and "metadata_ok ev" and "metadata_ok ev'"
    and "\<forall>s t. host s = Some t \<longrightarrow> valid_time t"
  shows "canonical_content host ev = canonical_content host ev'"
proof -
  obtain t t' where t: "date_parse host (ce_timestamp ev) = Some t"
    "date_parse host (ce_timestamp ev') = Some t'"
    using assms(1,2) by (auto simp: canonicalise_def split: option.splits)
  have "stringify (sortKeysRecursive (JObj (canonical_object ev t))) =
      stringify (sortKeysRecursive (JObj (canonical_object ev' t')))"
    using assms(1,2) t by (simp add: canonicalise_def del: sortKeysRecursive.simps)
  then have "sortKeysRecursive (JObj (canonical_object ev t)) =
      sortKeysRecursive (JObj (canonical_object ev' t'))"
    by (intro stringify_inject json_ok_sort json_ok_canonical_object assms)
  note eq = sorted_object_inject [OF this]
  have "valid_time t" "valid_time t'" using t assms(5) by (auto dest: date_parse_valid)
  then have "t = t'" using eq toISOString_inject by blast
  then show ?thesis using eq t by (simp add: canonical_content_def)
qed

section \<open>Properties\<close>

lemma utf8_encode_inject: "utf8_encode s = utf8_encode t \<Longrightarrow> s = t"
  by (metis utf8_decode_encode)


definition sample_event :: canon_event where
  "sample_event = \<lparr> ce_prompt = ''p'', ce_output = ''o'', ce_model_id = ''m'',
     ce_timestamp = ''2024-05-01T00:00:00.000Z'', ce_workflow_id = None,
     ce_metadata = Some [(''b'', JNum ''1''), (''a'', JNull)] \<rparr>"

definition sample_event' :: canon_event where
  "sample_event' = sample_event \<lparr> ce_timestamp := ''2024-05-01T02:00:00.000+02:00'',
     ce_metadata := Some [(''a'', JNull), (''b'', JNum ''1'')] \<rparr>"

definition sample_text :: string where
  "sample_text = (case canonicalise (\<lambda>s. None) sample_event of Inr s \<Rightarrow> s | Inl e \<Rightarrow> [])"

lemma sample_canonical:
  "canonicalise (\<lambda>s. None) sample_event = Inr sample_text"
  "canonicalise (\<lambda>s. None) sample_event' = Inr sample_text"
  "metadata_ok sample_event" "metadata_ok sample_event'"
  by code_simp+


text \<open>
  C39. The canonical text does not depend on how the metadata was written: two events that
  differ only in the order of object keys, at any depth of the metadata, have the same
  canonical text.
\<close>

theorem canonicalise_key_order:
  assumes "json_same (JObj m) (JObj m')"
  shows "canonicalise host (ev\<lparr>ce_metadata := Some m'\<rparr>) = canonicalise host (ev\<lparr>ce_metadata := Some m\<rparr>)"
proof -
  have "sortKeysRecursive (JObj (canonical_object (ev\<lparr>ce_metadata := Some m'\<rparr>) t)) =
      sortKeysRecursive (JObj (canonical_object (ev\<lparr>ce_metadata := Some m\<rparr>) t))" for t
    using sortKeysRecursive_same [OF assms]
    by (simp add: sorted_canonical_object del: sortKeysRecursive.simps)
  then show ?thesis
    by (simp add: canonicalise_def del: sortKeysRecursive.simps split: option.split)
qed

lemma canonicalise_key_order_witness:
  "canonicalise (\<lambda>s. None) (sample_event\<lparr>ce_metadata := Some [(''a'', JNull), (''b'', JNum ''1'')]\<rparr>) =
   canonicalise (\<lambda>s. None) (sample_event\<lparr>ce_metadata := Some [(''b'', JNum ''1''), (''a'', JNull)]\<rparr>)"
proof (rule canonicalise_key_order)
  show "json_same (JObj [(''b'', JNum ''1''), (''a'', JNull)]) (JObj [(''a'', JNull), (''b'', JNum ''1'')])"
    by (rule same_obj [where qs = "[(''b'', JNum ''1''), (''a'', JNull)]"]) (simp_all add: same_refl)
qed

text \<open>
  The keys of a rebuilt object: array indices first, by value, then every other key in
  the order of its code units. So the keys of an object are in sorted order only when none
  of them is an array index.
\<close>

lemma sortKeysRecursive_key_order:
  assumes "keys_ok (JObj ps)"
  shows "\<exists>qs. sortKeysRecursive (JObj ps) = JObj qs \<and> mset (map fst qs) = mset (map fst ps) \<and>
    (\<exists>is ns. map fst qs = is @ ns \<and> (\<forall>k \<in> set is. is_index_key k) \<and> (\<forall>k \<in> set ns. \<not> is_index_key k) \<and>
       sorted (map digits_val is) \<and> sorted ns)"
proof -
  have ok: "distinct (map fst (sort_fields ps))" "''__proto__'' \<notin> set (map fst (sort_fields ps))"
    using assms by simp_all
  let ?qs = "put_sorted (sort_fields ps)"
  let ?is = "sort_key digits_val (rev (filter is_index_key (sort (map fst ps))))"
  let ?ns = "sort (filter (\<lambda>k. \<not> is_index_key k) (map fst ps))"
  have "mset (map fst ?qs) = mset (map fst ps)"
    using mset_put_sorted [OF ok] by (metis map_fst_sort_fields mset_map)
  moreover have "map fst ?qs = ?is @ ?ns"
    using put_sorted_keys [OF ok] by (simp only: map_fst_sort_fields)
  moreover have "\<forall>k \<in> set ?is. is_index_key k" "\<forall>k \<in> set ?ns. \<not> is_index_key k"
    "sorted (map digits_val ?is)" "sorted ?ns" by simp_all
  ultimately show ?thesis unfolding sortKeysRecursive.simps(2) by blast
qed

text \<open>Two behaviours of the canonical form that its description does not mention.\<close>

lemma index_key_examples:
  "\<not> is_index_key ''a''" "is_index_key ''10''" "is_index_key ''9''" "digits_val ''10'' = 10" "digits_val ''9'' = 9"
  "digit_val CHR ''9'' = 9"
  by (simp_all add: is_index_key_def is_digit_def digits_val_def digit_val_def code_unit_def)

lemma nested_null_kept:
  assumes "canonicalise host (ev\<lparr>ce_metadata := Some [(''a'', JNull)]\<rparr>) = Inr s"
    and "\<forall>s t. host s = Some t \<longrightarrow> valid_time t"
  shows "canonicalise host (ev\<lparr>ce_metadata := Some []\<rparr>) \<noteq> Inr s"
proof
  assume "canonicalise host (ev\<lparr>ce_metadata := Some []\<rparr>) = Inr s"
  from canonicalise_inject [OF assms(1) this _ _ assms(2)] show False
    by (simp add: metadata_ok_def canonical_content_def sorted_metadata_def put_sorted_def obj_put_def
        index_key_examples)
qed

lemma nested_proto_ignored:
  assumes "''__proto__'' \<notin> set (map fst (ps @ qs))"
  shows "canonicalise host (ev\<lparr>ce_metadata := Some (ps @ (''__proto__'', v) # qs)\<rparr>) =
    canonicalise host (ev\<lparr>ce_metadata := Some (ps @ qs)\<rparr>)"
proof -
  have "put_sorted (sort_fields (ps @ (''__proto__'', v) # qs)) = put_sorted (sort_fields (ps @ qs))"
    unfolding sort_fields_map map_append list.map fst_conv
    by (rule put_sorted_proto) (use assms in \<open>auto simp: comp_def\<close>)
  then have "sortKeysRecursive (JObj (ps @ (''__proto__'', v) # qs)) = sortKeysRecursive (JObj (ps @ qs))"
    by simp
  then have "sortKeysRecursive (JObj (canonical_object (ev\<lparr>ce_metadata := Some (ps @ (''__proto__'', v) # qs)\<rparr>) t)) =
      sortKeysRecursive (JObj (canonical_object (ev\<lparr>ce_metadata := Some (ps @ qs)\<rparr>) t))" for t
    by (simp add: sorted_canonical_object del: sortKeysRecursive.simps)
  then show ?thesis
    by (simp add: canonicalise_def del: sortKeysRecursive.simps split: option.split)
qed

lemma index_keys_not_alphabetical:
  "''10'' < (''9'' :: string)"
  "sortKeysRecursive (JObj [(''10'', JNull), (''9'', JNull)]) = JObj [(''9'', JNull), (''10'', JNull)]"
proof -
  show "''10'' < (''9'' :: string)" by code_simp
  then have "sort [''10'', ''9''] = [''10'', ''9'' :: string]" by simp
  then show "sortKeysRecursive (JObj [(''10'', JNull), (''9'', JNull)]) = JObj [(''9'', JNull), (''10'', JNull)]"
    by (simp add: put_sorted_def obj_put_def prop_get_def index_key_examples del: sort_key_simps)
qed

end
