(* ===== verification/Limiter.thy ===== *)
theory Limiter
  imports JsString
begin

text \<open>
  The failed-attempt windows of \<open>auth.service.ts\<close> and \<open>password-reset.service.ts\<close>. Both keep a
  map from lower-case email addresses to a count and the start of its window, in the memory
  of the process, and run the same code over it with different limits.

  The locale \<open>attempt_limiter\<close> is what the two services rely on: from the laws of looking up,
  failing and clearing it derives how long a key is blocked and when it is not.
\<close>

section \<open>The map of failed attempts\<close>

record attempt_record =
  count :: int
  windowStart :: millis

type_synonym attempts = "string \<Rightarrow> attempt_record option"

text \<open>\<open>Math.ceil(ms / 1000)\<close>\<close>

definition ceil_seconds :: "millis \<Rightarrow> int" where
  "ceil_seconds ms = - ((- ms) div 1000)"

text \<open>
  The test before an attempt: an expired record is deleted, a full one stops the attempt with
  the number of seconds to wait.
\<close>

definition check_attempts :: "int \<Rightarrow> millis \<Rightarrow> millis \<Rightarrow> string \<Rightarrow> attempts \<Rightarrow> int + attempts" where
  "check_attempts limit window now key m =
     (case m key of
        None \<Rightarrow> Inr m
      | Some r \<Rightarrow>
          if now - windowStart r > window then Inr (m(key := None))
          else if count r \<ge> limit then Inl (ceil_seconds (window - (now - windowStart r)))
          else Inr m)"

definition fail_attempt :: "millis \<Rightarrow> string \<Rightarrow> attempts \<Rightarrow> attempts" where
  "fail_attempt now key m =
     (case m key of
        Some r \<Rightarrow> m(key \<mapsto> r\<lparr>count := count r + 1\<rparr>)
      | None \<Rightarrow> m(key \<mapsto> \<lparr>count = 1, windowStart = now\<rparr>))"

definition clear_attempts :: "string \<Rightarrow> attempts \<Rightarrow> attempts" where
  "clear_attempts key m = m(key := None)"

section \<open>What the services rely on\<close>

locale attempt_limiter =
  fixes limit :: int and window :: millis
    and record_of :: "'m \<Rightarrow> string \<Rightarrow> attempt_record option"
    and check :: "millis \<Rightarrow> string \<Rightarrow> 'm \<Rightarrow> int + 'm"
    and fail :: "millis \<Rightarrow> string \<Rightarrow> 'm \<Rightarrow> 'm"
    and clear :: "string \<Rightarrow> 'm \<Rightarrow> 'm"
  assumes bounds: "0 < limit" "0 \<le> window"
    and check_none: "record_of m k = None \<Longrightarrow> check now k m = Inr m"
    and check_expired: "record_of m k = Some r \<Longrightarrow> now - windowStart r > window \<Longrightarrow>
      \<exists>m'. check now k m = Inr m' \<and> record_of m' = (record_of m)(k := None)"
    and check_full: "record_of m k = Some r \<Longrightarrow> now - windowStart r \<le> window \<Longrightarrow> limit \<le> count r \<Longrightarrow>
      check now k m = Inl (ceil_seconds (window - (now - windowStart r)))"
    and check_open: "record_of m k = Some r \<Longrightarrow> now - windowStart r \<le> window \<Longrightarrow> count r < limit \<Longrightarrow>
      check now k m = Inr m"
    and record_fail: "record_of (fail now k m) = (record_of m)(k \<mapsto>
      (case record_of m k of None \<Rightarrow> \<lparr>count = 1, windowStart = now\<rparr>
       | Some r \<Rightarrow> r\<lparr>count := count r + 1\<rparr>))"
    and record_clear: "record_of (clear k m) = (record_of m)(k := None)"
begin

lemma checkD:
  assumes "check now k m = Inr m'"
  shows "record_of m' k = (case record_of m k of None \<Rightarrow> None
      | Some r \<Rightarrow> if now - windowStart r > window then None else Some r)"
    and "k' \<noteq> k \<Longrightarrow> record_of m' k' = record_of m k'"
    and "record_of m' k = Some r \<Longrightarrow> count r < limit"
proof (atomize (full), cases "record_of m k")
  case None
  with assms show "record_of m' k = (case record_of m k of None \<Rightarrow> None
      | Some r \<Rightarrow> if now - windowStart r > window then None else Some r) \<and>
    (k' \<noteq> k \<longrightarrow> record_of m' k' = record_of m k') \<and> (record_of m' k = Some r \<longrightarrow> count r < limit)"
    by (simp add: check_none)
next
  case (Some r')
  show "record_of m' k = (case record_of m k of None \<Rightarrow> None
      | Some r \<Rightarrow> if now - windowStart r > window then None else Some r) \<and>
    (k' \<noteq> k \<longrightarrow> record_of m' k' = record_of m k') \<and> (record_of m' k = Some r \<longrightarrow> count r < limit)"
  proof (cases "now - windowStart r' > window")
    case True
    then show ?thesis using check_expired [OF Some True] assms Some by auto
  next
    case False
    then have "count r' < limit" using assms check_full [OF Some, of now] by (cases "limit \<le> count r'") auto
    then show ?thesis using False assms check_open [OF Some, of now] Some by auto
  qed
qed

text \<open>
  One guarded attempt, whether it got past the check, and what it left behind: a failure is counted, a success clears the
  record. \<open>passed\<close> counts the attempts on one key that get past the check in a run of
  attempts on any keys.
\<close>

definition attempt :: "millis \<Rightarrow> string \<Rightarrow> bool \<Rightarrow> 'm \<Rightarrow> bool \<times> 'm" where
  "attempt now k good m =
     (case check now k m of
        Inl s \<Rightarrow> (False, m)
      | Inr m' \<Rightarrow> (True, if good then clear k m' else fail now k m'))"

fun passed :: "string \<Rightarrow> (millis \<times> string \<times> bool) list \<Rightarrow> 'm \<Rightarrow> nat" where
  "passed k [] m = 0"
| "passed k ((t, k', good) # as) m =
     (if k' = k \<and> fst (attempt t k' good m) then 1 else 0) + passed k as (snd (attempt t k' good m))"

definition room :: "string \<Rightarrow> 'm \<Rightarrow> int" where
  "room k m = (case record_of m k of None \<Rightarrow> limit | Some r \<Rightarrow> max 0 (limit - count r))"

text \<open>The record of a key is younger than \<open>t0\<close>, if there is one.\<close>

definition young :: "millis \<Rightarrow> string \<Rightarrow> 'm \<Rightarrow> bool" where
  "young t0 k m \<longleftrightarrow> (case record_of m k of None \<Rightarrow> True | Some r \<Rightarrow> t0 \<le> windowStart r)"

lemma attempt_other: "k' \<noteq> k \<Longrightarrow> record_of (snd (attempt t k' good m)) k = record_of m k"
  using checkD(2) by (auto simp: attempt_def record_fail record_clear split: sum.split)

lemma attempt_failing:
  assumes "young t0 k m" and "t0 \<le> t" and "t \<le> t0 + window"
  shows "young t0 k (snd (attempt t k False m))"
    and "fst (attempt t k False m) \<longleftrightarrow> 0 < room k m"
    and "room k (snd (attempt t k False m)) = room k m - (if 0 < room k m then 1 else 0)"
proof (atomize (full), cases "record_of m k")
  case None
  then show "young t0 k (snd (attempt t k False m)) \<and> fst (attempt t k False m) = (0 < room k m) \<and>
      room k (snd (attempt t k False m)) = room k m - (if 0 < room k m then 1 else 0)"
    using assms bounds by (simp add: attempt_def check_none record_fail young_def room_def)
next
  case (Some r)
  then have w: "t - windowStart r \<le> window" using assms by (simp add: young_def)
  show "young t0 k (snd (attempt t k False m)) \<and> fst (attempt t k False m) = (0 < room k m) \<and>
      room k (snd (attempt t k False m)) = room k m - (if 0 < room k m then 1 else 0)"
    using assms(1) Some check_full [OF Some w] check_open [OF Some w]
    by (cases "limit \<le> count r") (auto simp: attempt_def record_fail young_def room_def)
qed

text \<open>
  However many failing attempts are made on a key in a window, and whatever is tried on other keys in
  between, only those there is room for get past the check.
\<close>

lemma passed_bound:
  assumes "young t0 k m"
    and "\<And>t good. (t, k, good) \<in> set as \<Longrightarrow> \<not> good \<and> t0 \<le> t \<and> t \<le> t0 + window"
  shows "int (passed k as m) = min (int (length (filter (\<lambda>a. fst (snd a) = k) as))) (room k m)"
  using assms
proof (induction as arbitrary: m)
  case Nil
  then show ?case by (simp add: room_def max_def split: option.split) (use bounds in linarith)
next
  case (Cons a as)
  obtain t k' good where a: "a = (t, k', good)" by (cases a)
  let ?m = "snd (attempt t k' good m)"
  have as: "int (passed k as ?m) = min (int (length (filter (\<lambda>a. fst (snd a) = k) as))) (room k ?m)" if "young t0 k ?m"
    by (rule Cons.IH [OF that]) (use Cons.prems(2) in auto)
  show ?case
  proof (cases "k' = k")
    case False
    then have "young t0 k ?m" and "room k ?m = room k m"
      using Cons.prems(1) by (simp_all add: young_def room_def attempt_other)
    then show ?thesis using as False by (simp add: a)
  next
    case True
    then have g: "\<not> good" "t0 \<le> t" "t \<le> t0 + window" using Cons.prems(2) [of t good] by (simp_all add: a)
    note step = attempt_failing [OF Cons.prems(1) g(2,3)]
    have "0 \<le> room k m" using bounds by (simp add: room_def split: option.split)
    then show ?thesis using as step g(1) True by (auto simp: a)
  qed
qed

text \<open>After the window of a full record the key is free again.\<close>

lemma free_after_window:
  assumes "record_of m k = Some r" and "now > windowStart r + window"
  shows "\<exists>m'. check now k m = Inr m' \<and> record_of m' k = None"
  using check_expired [OF assms(1), of now] assms(2) by auto

lemma other_keys:
  "k' \<noteq> k \<Longrightarrow> record_of (fail now k m) k' = record_of m k'"
  "k' \<noteq> k \<Longrightarrow> record_of (clear k m) k' = record_of m k'"
  by (simp_all add: record_fail record_clear)

end

section \<open>The code's map keeps the laws\<close>

lemma limiter_laws:
  assumes "0 < limit" and "0 \<le> window"
  shows "attempt_limiter limit window (\<lambda>m. m) (check_attempts limit window) fail_attempt clear_attempts"
  by unfold_locales
    (use assms in \<open>auto simp: check_attempts_def fail_attempt_def clear_attempts_def split: option.splits\<close>)

lemma ceil_seconds_bounds:
  "0 \<le> ms \<Longrightarrow> 0 \<le> ceil_seconds ms \<and> ms \<le> 1000 * ceil_seconds ms \<and> 1000 * ceil_seconds ms < ms + 1000"
  unfolding ceil_seconds_def by linarith

end
