(* ===== verification/Session.thy ===== *)
theory Session
  imports Repositories Canonical Limiter
begin

text \<open>
  What the services share: the state of the running program (\<open>sys\<close>: the database, the two maps of
  failed attempts, the mails sent, the timers and callbacks set, the anchoring queue), the answers of the world during one operation (\<open>ctx\<close>: the
  clock, randomness, generated identifiers, the answers of the mail service, of Google and of
  Stripe), the one-time codes, \<open>utils/ses.client.ts\<close>, and the block of code by which five services issue a session.

  An operation maps the state to its result and the state after it, also when it throws: what
  it wrote before the throw stays written. It runs at one instant.
\<close>

datatype mail =
    OtpMail string string \<comment> \<open>address and code\<close>
  | ResetMail string string
  | DevLog string string \<comment> \<open>printed on the console instead of sent\<close>

text \<open>A job of the anchoring queue, and an event handed to the processing service.\<close>

record anchor_job =
  aj_eventId :: uuid
  aj_orgId :: uuid
  aj_canonicalHash :: string

record processable_event =
  pe_event_id :: uuid
  pe_org_id :: uuid
  pe_content :: canon_event

record sys =
  db :: store
  emailFailedAttempts :: attempts
  confirmFailedAttempts :: attempts
  outbox :: "mail list"
  timers :: "(millis \<times> uuid) list" \<comment> \<open>pending activations of organisations\<close>
  dispatched :: "processable_event list" \<comment> \<open>callbacks given to \<open>setImmediate\<close>\<close>
  queue :: "anchor_job list"

record google_payload =
  gp_sub :: string
  gp_email :: string
  gp_email_verified :: bool

record ctx =
  cx_now :: millis
  cx_id :: "nat \<Rightarrow> uuid" \<comment> \<open>the identifiers the database generates, in order\<close>
  cx_randomInt :: int \<comment> \<open>\<open>crypto.randomInt(100000, 999999)\<close>\<close>
  cx_bytes :: "byte list" \<comment> \<open>\<open>crypto.randomBytes(32)\<close>\<close>
  cx_iv :: "byte list" \<comment> \<open>\<open>crypto.randomBytes(12)\<close>\<close>
  cx_salt :: "byte list"
  cx_mail :: "thrown option" \<comment> \<open>the failure of sending a mail\<close>
  cx_google :: "string \<Rightarrow> google_payload option" \<comment> \<open>\<open>jwtVerify\<close> of a Google token, \<open>None\<close> when it throws\<close>
  cx_checkout :: "string option result" \<comment> \<open>the URL of a Stripe checkout session\<close>

abbreviation throw :: "app_error \<Rightarrow> 'a result" where
  "throw err \<equiv> Inl (App err)"

type_synonym 'a op = "sys \<Rightarrow> 'a result \<times> sys"

section \<open>One-time codes and mails\<close>

definition generate_otp :: "env \<Rightarrow> ctx \<Rightarrow> string" where
  "generate_otp e cx = (if skip_ses e then ''123456'' else show_int (cx_randomInt cx))"

definition sendOtpEmail :: "env \<Rightarrow> ctx \<Rightarrow> string \<Rightarrow> string \<Rightarrow> unit op" where
  "sendOtpEmail e cx toEmail otp s =
     (if skip_ses e then (Inr (), s\<lparr>outbox := outbox s @ [DevLog toEmail otp]\<rparr>)
      else case cx_mail cx of
        Some err \<Rightarrow> (Inl err, s)
      | None \<Rightarrow> (Inr (), s\<lparr>outbox := outbox s @ [OtpMail toEmail otp]\<rparr>))"

definition sendPasswordResetEmail :: "env \<Rightarrow> ctx \<Rightarrow> string \<Rightarrow> string \<Rightarrow> unit op" where
  "sendPasswordResetEmail e cx toEmail otp s =
     (if skip_ses e then (Inr (), s\<lparr>outbox := outbox s @ [DevLog toEmail otp]\<rparr>)
      else case cx_mail cx of
        Some err \<Rightarrow> (Inl err, s)
      | None \<Rightarrow> (Inr (), s\<lparr>outbox := outbox s @ [ResetMail toEmail otp]\<rparr>))"

text \<open>Hash a fresh code, store its hash for ten minutes and mail the code.\<close>

definition issue_otp :: "libs \<Rightarrow> env \<Rightarrow> ctx \<Rightarrow> uuid \<Rightarrow> string \<Rightarrow> unit op" where
  "issue_otp L e cx new_id email s =
     (let otp = generate_otp e cx;
          emailHash = hashSHA256 L (toLowerCase email);
          otpHash = hashSHA256 L otp;
          expiresAt = cx_now cx + 10 * 60 * 1000
      in case insertOtpToken (cx_now cx) new_id (db s) emailHash otpHash expiresAt of
           Inl err \<Rightarrow> (Inl err, s)
         | Inr d \<Rightarrow> sendOtpEmail e cx email otp (s\<lparr>db := d\<rparr>))"

section \<open>Sessions\<close>

definition session_payload :: "user \<Rightarrow> jwt_payload" where
  "session_payload u =
     \<lparr>jp_user_id = u_user_id u, jp_org_id = u_org_id u, jp_role = u_role u, jp_email = u_email u\<rparr>"

record session =
  sessionToken :: string
  refreshToken :: string

definition REFRESH_TOKEN_TTL_MS :: millis where
  "REFRESH_TOKEN_TTL_MS = 7 * 24 * 60 * 60 * 1000"

definition issue_session :: "libs \<Rightarrow> env \<Rightarrow> ctx \<Rightarrow> uuid \<Rightarrow> uuid \<Rightarrow> jwt_payload \<Rightarrow> session op" where
  "issue_session L e cx new_id userId payload s =
     (let refresh = generateRefreshToken (cx_bytes cx);
          tokenHash = hashSHA256 L refresh;
          expiresAt = cx_now cx + REFRESH_TOKEN_TTL_MS
      in case insertRefreshToken (cx_now cx) new_id (db s) userId tokenHash expiresAt of
           Inl err \<Rightarrow> (Inl err, s)
         | Inr d \<Rightarrow>
             (Inr \<lparr>sessionToken = signJwt L e (cx_now cx) payload, refreshToken = refresh\<rparr>, s\<lparr>db := d\<rparr>))"

section \<open>Integrity of the store\<close>

definition store_ok :: "store \<Rightarrow> bool" where
  "store_ok d \<longleftrightarrow>
     unique_rows org_constraints (organisations d) \<and> unique_rows user_constraints (users d) \<and>
     unique_rows invitation_constraints (invitations d) \<and> unique_rows otp_constraints (otp_tokens d) \<and>
     unique_rows reset_constraints (reset_tokens d) \<and> unique_rows refresh_constraints (refresh_tokens d) \<and>
     unique_rows api_key_constraints (api_keys d) \<and> unique_rows event_constraints (events d)"

lemma store_ok_empty: "store_ok empty_store"
  by (simp add: store_ok_def empty_store_def unique_rows_def org_constraints_def user_constraints_def
      invitation_constraints_def otp_constraints_def reset_constraints_def refresh_constraints_def
      api_key_constraints_def event_constraints_def)

lemmas constraint_defs =
  org_constraints_def user_constraints_def invitation_constraints_def otp_constraints_def
  reset_constraints_def refresh_constraints_def api_key_constraints_def event_constraints_def

lemma store_ok_keys:
  assumes "store_ok d"
  shows "distinct (map o_org_id (organisations d))" "distinct (map o_name (organisations d))"
    "distinct (map u_user_id (users d))" "distinct (map u_email (users d))"
    "distinct (map inv_invitation_id (invitations d))" "distinct (map inv_token_hash (invitations d))"
    "distinct (map otp_id (otp_tokens d))"
    "distinct (map prt_token_id (reset_tokens d))" "distinct (map prt_token_hash (reset_tokens d))"
    "distinct (map rt_id (refresh_tokens d))" "distinct (map rt_token_hash (refresh_tokens d))"
    "distinct (map ak_key_id (api_keys d))" "distinct (map ak_key_hash (api_keys d))"
    "distinct (map ev_event_id (events d))"
  using assms
  by (simp_all add: store_ok_def constraint_defs unique_rows_def filter_map comp_def distinct_map)
    (simp_all add: inj_on_def)

lemma insert_otp_ok: "store_ok d \<Longrightarrow> insertOtpToken now i d eh oh x = Inr d' \<Longrightarrow> store_ok d'"
  by (auto simp: insertOtpToken_def store_ok_def map_sum_def elim: insert_row_unique split: sum.splits)

lemma insert_refresh_ok: "store_ok d \<Longrightarrow> insertRefreshToken now i d u h x = Inr d' \<Longrightarrow> store_ok d'"
  by (auto simp: insertRefreshToken_def store_ok_def map_sum_def elim: insert_row_unique split: sum.splits)

lemma insert_reset_ok: "store_ok d \<Longrightarrow> insertPasswordResetToken now i d u h x = Inr d' \<Longrightarrow> store_ok d'"
  by (auto simp: insertPasswordResetToken_def store_ok_def map_sum_def elim: insert_row_unique split: sum.splits)

end
