(* ===== verification/Async.thy ===== *)
theory Async
  imports Session
begin

text \<open>
  Requests at the granularity of the source's \<open>await\<close>. A request either has its answer or waits for one statement:
  a query, a write, a transaction, or a change of a map in memory. Any other request can run
  before the statement does. A request that runs alone is an operation (\<open>run_async\<close>); many requests interleave
  (\<open>turn\<close>). What a request guarantees while others run is stated and proved in the style of rely and guarantee.
\<close>

section \<open>Requests\<close>

datatype 'a async =
    Return "'a result"
  | Await "sys \<Rightarrow> 'a async \<times> sys"

primrec run_async :: "'a async \<Rightarrow> 'a op" where
  "run_async (Return r) = (\<lambda>s. (r, s))"
| "run_async (Await f) = (\<lambda>s. (\<lambda>(rest, s'). rest s') ((map_prod run_async id \<circ> f) s))"

text \<open>Continue with the value of a request; an error ends it.\<close>

primrec then_do :: "'a async \<Rightarrow> ('a \<Rightarrow> 'b async) \<Rightarrow> 'b async" where
  "then_do (Return r) k = (case r of Inl err \<Rightarrow> Return (Inl err) | Inr a \<Rightarrow> k a)"
| "then_do (Await f) k = Await (map_prod (\<lambda>p. then_do p k) id \<circ> f)"

definition atomic :: "'a op \<Rightarrow> 'a async" where
  "atomic f = Await (\<lambda>s. case f s of (r, s') \<Rightarrow> (Return r, s'))"

abbreviation give :: "'a \<Rightarrow> 'a async" where
  "give a \<equiv> Return (Inr a)"

abbreviation fail_with :: "app_error \<Rightarrow> 'a async" where
  "fail_with err \<equiv> Return (throw err)"

text \<open>A query, a write or a transaction of the database, and a change of the state outside of it.\<close>

definition query :: "(store \<Rightarrow> 'a) \<Rightarrow> 'a async" where
  "query q = atomic (\<lambda>s. (Inr (q (db s)), s))"

definition write_db :: "(store \<Rightarrow> ('a \<times> store) result) \<Rightarrow> 'a async" where
  "write_db w = atomic (\<lambda>s. case w (db s) of Inl err \<Rightarrow> (Inl err, s) | Inr (a, d) \<Rightarrow> (Inr a, s\<lparr>db := d\<rparr>))"

definition change :: "(sys \<Rightarrow> sys) \<Rightarrow> unit async" where
  "change f = atomic (\<lambda>s. (Inr (), f s))"

abbreviation (input) unit_write :: "store result \<Rightarrow> (unit \<times> store) result" where
  "unit_write r \<equiv> map_sum id (Pair ()) r"

section \<open>A request that runs alone\<close>

lemma run_then_do [simp]:
  "run_async (then_do p k) s =
     (case run_async p s of (Inl err, s') \<Rightarrow> (Inl err, s') | (Inr a, s') \<Rightarrow> run_async (k a) s')"
proof (induction p arbitrary: s)
  case (Await f)
  obtain p s' where "f s = (p, s')" by (cases "f s")
  moreover from this have "(p, s') \<in> range f" by (metis rangeI)
  ultimately show ?case using Await [of "f s" p s'] by simp
qed (simp split: sum.split)

lemma run_atomic [simp]: "run_async (atomic f) s = f s"
  by (simp add: atomic_def split: prod.split)

lemma run_query [simp]: "run_async (query q) s = (Inr (q (db s)), s)"
  by (simp add: query_def)

lemma run_write_db [simp]:
  "run_async (write_db w) s = (case w (db s) of Inl err \<Rightarrow> (Inl err, s) | Inr (a, d) \<Rightarrow> (Inr a, s\<lparr>db := d\<rparr>))"
  by (simp add: write_db_def)

lemma run_change [simp]: "run_async (change f) s = (Inr (), f s)"
  by (simp add: change_def)

section \<open>Requests that interleave\<close>

text \<open>One of the requests that wait has its turn.\<close>

inductive turn :: "'a async list \<times> sys \<Rightarrow> 'a async list \<times> sys \<Rightarrow> bool" where
  "i < length ps \<Longrightarrow> ps ! i = Await f \<Longrightarrow> f s = (p, s') \<Longrightarrow> turn (ps, s) (ps[i := p], s')"

text \<open>
  A server: requests arrive, have their turns, something else of the program or of the world outside happens,
  or the process restarts, which loses the requests that wait.
\<close>

inductive serving ::
    "('a async \<Rightarrow> bool) \<Rightarrow> ('w \<times> sys \<Rightarrow> 'w \<times> sys \<Rightarrow> bool) \<Rightarrow> (sys \<Rightarrow> sys) \<Rightarrow>
     'a async list \<times> 'w \<times> sys \<Rightarrow> 'a async list \<times> 'w \<times> sys \<Rightarrow> bool"
  for arrives outside forget
where
  serve_arrival: "arrives p \<Longrightarrow> serving arrives outside forget (ps, w, s) (ps @ [p], w, s)"
| serve_turn: "turn (ps, s) (ps', s') \<Longrightarrow> serving arrives outside forget (ps, w, s) (ps', w, s')"
| serve_outside: "outside (w, s) (w', s') \<Longrightarrow> serving arrives outside forget (ps, w, s) (ps, w', s')"
| serve_restart: "serving arrives outside forget (ps, w, s) ([], w, forget s)"

inductive_cases turnE: "turn (ps, s) qs"

text \<open>A run of the scheduler that gives the turns in a fixed order.\<close>

fun schedule :: "nat list \<Rightarrow> 'a async list \<times> sys \<Rightarrow> 'a async list \<times> sys" where
  "schedule [] (ps, s) = (ps, s)"
| "schedule (i # is) (ps, s) =
     (case ps ! i of Return r \<Rightarrow> schedule is (ps, s) | Await f \<Rightarrow> (case f s of (p, s') \<Rightarrow> schedule is (ps[i := p], s')))"

lemma schedule_turns: "list_all (\<lambda>i. i < length ps) order \<Longrightarrow> turn\<^sup>*\<^sup>* (ps, s) (schedule order (ps, s))"
proof (induction order arbitrary: ps s)
  case (Cons i order)
  show ?case
  proof (cases "ps ! i")
    case (Await f)
    obtain p s' where f: "f s = (p, s')" by (cases "f s")
    have "turn (ps, s) (ps[i := p], s')" using Cons.prems Await f by (auto intro: turn.intros)
    moreover have "turn\<^sup>*\<^sup>* (ps[i := p], s') (schedule order (ps[i := p], s'))" using Cons by simp
    ultimately show ?thesis using Await f by (simp add: converse_rtranclp_into_rtranclp)
  qed (use Cons in simp)
qed simp

section \<open>Turns side by side\<close>

lemma turn_frame: "turn (ps, s) (ps', s') \<Longrightarrow> turn (as @ ps @ bs, s) (as @ ps' @ bs, s')"
proof (erule turnE)
  fix i f p s2
  assume i: "(ps', s') = (ps[i := p], s2)" "i < length ps" "ps ! i = Await f" "f s = (p, s2)"
  have "turn (as @ ps @ bs, s) ((as @ ps @ bs)[length as + i := p], s2)"
    using i by (intro turn.intros [of _ _ f]) (simp_all add: nth_append)
  then show "turn (as @ ps @ bs, s) (as @ ps' @ bs, s')"
    using i(1,2) by (simp add: list_update_append)
qed

lemma turns_frame: "turn\<^sup>*\<^sup>* (ps, s) (ps', s') \<Longrightarrow> turn\<^sup>*\<^sup>* (as @ ps @ bs, s) (as @ ps' @ bs, s')"
  by (induction rule: rtranclp_induct2) (auto intro: rtranclp.rtrancl_into_rtrancl turn_frame)

text \<open>Each of the requests has some turns, one request after the other.\<close>

lemma turns_each:
  assumes "\<And>x i s. x \<in> set xs \<Longrightarrow> J i s \<Longrightarrow> \<exists>s'. J (Suc i) s' \<and> turn\<^sup>*\<^sup>* ([p x], s) ([q x], s')" and "J i s"
  shows "\<exists>s'. J (i + length xs) s' \<and> turn\<^sup>*\<^sup>* (map p xs, s) (map q xs, s')"
  using assms
proof (induction xs arbitrary: i s)
  case (Cons x xs)
  obtain s1 where s1: "J (Suc i) s1" "turn\<^sup>*\<^sup>* ([p x], s) ([q x], s1)"
    using Cons.prems by (meson list.set_intros(1))
  obtain s2 where s2: "J (Suc i + length xs) s2" "turn\<^sup>*\<^sup>* (map p xs, s1) (map q xs, s2)"
    using Cons.IH [of "Suc i" s1] Cons.prems(1) s1(1) by auto
  have "turn\<^sup>*\<^sup>* (map p (x # xs), s) (map q (x # xs), s2)"
    using turns_frame [OF s1(2), of "[]" "map p xs"] turns_frame [OF s2(2), of "[q x]" "[]"]
    by (simp add: rtranclp_trans)
  then show ?case using s2(1) by auto
qed auto

text \<open>A request that arrives and has all its turns without interruption is its operation.\<close>

lemma turn_last: "f s = (p, s') \<Longrightarrow> turn (ps @ [Await f], s) (ps @ [p], s')"
  using turn.intros [of "length ps" "ps @ [Await f]" f s p s'] by simp

lemma run_turns: "turn\<^sup>*\<^sup>* (ps @ [p], s) (ps @ [Return (fst (run_async p s))], snd (run_async p s))"
proof (induction p arbitrary: s)
  case (Await f)
  obtain p s' where f: "f s = (p, s')" by (cases "f s")
  then have "turn\<^sup>*\<^sup>* (ps @ [p], s') (ps @ [Return (fst (run_async p s'))], snd (run_async p s'))"
    using Await [OF rangeI, of p s s'] by simp
  then show ?case
    using turn_last [of f s p s' ps] f by (simp add: converse_rtranclp_into_rtranclp)
qed simp

section \<open>What a request guarantees while others run\<close>

text \<open>
  \<open>guarded R Q p s\<close>: from \<open>s\<close> on, whatever happens within \<open>R\<close> between its statements, each statement of
  \<open>p\<close> is within \<open>R\<close>, and a value it ends with satisfies \<open>Q\<close>.
\<close>

inductive guarded :: "(sys \<Rightarrow> sys \<Rightarrow> bool) \<Rightarrow> ('a \<Rightarrow> sys \<Rightarrow> bool) \<Rightarrow> 'a async \<Rightarrow> sys \<Rightarrow> bool" for R Q where
  guarded_Return: "(\<And>a s'. r = Inr a \<Longrightarrow> R s s' \<Longrightarrow> Q a s') \<Longrightarrow> guarded R Q (Return r) s"
| guarded_Await: "(\<And>s'. R s s' \<Longrightarrow> R s' (snd (f s'))) \<Longrightarrow>
    (\<And>s'. R s s' \<Longrightarrow> guarded R Q (fst (f s')) (snd (f s'))) \<Longrightarrow> guarded R Q (Await f) s"

inductive_cases guarded_ReturnE: "guarded R Q (Return r) s"
inductive_cases guarded_AwaitE: "guarded R Q (Await f) s"

abbreviation safe :: "(sys \<Rightarrow> sys \<Rightarrow> bool) \<Rightarrow> 'a async \<Rightarrow> sys \<Rightarrow> bool" where
  "safe R \<equiv> guarded R (\<lambda>a s. True)"

locale interference =
  fixes inv :: "sys \<Rightarrow> bool" and R :: "sys \<Rightarrow> sys \<Rightarrow> bool"
  assumes R_refl: "R s s" and R_trans: "R s1 s2 \<Longrightarrow> R s2 s3 \<Longrightarrow> R s1 s3"
    and R_inv: "inv s \<Longrightarrow> R s s' \<Longrightarrow> inv s'"
begin

text \<open>A guarantee is not lost while others run.\<close>

lemma guarded_later: "guarded R Q p s \<Longrightarrow> R s s' \<Longrightarrow> guarded R Q p s'"
  by (cases p) (auto elim!: guarded_ReturnE guarded_AwaitE intro!: guarded.intros intro: R_trans)

lemma guarded_fail: "guarded R Q (Return (Inl err)) s"
  by (rule guarded_Return) simp

lemma guarded_then:
  assumes "guarded R Q p s" and "\<And>a s'. R s s' \<Longrightarrow> Q a s' \<Longrightarrow> guarded R Q' (k a) s'"
  shows "guarded R Q' (then_do p k) s"
  using assms
proof (induction rule: guarded.induct)
  case (guarded_Return r s)
  show ?case
  proof (cases r)
    case (Inr a)
    then have "Q a s" using guarded_Return.hyps R_refl by blast
    then show ?thesis using guarded_Return.prems R_refl Inr by simp
  qed (simp add: guarded_fail)
next
  case (guarded_Await s f)
  show ?case unfolding then_do.simps
  proof (rule guarded.guarded_Await)
    fix s' assume "R s s'"
    then show "R s' (snd ((map_prod (\<lambda>p. then_do p k) id \<circ> f) s'))"
      using guarded_Await.hyps(1) by simp
    from \<open>R s s'\<close> show "guarded R Q' (fst ((map_prod (\<lambda>p. then_do p k) id \<circ> f) s')) (snd ((map_prod (\<lambda>p. then_do p k) id \<circ> f) s'))"
      using guarded_Await.IH [of s'] guarded_Await.hyps(1) guarded_Await.prems R_trans by simp blast
  qed
qed

lemma guarded_atomic:
  assumes "\<And>s'. R s s' \<Longrightarrow> R s' (snd (f s'))"
    and "\<And>s' a s''. R s s' \<Longrightarrow> fst (f s') = Inr a \<Longrightarrow> R (snd (f s')) s'' \<Longrightarrow> Q a s''"
  shows "guarded R Q (atomic f) s"
  unfolding atomic_def
  by (rule guarded_Await) (use assms in \<open>auto simp: case_prod_beta intro!: guarded_Return\<close>)

lemma guarded_give: "(\<And>s'. R s s' \<Longrightarrow> Q a s') \<Longrightarrow> guarded R Q (give a) s"
  by (rule guarded_Return) simp

lemma guarded_query: "(\<And>s' s''. R s s' \<Longrightarrow> R s' s'' \<Longrightarrow> Q (q (db s')) s'') \<Longrightarrow> guarded R Q (query q) s"
  unfolding query_def by (rule guarded_atomic) (auto intro: R_refl)

text \<open>A request that runs alone is within the relation.\<close>

lemma guarded_run: "guarded R Q p s \<Longrightarrow> R s (snd (run_async p s))"
proof (induction rule: guarded.induct)
  case (guarded_Await s f)
  have "R s (snd (f s))" using guarded_Await.hyps(1) R_refl by blast
  moreover have "R (snd (f s)) (snd (run_async (fst (f s)) (snd (f s))))"
    using guarded_Await.IH R_refl by blast
  ultimately show ?case by (simp add: case_prod_beta R_trans)
qed (simp add: R_refl)

text \<open>In a server whose requests are safe and whose other steps are within the relation, everything is.\<close>

lemma serving_step:
  assumes "serving arrives outside forget (ps, w, s) (ps', w', s')" and "\<forall>p \<in> set ps. safe R p s"
    and "inv s" and "\<And>p s. arrives p \<Longrightarrow> inv s \<Longrightarrow> safe R p s"
    and "\<And>w s w' s'. outside (w, s) (w', s') \<Longrightarrow> R s s'" and "\<And>s. R s (forget s)"
  shows "R s s' \<and> (\<forall>p \<in> set ps'. safe R p s')"
  using assms(1)
proof cases
  case (serve_arrival p)
  then show ?thesis using assms(2,3,4) R_refl by auto
next
  case serve_turn
  then obtain i f p where i: "i < length ps" "ps ! i = Await f" "f s = (p, s')" "ps' = ps[i := p]"
    by (auto elim: turnE)
  then have "safe R (Await f) s" using assms(2) by (metis nth_mem)
  then have "R s (snd (f s)) \<and> safe R (fst (f s)) (snd (f s))" by (rule guarded_AwaitE) (simp add: R_refl)
  then have R: "R s s'" and p: "safe R p s'" by (simp_all add: i(3))
  moreover have "safe R q s'" if "q \<in> set ps'" for q
  proof -
    have "q = p \<or> q \<in> set ps" using that set_update_subset_insert [of ps i p] by (auto simp: i(4))
    then show ?thesis using p assms(2) guarded_later [OF _ R] by blast
  qed
  ultimately show ?thesis by blast
next
  case serve_outside
  then show ?thesis using assms(2,5) guarded_later by blast
next
  case serve_restart
  then show ?thesis using assms(6) by simp
qed

lemma serving_steps:
  assumes "(serving arrives outside forget)\<^sup>*\<^sup>* (ps, w, s) (ps', w', s')" and "\<forall>p \<in> set ps. safe R p s"
    and "inv s" and "\<And>p s. arrives p \<Longrightarrow> inv s \<Longrightarrow> safe R p s"
    and "\<And>w s w' s'. outside (w, s) (w', s') \<Longrightarrow> R s s'" and "\<And>s. R s (forget s)"
  shows "R s s' \<and> (\<forall>p \<in> set ps'. safe R p s')"
proof -
  define c and c' where "c = (ps, w, s)" and "c' = (ps', w', s')"
  have "(serving arrives outside forget)\<^sup>*\<^sup>* c c'" using assms(1) by (simp add: c_def c'_def)
  then have "R (snd (snd c)) (snd (snd c')) \<and> (\<forall>p \<in> set (fst c'). safe R p (snd (snd c')))"
  proof (induction rule: rtranclp_induct)
    case (step c1 c2)
    obtain ps1 w1 s1 ps2 w2 s2 where c12: "c1 = (ps1, w1, s1)" "c2 = (ps2, w2, s2)" by (cases c1, cases c2) blast
    have R: "R s s1" and safe: "\<forall>p \<in> set ps1. safe R p s1" using step(3) by (simp_all add: c12 c_def)
    have "R s1 s2 \<and> (\<forall>p \<in> set ps2. safe R p s2)"
      using serving_step [OF step(2) [unfolded c12] safe R_inv [OF assms(3) R] assms(4-6)] by simp
    then show ?case using R_trans [OF R] by (simp add: c12 c_def)
  qed (use assms(2) R_refl in \<open>auto simp: c_def\<close>)
  then show ?thesis by (simp add: c_def c'_def)
qed

end

section \<open>What every statement of a request does\<close>

text \<open>\<open>each Q p\<close>: every statement of \<open>p\<close> is within \<open>Q\<close>, whatever the state it runs in.\<close>

inductive each :: "(sys \<Rightarrow> sys \<Rightarrow> bool) \<Rightarrow> 'a async \<Rightarrow> bool" for Q where
  each_Return: "each Q (Return r)"
| each_Await: "(\<And>s. Q s (snd (f s))) \<Longrightarrow> (\<And>s. each Q (fst (f s))) \<Longrightarrow> each Q (Await f)"

inductive_cases each_AwaitE: "each Q (Await f)"

lemma each_then: "each Q p \<Longrightarrow> (\<And>a. each Q (k a)) \<Longrightarrow> each Q (then_do p k)"
  by (induction rule: each.induct) (auto intro: each.intros split: sum.split)

lemma each_atomic: "(\<And>s. Q s (snd (f s))) \<Longrightarrow> each Q (atomic f)"
  unfolding atomic_def by (rule each_Await) (auto simp: case_prod_beta intro: each_Return)

lemma each_option:
  "each Q p \<Longrightarrow> (\<And>a. each Q (q a)) \<Longrightarrow> each Q (case x of None \<Rightarrow> p | Some a \<Rightarrow> q a)"
  by (cases x) simp_all

lemma each_sum: "(\<And>a. each Q (p a)) \<Longrightarrow> (\<And>a. each Q (q a)) \<Longrightarrow> each Q (case x of Inl a \<Rightarrow> p a | Inr a \<Rightarrow> q a)"
  by (cases x) simp_all

lemma each_if: "each Q p \<Longrightarrow> each Q q \<Longrightarrow> each Q (if b then p else q)"
  by simp

lemma each_mono: "each Q p \<Longrightarrow> (\<And>s s'. Q s s' \<Longrightarrow> Q' s s') \<Longrightarrow> each Q' p"
  by (induction rule: each.induct) (auto intro: each.intros)

lemmas each_steps = each_Return each_option each_sum each_if each_then

text \<open>In a server whose requests are made of such statements, every turn is one.\<close>

lemma each_turn:
  assumes "turn (ps, s) (ps', s')" and "\<forall>p \<in> set ps. each Q p"
  shows "Q s s' \<and> (\<forall>p \<in> set ps'. each Q p)"
proof -
  obtain i f p where i: "i < length ps" "ps ! i = Await f" "f s = (p, s')" "ps' = ps[i := p]"
    using assms(1) by (auto elim: turnE)
  then have "each Q (Await f)" using assms(2) by (metis nth_mem)
  then have "Q s s' \<and> each Q p" by (rule each_AwaitE) (metis i(3) fst_conv snd_conv)
  moreover have "\<forall>q \<in> set ps'. q = p \<or> q \<in> set ps" using set_update_subset_insert [of ps i p] by (auto simp: i(4))
  ultimately show ?thesis using assms(2) by auto
qed

end
