(* ===== verification/Tokens.thy ===== *)
theory Tokens
  imports Session
begin

text \<open>
  The contract of a table of one-time tokens, as a locale: seen through \<open>row_of\<close> the table is a
  map from token hashes to rows, spending a token and issuing one are updates of that map, and
  the services look only live tokens up. Derived once: a spent token is never live again,
  whatever the program does to the table later. Refresh tokens and password reset tokens
  both keep the contract.
\<close>

section \<open>The abstract machine\<close>

text \<open>
  What a table of one-time tokens promises: it knows which tokens were ever issued, and which of
  them work and what for. A token is minted once, and what was minted can only be revoked.
\<close>

inductive token_step ::
    "string set \<times> (string \<Rightarrow> 'r option) \<Rightarrow> string set \<times> (string \<Rightarrow> 'r option) \<Rightarrow> bool" where
  revoke: "h \<in> issued \<Longrightarrow> token_step (issued, works) (issued, works(h := None))"
| mint: "h \<notin> issued \<Longrightarrow> token_step (issued, works) (insert h issued, works(h := r))"

lemma token_steps_dead:
  assumes "token_step\<^sup>*\<^sup>* (issued, works) (issued', works')" and "h \<in> issued" and "works h = None"
  shows "h \<in> issued' \<and> works' h = None"
  using assms(1)
proof (induction rule: rtranclp_induct2)
  case (step issued1 works1 issued2 works2)
  from step.hyps(2) step.IH show ?case by cases auto
qed (use assms in simp)

section \<open>The contract\<close>

locale one_time_tokens =
  fixes ok :: "'d \<Rightarrow> bool"
    and row_of :: "'d \<Rightarrow> string \<Rightarrow> 'r option"
    and live :: "millis \<Rightarrow> 'r \<Rightarrow> bool"
    and mark :: "'r \<Rightarrow> 'r"
    and fresh :: "'a \<Rightarrow> string \<Rightarrow> 'r"
    and lookup :: "millis \<Rightarrow> 'd \<Rightarrow> string \<Rightarrow> 'r option"
    and spend :: "'d \<Rightarrow> 'r \<Rightarrow> 'd"
    and issue :: "'a \<Rightarrow> 'd \<Rightarrow> string \<Rightarrow> 'd result"
  assumes lookup_row: "ok d \<Longrightarrow> lookup now d h =
      (case row_of d h of None \<Rightarrow> None | Some r \<Rightarrow> if live now r then Some r else None)"
    and not_live_mark: "\<not> live now (mark r)"
    and row_spend: "ok d \<Longrightarrow> row_of d h = Some r \<Longrightarrow> row_of (spend d r) = (row_of d)(h \<mapsto> mark r)"
    and ok_spend: "ok d \<Longrightarrow> ok (spend d r)"
    and row_issue: "ok d \<Longrightarrow> issue a d h = Inr d' \<Longrightarrow> row_of d' = (row_of d)(h \<mapsto> fresh a h)"
    and issue_taken: "row_of d h = Some r \<Longrightarrow> \<exists>err. issue a d h = Inl err"
    and ok_issue: "ok d \<Longrightarrow> issue a d h = Inr d' \<Longrightarrow> ok d'"
begin

definition spent :: "'d \<Rightarrow> string \<Rightarrow> bool" where
  "spent d h \<longleftrightarrow> (\<exists>r. row_of d h = Some r \<and> (\<forall>now. \<not> live now r))"

definition frame :: "'d \<Rightarrow> 'd \<Rightarrow> bool" where
  "frame d d' \<longleftrightarrow> ok d' \<and> row_of d' = row_of d"

text \<open>What may happen to the table: nothing, a token is spent, a token is issued.\<close>

inductive evolves :: "'d \<Rightarrow> 'd \<Rightarrow> bool" where
  evolves_refl: "evolves d d"
| evolves_frame: "evolves d d' \<Longrightarrow> frame d' d'' \<Longrightarrow> evolves d d''"
| evolves_spend: "evolves d d' \<Longrightarrow> row_of d' h = Some r \<Longrightarrow> evolves d (spend d' r)"
| evolves_issue: "evolves d d' \<Longrightarrow> issue a d' h = Inr d'' \<Longrightarrow> evolves d d''"

lemma evolves_trans: "evolves d' d'' \<Longrightarrow> evolves d d' \<Longrightarrow> evolves d d''"
  by (induction rule: evolves.induct) (auto intro: evolves.intros)

lemma evolves_ok: "evolves d d' \<Longrightarrow> ok d \<Longrightarrow> ok d'"
  by (induction rule: evolves.induct) (auto simp: frame_def intro: ok_spend ok_issue)

lemma spent_spend: "ok d \<Longrightarrow> row_of d h = Some r \<Longrightarrow> spent (spend d r) h"
  by (simp add: spent_def row_spend not_live_mark)

lemma spent_not_found: "ok d \<Longrightarrow> spent d h \<Longrightarrow> lookup now d h = None"
  by (auto simp: spent_def lookup_row)

lemma spent_stays: "evolves d d' \<Longrightarrow> ok d \<Longrightarrow> spent d h \<Longrightarrow> spent d' h"
proof (induction rule: evolves.induct)
  case (evolves_frame d d' d'')
  then show ?case by (auto simp: spent_def frame_def)
next
  case (evolves_spend d d' k r)
  then have "ok d'" using evolves_ok by blast
  with evolves_spend show ?case by (auto simp: spent_def row_spend not_live_mark)
next
  case (evolves_issue d d' a k d'')
  then have "ok d'" using evolves_ok by blast
  have "k \<noteq> h"
  proof
    assume "k = h"
    then show False using evolves_issue issue_taken [of d' h _ a] by (auto simp: spent_def)
  qed
  with evolves_issue \<open>ok d'\<close> show ?case by (auto simp: spent_def row_issue)
qed

text \<open>A token that was found and spent is never found again.\<close>

lemma single_use:
  assumes "ok d" and "lookup now d h = Some r" and "evolves (spend d r) d'"
  shows "lookup now' d' h = None"
proof -
  have r: "row_of d h = Some r" using assms(1,2) by (auto simp: lookup_row split: option.splits if_splits)
  then have "spent (spend d r) h" using assms(1) by (rule spent_spend [rotated])
  then have "spent d' h" "ok d'"
    using assms spent_stays evolves_ok ok_spend by blast+
  then show ?thesis by (rule spent_not_found [rotated])
qed

text \<open>The table implements the abstract machine, at any fixed time.\<close>

definition view :: "millis \<Rightarrow> 'd \<Rightarrow> string set \<times> (string \<Rightarrow> 'r option)" where
  "view now d = (dom (row_of d), lookup now d)"

lemma view_spend:
  assumes "ok d" and "row_of d h = Some r"
  shows "view now (spend d r) = (dom (row_of d), (lookup now d)(h := None))"
  using assms row_spend [OF assms] ok_spend [OF assms(1), of r]
  by (auto simp: view_def lookup_row fun_eq_iff not_live_mark split: if_splits)

lemma view_issue:
  assumes "ok d" and "issue a d h = Inr d'"
  shows "h \<notin> dom (row_of d)"
    and "view now d' = (insert h (dom (row_of d)),
      (lookup now d)(h := if live now (fresh a h) then Some (fresh a h) else None))"
proof -
  show "h \<notin> dom (row_of d)" using assms(2) issue_taken [of d h _ a] by auto
  show "view now d' = (insert h (dom (row_of d)),
      (lookup now d)(h := if live now (fresh a h) then Some (fresh a h) else None))"
    using assms row_issue [OF assms] ok_issue [OF assms]
    by (auto simp: view_def lookup_row fun_eq_iff)
qed

lemma evolves_refines:
  assumes "evolves d d'" and "ok d"
  shows "token_step\<^sup>*\<^sup>* (view now d) (view now d')"
  using assms
proof (induction rule: evolves.induct)
  case (evolves_frame d d' d'')
  then have "ok d'" using evolves_ok by blast
  with evolves_frame have "view now d'' = view now d'"
    by (auto simp: view_def frame_def lookup_row fun_eq_iff)
  with evolves_frame show ?case by simp
next
  case (evolves_spend d d' h r)
  then have "ok d'" using evolves_ok by blast
  have "h \<in> dom (row_of d')" using evolves_spend.hyps(2) by blast
  then have "token_step (view now d') (view now (spend d' r))"
    by (simp add: view_spend [OF \<open>ok d'\<close> evolves_spend.hyps(2)]) (simp add: view_def token_step.revoke)
  with evolves_spend show ?case by (meson rtranclp.rtrancl_into_rtrancl)
next
  case (evolves_issue d d' a h d'')
  then have "ok d'" using evolves_ok by blast
  then have "token_step (view now d') (view now d'')"
    using view_issue [OF _ evolves_issue.hyps(2)] by (simp add: view_def token_step.mint)
  with evolves_issue show ?case by (meson rtranclp.rtrancl_into_rtrancl)
qed simp

lemma issued_is_found:
  "ok d \<Longrightarrow> issue a d h = Inr d' \<Longrightarrow> live now (fresh a h) \<Longrightarrow> lookup now d' h = Some (fresh a h)"
  by (simp add: lookup_row ok_issue row_issue)

end

section \<open>Refresh tokens\<close>

definition refresh_row :: "store \<Rightarrow> string \<Rightarrow> refresh_token option" where
  "refresh_row d h = find_row (\<lambda>t. rt_token_hash t = h) (refresh_tokens d)"

definition refresh_live :: "millis \<Rightarrow> refresh_token \<Rightarrow> bool" where
  "refresh_live now t \<longleftrightarrow> \<not> rt_used t \<and> rt_expires_at t > now"

definition spend_refresh :: "store \<Rightarrow> refresh_token \<Rightarrow> store" where
  "spend_refresh d r =
     d\<lparr>refresh_tokens := update_where (\<lambda>t. rt_id t = rt_id r) (\<lambda>t. t\<lparr>rt_used := True\<rparr>) (refresh_tokens d)\<rparr>"

definition issue_refresh :: "millis \<times> uuid \<times> uuid \<times> millis \<Rightarrow> store \<Rightarrow> string \<Rightarrow> store result" where
  "issue_refresh a d h = (case a of (now, i, u, x) \<Rightarrow> insertRefreshToken now i d u h x)"

definition fresh_refresh :: "millis \<times> uuid \<times> uuid \<times> millis \<Rightarrow> string \<Rightarrow> refresh_token" where
  "fresh_refresh a h = (case a of (now, i, u, x) \<Rightarrow> new_refresh_token now i u h x)"

text \<open>Generic table facts for a token table with unique identifiers and hashes.\<close>

lemma find_live_row:
  assumes "distinct (map k rs)"
  shows "find_row (\<lambda>t. k t = h \<and> P t) rs =
    (case find_row (\<lambda>t. k t = h) rs of None \<Rightarrow> None | Some r \<Rightarrow> if P r then Some r else None)"
  using assms
proof (induction rs)
  case (Cons r rs)
  have "k r = h \<Longrightarrow> find_row (\<lambda>t. k t = h \<and> P t) rs = None"
    using Cons.prems by (simp add: find_row_None_iff) (metis image_eqI)
  with Cons show ?case by auto
qed simp

lemma row_update_by_id:
  assumes "distinct (map i rs)" and "distinct (map k rs)" and "find_row (\<lambda>t. k t = h) rs = Some r"
    and "\<And>t. k (f t) = k t"
  shows "(\<lambda>h'. find_row (\<lambda>t. k t = h') (update_where (\<lambda>t. i t = i r) f rs)) =
    (\<lambda>h'. find_row (\<lambda>t. k t = h') rs)(h \<mapsto> f r)"
proof
  fix h'
  have r: "r \<in> set rs" "k r = h" using find_row_SomeD [OF assms(3)] by simp_all
  have "find_row (\<lambda>t. k t = h') (update_where (\<lambda>t. i t = i r) f rs) =
      map_option (\<lambda>t. if i t = i r then f t else t) (find_row (\<lambda>t. k t = h') rs)"
    by (rule find_row_update_where) (simp add: assms(4))
  moreover have "find_row (\<lambda>t. k t = h') rs = Some t \<Longrightarrow> i t = i r \<longleftrightarrow> h' = h" for t
    using assms(3) r distinct_map_eqD [OF assms(1) _ r(1)] by (auto dest: find_row_SomeD)
  ultimately show "find_row (\<lambda>t. k t = h') (update_where (\<lambda>t. i t = i r) f rs) =
      ((\<lambda>h'. find_row (\<lambda>t. k t = h') rs)(h \<mapsto> f r)) h'"
    using assms(3) by (cases "h' = h"; cases "find_row (\<lambda>t. k t = h') rs") auto
qed

lemma row_insert:
  assumes "insert_row cs r rs = Inr rs'" and "((\<lambda>t. Some [k t]), n) \<in> set cs"
  shows "(\<lambda>h'. find_row (\<lambda>t. k t = h') rs') = (\<lambda>h'. find_row (\<lambda>t. k t = h') rs)(k r \<mapsto> r)"
proof -
  have rs: "rs' = rs @ [r]" by (rule insert_row_SomeD(1) [OF assms(1)])
  have "Some [k r] \<notin> set (map (\<lambda>t. Some [k t]) rs)"
    using insert_row_SomeD(2) [OF assms] by simp
  then have "find_row (\<lambda>t. k t = k r) rs = None" by (auto simp: find_row_None_iff image_iff)
  then show ?thesis by (auto simp: rs fun_eq_iff find_row_append split: option.split)
qed

lemma row_insert_taken:
  assumes "find_row (\<lambda>t. k t = k r) rs = Some s" and "((\<lambda>t. Some [k t]), n) \<in> set cs"
  shows "\<exists>err. insert_row cs r rs = Inl err"
proof (rule ccontr)
  assume "\<nexists>err. insert_row cs r rs = Inl err"
  then obtain rs' where "insert_row cs r rs = Inr rs'" by (cases "insert_row cs r rs") auto
  from insert_row_SomeD(2) [OF this assms(2)] have "Some [k r] \<notin> (\<lambda>t. Some [k t]) ` set rs" by simp
  moreover have "s \<in> set rs" and "Some [k r] = Some [k s]" using find_row_SomeD [OF assms(1)] by simp_all
  ultimately show False by blast
qed

lemma store_ok_spend_refresh: "store_ok d \<Longrightarrow> store_ok (spend_refresh d r)"
  unfolding store_ok_def spend_refresh_def
  by (auto intro!: unique_rows_update simp: refresh_constraints_def)

interpretation refresh: one_time_tokens store_ok refresh_row refresh_live
  "\<lambda>t. t\<lparr>rt_used := True\<rparr>" fresh_refresh findRefreshTokenByHash spend_refresh issue_refresh
proof
  fix d now h
  show "store_ok d \<Longrightarrow> findRefreshTokenByHash now d h =
      (case refresh_row d h of None \<Rightarrow> None | Some r \<Rightarrow> if refresh_live now r then Some r else None)"
    unfolding findRefreshTokenByHash_def refresh_row_def refresh_live_def
    by (rule find_live_row) (rule store_ok_keys)
next
  fix d h r
  assume "store_ok d" and "refresh_row d h = Some r"
  then show "refresh_row (spend_refresh d r) = (refresh_row d)(h \<mapsto> r\<lparr>rt_used := True\<rparr>)"
    using row_update_by_id [OF store_ok_keys(10,11), of d h r "\<lambda>t. t\<lparr>rt_used := True\<rparr>"]
    by (simp add: refresh_row_def [abs_def] spend_refresh_def)
next
  fix d a h d'
  assume "issue_refresh a d h = Inr d'"
  then show "refresh_row d' = (refresh_row d)(h \<mapsto> fresh_refresh a h)"
    by (auto simp: issue_refresh_def insertRefreshToken_def refresh_row_def fresh_refresh_def fun_eq_iff
        refresh_constraints_def new_refresh_token_def map_sum_def
        dest!: row_insert [of _ _ _ _ rt_token_hash] split: prod.splits sum.splits)
next
  fix d h r a
  assume "refresh_row d h = Some r"
  then show "\<exists>err. issue_refresh a d h = Inl err"
    using row_insert_taken [of rt_token_hash "fresh_refresh a h" "refresh_tokens d" r
        "''refresh_tokens_token_hash''" refresh_constraints]
    by (cases a) (auto simp: issue_refresh_def insertRefreshToken_def refresh_row_def fresh_refresh_def
        new_refresh_token_def refresh_constraints_def)
qed (auto simp: refresh_live_def issue_refresh_def split: prod.splits
    intro: store_ok_spend_refresh insert_refresh_ok)

end
