(* ===== verification/Refresh.thy ===== *)
theory Refresh
  imports Tokens
begin

text \<open>
  \<open>services/auth/refresh.service.ts\<close> and the logout handler. Rotation reads the token and the
  user first and writes in a transaction afterwards; the two halves are separate definitions,
  because other requests can run between them.
\<close>

definition rotate_find :: "libs \<Rightarrow> ctx \<Rightarrow> string \<Rightarrow> sys \<Rightarrow> (refresh_token \<times> user) result" where
  "rotate_find L cx inboundRawToken s =
     (case findRefreshTokenByHash (cx_now cx) (db s) (hashSHA256 L inboundRawToken) of
        None \<Rightarrow> throw (AuthError ''Refresh token is missing, expired, or already used'' ''UNAUTHORIZED'')
      | Some existing \<Rightarrow>
          (case findUserById (db s) (rt_user_id existing) of
             None \<Rightarrow> throw (AuthError ''User not found'' ''UNAUTHORIZED'')
           | Some user \<Rightarrow> Inr (existing, user)))"

definition rotate_commit :: "libs \<Rightarrow> env \<Rightarrow> ctx \<Rightarrow> refresh_token \<times> user \<Rightarrow> session op" where
  "rotate_commit L e cx found s =
     (let (existing, user) = found;
          newRawToken = generateRefreshToken (cx_bytes cx);
          newTokenHash = hashSHA256 L newRawToken;
          expiresAt = cx_now cx + REFRESH_TOKEN_TTL_MS
      in case insertRefreshToken (cx_now cx) (cx_id cx 0) (spend_refresh (db s) existing)
                (u_user_id user) newTokenHash expiresAt of
           Inl err \<Rightarrow> (Inl err, s)
         | Inr d \<Rightarrow>
             (Inr \<lparr>sessionToken = signJwt L e (cx_now cx) (session_payload user), refreshToken = newRawToken\<rparr>,
              s\<lparr>db := d\<rparr>))"

definition rotateRefreshToken :: "libs \<Rightarrow> env \<Rightarrow> ctx \<Rightarrow> string \<Rightarrow> session op" where
  "rotateRefreshToken L e cx inboundRawToken s =
     (case rotate_find L cx inboundRawToken s of
        Inl err \<Rightarrow> (Inl err, s)
      | Inr found \<Rightarrow> rotate_commit L e cx found s)"

text \<open>\<open>controllers/auth/logout.controller.ts\<close>\<close>

definition logout :: "libs \<Rightarrow> string option \<Rightarrow> sys \<Rightarrow> sys" where
  "logout L refreshCookie s =
     (case refreshCookie of
        None \<Rightarrow> s
      | Some t \<Rightarrow>
          if t = [] then s
          else s\<lparr>db := markRefreshTokenUsedByHash (db s) (hashSHA256 L t)\<rparr>)"

section \<open>How the refresh tokens change\<close>

lemma frame_refresh_db:
  "store_ok d' \<Longrightarrow> refresh_tokens d' = refresh_tokens d \<Longrightarrow> refresh.frame d d'"
  unfolding refresh.frame_def by (simp add: refresh_row_def fun_eq_iff)

lemma rotate_commit_evolves:
  assumes "refresh_row (db s) h = Some (fst found)"
  shows "refresh.evolves (db s) (db (snd (rotate_commit L e cx found s)))"
proof (cases "insertRefreshToken (cx_now cx) (cx_id cx 0) (spend_refresh (db s) (fst found))
    (u_user_id (snd found)) (hashSHA256 L (generateRefreshToken (cx_bytes cx)))
    (cx_now cx + REFRESH_TOKEN_TTL_MS)")
  case (Inl err)
  then show ?thesis
    by (simp add: rotate_commit_def case_prod_beta Let_def refresh.evolves_refl)
next
  case (Inr d)
  have "refresh.evolves (db s) (spend_refresh (db s) (fst found))"
    by (rule refresh.evolves_spend [OF refresh.evolves_refl assms])
  moreover have "issue_refresh (cx_now cx, cx_id cx 0, u_user_id (snd found), cx_now cx + REFRESH_TOKEN_TTL_MS)
      (spend_refresh (db s) (fst found)) (hashSHA256 L (generateRefreshToken (cx_bytes cx))) = Inr d"
    using Inr by (simp add: issue_refresh_def)
  ultimately show ?thesis
    using Inr by (simp add: rotate_commit_def case_prod_beta Let_def refresh.evolves_issue)
qed

lemma rotate_find_SomeD:
  assumes "rotate_find L cx raw s = Inr (existing, user)"
  shows "findRefreshTokenByHash (cx_now cx) (db s) (hashSHA256 L raw) = Some existing"
    and "findUserById (db s) (rt_user_id existing) = Some user"
  using assms by (auto simp: rotate_find_def split: option.splits)

lemma find_refresh_row:
  "store_ok d \<Longrightarrow> findRefreshTokenByHash now d h = Some r \<Longrightarrow> refresh_row d h = Some r"
  by (auto simp: refresh.lookup_row split: option.splits if_splits)

lemma rotate_evolves:
  assumes "store_ok (db s)"
  shows "refresh.evolves (db s) (db (snd (rotateRefreshToken L e cx raw s)))"
proof (cases "rotate_find L cx raw s")
  case (Inr found)
  then have "refresh_row (db s) (hashSHA256 L raw) = Some (fst found)"
    using rotate_find_SomeD(1) [of L cx raw s "fst found" "snd found"] find_refresh_row assms by simp
  then show ?thesis by (simp add: rotateRefreshToken_def Inr rotate_commit_evolves)
qed (simp add: rotateRefreshToken_def refresh.evolves_refl)

text \<open>Marking by hash spends the row with that hash, if there is one.\<close>

lemma mark_used_spends:
  assumes "store_ok d"
  shows "markRefreshTokenUsedByHash d h =
    (case refresh_row d h of None \<Rightarrow> d | Some r \<Rightarrow> if rt_used r then d else spend_refresh d r)"
proof (cases "refresh_row d h")
  case None
  then have "update_where (\<lambda>t. rt_token_hash t = h \<and> \<not> rt_used t) (\<lambda>t. t\<lparr>rt_used := True\<rparr>) (refresh_tokens d) =
      refresh_tokens d"
    by (intro update_where_none) (auto simp: refresh_row_def find_row_None_iff)
  then show ?thesis by (simp add: markRefreshTokenUsedByHash_def None)
next
  case (Some r)
  then have r: "r \<in> set (refresh_tokens d)" "rt_token_hash r = h"
    by (auto simp: refresh_row_def dest: find_row_SomeD)
  have same: "(rt_token_hash t = h \<and> \<not> rt_used t) = (\<not> rt_used r \<and> rt_id t = rt_id r)"
    if t: "t \<in> set (refresh_tokens d)" for t
  proof -
    have "rt_token_hash t = h \<Longrightarrow> t = r" and "rt_id t = rt_id r \<Longrightarrow> t = r"
      using distinct_map_eqD [OF store_ok_keys(11) [OF assms] t r(1)]
        distinct_map_eqD [OF store_ok_keys(10) [OF assms] t r(1)] r(2) by simp_all
    then show ?thesis using r(2) by blast
  qed
  have "update_where (\<lambda>t. rt_token_hash t = h \<and> \<not> rt_used t) (\<lambda>t. t\<lparr>rt_used := True\<rparr>) (refresh_tokens d) =
      update_where (\<lambda>t. \<not> rt_used r \<and> rt_id t = rt_id r) (\<lambda>t. t\<lparr>rt_used := True\<rparr>) (refresh_tokens d)"
    by (rule update_where_cong) (rule same)
  then show ?thesis
    by (cases "rt_used r") (simp_all add: markRefreshTokenUsedByHash_def spend_refresh_def Some)
qed

lemma logout_evolves:
  assumes "store_ok (db s)"
  shows "refresh.evolves (db s) (db (logout L cookie s))"
  using assms
  by (auto simp: logout_def mark_used_spends refresh.evolves_refl
      intro: refresh.evolves_spend [OF refresh.evolves_refl] split: option.splits)

end
