(* ===== verification/Auth.thy ===== *)
theory Auth
  imports Tokens
begin

text \<open>
  \<open>services/auth/auth.service.ts\<close> (login with a password, registration with an invitation) and
  \<open>services/auth/google-auth.service.ts\<close>. Both admit an invited user after the same checks
  (\<open>invitation_gate\<close>).
\<close>

section \<open>Invitations\<close>

definition org_suspended :: "organisation option \<Rightarrow> bool" where
  "org_suspended org \<longleftrightarrow> (case org of None \<Rightarrow> False | Some g \<Rightarrow> o_status g = SUSPENDED)"

definition user_limit_of :: "organisation option \<Rightarrow> int" where
  "user_limit_of org = (case org of None \<Rightarrow> 0 | Some g \<Rightarrow> o_user_limit g)"

definition invitation_gate :: "libs \<Rightarrow> ctx \<Rightarrow> string \<Rightarrow> store \<Rightarrow> invitation result" where
  "invitation_gate L cx invitationToken d =
     (case findInvitationByTokenHash (cx_now cx) d (hashSHA256 L invitationToken) of
        None \<Rightarrow> throw (GoneError ''Invitation not found or expired'' ''GONE'')
      | Some invitation \<Rightarrow>
          let org = findOrgById d (Some (inv_org_id invitation)) in
          if org_suspended org then throw (ForbiddenError ''Organisation is suspended'' ''ORG_SUSPENDED'')
          else if countActiveUsersByOrg d (inv_org_id invitation) \<ge> user_limit_of org
          then throw (ForbiddenError ''Organisation has reached its user limit'' ''USER_LIMIT_REACHED'')
          else Inr invitation)"

definition invited_user :: "invitation \<Rightarrow> string \<Rightarrow> string option \<Rightarrow> string option \<Rightarrow> user_data" where
  "invited_user invitation email passwordHash googleSub =
     \<lparr>ud_email = email, ud_password_hash = passwordHash, ud_google_sub = googleSub,
      ud_org_id = Some (inv_org_id invitation), ud_role = inv_role invitation,
      ud_invited_by = Some (inv_invited_by invitation), ud_status = UserACTIVE, ud_mfa_enabled = False\<rparr>"

section \<open>Passwords\<close>

definition FAILED_ATTEMPT_LIMIT :: int where "FAILED_ATTEMPT_LIMIT = 10"
definition FAILED_ATTEMPT_WINDOW_MS :: millis where "FAILED_ATTEMPT_WINDOW_MS = 5 * 60 * 1000"

interpretation login_limit: attempt_limiter FAILED_ATTEMPT_LIMIT FAILED_ATTEMPT_WINDOW_MS "\<lambda>m. m"
  "check_attempts FAILED_ATTEMPT_LIMIT FAILED_ATTEMPT_WINDOW_MS" fail_attempt clear_attempts
  by (rule limiter_laws) (simp_all add: FAILED_ATTEMPT_LIMIT_def FAILED_ATTEMPT_WINDOW_MS_def)

definition DUMMY_BCRYPT_HASH :: string where
  "DUMMY_BCRYPT_HASH = ''$2b$12$NSn./ejYQlDB4Zk/lv6jDe7BGv36mxAIVmq6HhRxztRlNuUIdgWC2''"

definition resetFailedAttempts :: "sys \<Rightarrow> sys" where
  "resetFailedAttempts s = s\<lparr>emailFailedAttempts := (\<lambda>k. None)\<rparr>"

definition handleInvitedUserRegistration :: "libs \<Rightarrow> env \<Rightarrow> ctx \<Rightarrow> string \<Rightarrow> string \<Rightarrow> string \<Rightarrow> unit op" where
  "handleInvitedUserRegistration L e cx email password invitationToken s =
     (case invitation_gate L cx invitationToken (db s) of
        Inl err \<Rightarrow> (Inl err, s)
      | Inr invitation \<Rightarrow>
          let passwordHash = bcrypt_hash L (cx_salt cx) 12 password in
          (case acceptInvitationAndCreateUser (cx_now cx) (cx_id cx 0) (db s) invitation
                  (invited_user invitation email (Some passwordHash) None) of
             Inl err \<Rightarrow> (Inl err, s)
           | Inr (_, d) \<Rightarrow> issue_otp L e cx (cx_id cx 1) email (s\<lparr>db := d\<rparr>)))"

definition handleReturningUserLogin :: "libs \<Rightarrow> env \<Rightarrow> ctx \<Rightarrow> string \<Rightarrow> string \<Rightarrow> unit op" where
  "handleReturningUserLogin L e cx email password s =
     (let emailKey = toLowerCase email in
      case check_attempts FAILED_ATTEMPT_LIMIT FAILED_ATTEMPT_WINDOW_MS (cx_now cx) emailKey
             (emailFailedAttempts s) of
        Inl retryAfterSec \<Rightarrow>
          (throw (RateLimitError ''Too many failed login attempts. Try again later.''
             ''RATE_LIMIT_EXCEEDED'' (Some retryAfterSec)), s)
      | Inr m \<Rightarrow>
          let user = findUserByEmail (db s) email;
              hashToCompare = (case user of None \<Rightarrow> DUMMY_BCRYPT_HASH
                | Some u \<Rightarrow> (case u_password_hash u of None \<Rightarrow> DUMMY_BCRYPT_HASH | Some h \<Rightarrow> h));
              match = bcrypt_compare L password hashToCompare
          in if \<not> match \<or> user = None
             then (throw (AuthError ''Invalid credentials'' ''INVALID_CREDENTIALS''),
                   s\<lparr>emailFailedAttempts := fail_attempt (cx_now cx) emailKey m\<rparr>)
             else issue_otp L e cx (cx_id cx 0) email
                    (s\<lparr>emailFailedAttempts := clear_attempts emailKey m\<rparr>))"

definition createEmailPasswordSession ::
    "libs \<Rightarrow> env \<Rightarrow> ctx \<Rightarrow> string \<Rightarrow> string \<Rightarrow> string option \<Rightarrow> unit op" where
  "createEmailPasswordSession L e cx email password invitationToken s =
     (case invitationToken of
        Some t \<Rightarrow>
          if t \<noteq> [] then handleInvitedUserRegistration L e cx email password t s
          else handleReturningUserLogin L e cx email password s
      | None \<Rightarrow> handleReturningUserLogin L e cx email password s)"

text \<open>What a login by password does to the map of failed attempts is one guarded attempt.\<close>

definition password_matches :: "libs \<Rightarrow> store \<Rightarrow> string \<Rightarrow> string \<Rightarrow> bool" where
  "password_matches L d email password \<longleftrightarrow>
     (case findUserByEmail d email of
        None \<Rightarrow> False
      | Some u \<Rightarrow>
          bcrypt_compare L password (case u_password_hash u of None \<Rightarrow> DUMMY_BCRYPT_HASH | Some h \<Rightarrow> h))"

lemma issue_otp_attempts [simp]:
  "emailFailedAttempts (snd (issue_otp L e cx i email s)) = emailFailedAttempts s"
  "confirmFailedAttempts (snd (issue_otp L e cx i email s)) = confirmFailedAttempts s"
  by (simp_all add: issue_otp_def sendOtpEmail_def Let_def split: sum.split option.split)

lemma login_attempt:
  "emailFailedAttempts (snd (handleReturningUserLogin L e cx email password s)) =
     snd (login_limit.attempt (cx_now cx) (toLowerCase email) (password_matches L (db s) email password)
       (emailFailedAttempts s))"
  by (auto simp: handleReturningUserLogin_def login_limit.attempt_def password_matches_def Let_def
      split: sum.split option.split)

text \<open>The answer: limited, refused, or a code is on its way.\<close>

lemma login_answer:
  "fst (handleReturningUserLogin L e cx email password s) =
     (if \<not> fst (login_limit.attempt (cx_now cx) (toLowerCase email) (password_matches L (db s) email password)
          (emailFailedAttempts s))
      then throw (RateLimitError ''Too many failed login attempts. Try again later.'' ''RATE_LIMIT_EXCEEDED''
        (Some (projl (check_attempts FAILED_ATTEMPT_LIMIT FAILED_ATTEMPT_WINDOW_MS (cx_now cx) (toLowerCase email)
          (emailFailedAttempts s)))))
      else if \<not> password_matches L (db s) email password
      then throw (AuthError ''Invalid credentials'' ''INVALID_CREDENTIALS'')
      else fst (issue_otp L e cx (cx_id cx 0) email
        (s\<lparr>emailFailedAttempts := clear_attempts (toLowerCase email) (projr (check_attempts FAILED_ATTEMPT_LIMIT
          FAILED_ATTEMPT_WINDOW_MS (cx_now cx) (toLowerCase email) (emailFailedAttempts s)))\<rparr>)))"
  by (auto simp: handleReturningUserLogin_def login_limit.attempt_def password_matches_def Let_def
      split: sum.split option.split)

section \<open>Google accounts\<close>

text \<open>The user a verified Google account belongs to: by its subject, or by its address when that user has no Google account yet.\<close>

definition google_user :: "google_payload \<Rightarrow> store \<Rightarrow> (user option \<times> store) result" where
  "google_user p d =
     (case findUserByGoogleSub d (gp_sub p) of
        Some u \<Rightarrow> Inr (Some u, d)
      | None \<Rightarrow>
          (case findUserByEmail d (gp_email p) of
             None \<Rightarrow> Inr (None, d)
           | Some existingUser \<Rightarrow>
               if u_google_sub existingUser = None
               then (case updateUserGoogleSub d (u_user_id existingUser) (gp_sub p) of
                       Inl err \<Rightarrow> Inl err
                     | Inr d' \<Rightarrow> Inr (Some (existingUser\<lparr>u_google_sub := Some (gp_sub p)\<rparr>), d'))
               else Inr (None, d)))"

definition google_register ::
    "libs \<Rightarrow> ctx \<Rightarrow> google_payload \<Rightarrow> string option \<Rightarrow> store \<Rightarrow> (user \<times> store) result" where
  "google_register L cx p invitationToken d =
     (if \<not> truthy invitationToken
      then throw (ForbiddenError ''No invitation found for this account'' ''NO_INVITATION'')
      else case invitation_gate L cx (the invitationToken) d of
        Inl err \<Rightarrow> Inl err
      | Inr invitation \<Rightarrow>
          acceptInvitationAndCreateUser (cx_now cx) (cx_id cx 0) d invitation
            (invited_user invitation (gp_email p) None (Some (gp_sub p))))"

definition google_session :: "libs \<Rightarrow> env \<Rightarrow> ctx \<Rightarrow> user \<Rightarrow> (session \<times> jwt_payload) op" where
  "google_session L e cx user s =
     (if org_suspended (findOrgById (db s) (u_org_id user))
      then (throw (ForbiddenError ''Organisation is suspended'' ''ORG_SUSPENDED''), s)
      else case issue_session L e cx (cx_id cx 1) (u_user_id user) (session_payload user) s of
        (Inl err, s') \<Rightarrow> (Inl err, s')
      | (Inr sn, s') \<Rightarrow> (Inr (sn, session_payload user), s'))"

definition createGoogleSession ::
    "libs \<Rightarrow> env \<Rightarrow> ctx \<Rightarrow> string \<Rightarrow> string option \<Rightarrow> (session \<times> jwt_payload) op" where
  "createGoogleSession L e cx idToken invitationToken s =
     (case cx_google cx idToken of
        None \<Rightarrow> (throw (AuthError ''Invalid or expired Google ID token'' ''UNAUTHORIZED''), s)
      | Some p \<Rightarrow>
          if \<not> gp_email_verified p
          then (throw (AuthError ''Google account email is not verified'' ''UNAUTHORIZED''), s)
          else (case google_user p (db s) of
             Inl err \<Rightarrow> (Inl err, s)
           | Inr (Some user, d) \<Rightarrow> google_session L e cx user (s\<lparr>db := d\<rparr>)
           | Inr (None, d) \<Rightarrow>
               (case google_register L cx p invitationToken d of
                  Inl err \<Rightarrow> (Inl err, s\<lparr>db := d\<rparr>)
                | Inr (user, d') \<Rightarrow> google_session L e cx user (s\<lparr>db := d'\<rparr>))))"

end
