(* ===== verification/Otp.thy ===== *)
theory Otp
  imports Auth
begin

text \<open>
  \<open>services/auth/otp.service.ts\<close>: the second step of a login by password, which exchanges a
  one-time code for a session.
\<close>

definition OTP_ATTEMPT_LIMIT :: int where "OTP_ATTEMPT_LIMIT = 5"

datatype otp_verify_result = MfaRequired | Authenticated session jwt_payload

text \<open>\<open>crypto.timingSafeEqual\<close> throws on buffers of different lengths.\<close>

definition timingSafeEqual :: "byte list \<Rightarrow> byte list \<Rightarrow> bool result" where
  "timingSafeEqual a b =
     (if length a \<noteq> length b
      then Inl (Native ''Input buffers must have the same byte length'' (Some ''ERR_CRYPTO_TIMING_SAFE_EQUAL_LENGTH''))
      else Inr (a = b))"

text \<open>What follows a matching code, with the token already marked used.\<close>

definition otp_session :: "libs \<Rightarrow> env \<Rightarrow> ctx \<Rightarrow> string \<Rightarrow> otp_verify_result op" where
  "otp_session L e cx email s =
     (case findUserByEmail (db s) email of
        None \<Rightarrow> (throw (AuthError ''Invalid or expired OTP'' ''INVALID_OTP''), s)
      | Some user \<Rightarrow>
          if u_status user \<noteq> UserACTIVE
          then (throw (AuthError ''Invalid or expired OTP'' ''INVALID_OTP''), s)
          else if org_suspended (findOrgById (db s) (u_org_id user))
          then (throw (ForbiddenError ''Organisation is suspended'' ''ORG_SUSPENDED''), s)
          else if u_mfa_enabled user then (Inr MfaRequired, s)
          else (case issue_session L e cx (cx_id cx 0) (u_user_id user) (session_payload user) s of
              (Inl err, s') \<Rightarrow> (Inl err, s')
            | (Inr sn, s') \<Rightarrow> (Inr (Authenticated sn (session_payload user)), s')))"

definition verifyOtp :: "libs \<Rightarrow> env \<Rightarrow> ctx \<Rightarrow> string \<Rightarrow> string \<Rightarrow> otp_verify_result op" where
  "verifyOtp L e cx email otp s =
     (case findLatestOtpToken (cx_now cx) (db s) (hashSHA256 L (toLowerCase email)) of
        None \<Rightarrow> (throw (AuthError ''Invalid or expired OTP'' ''INVALID_OTP''), s)
      | Some token \<Rightarrow>
          if otp_attempts token \<ge> OTP_ATTEMPT_LIMIT
          then (throw (RateLimitError ''Too many OTP attempts. Request a new code.''
                  ''RATE_LIMIT_EXCEEDED'' None), s)
          else (case timingSafeEqual (from_hex (otp_hash token)) (from_hex (hashSHA256 L otp)) of
              Inl err \<Rightarrow> (Inl err, s)
            | Inr match \<Rightarrow>
                if \<not> match
                then (throw (AuthError ''Invalid OTP'' ''INVALID_OTP''),
                      s\<lparr>db := incrementOtpAttempts (db s) (otp_id token)\<rparr>)
                else otp_session L e cx email (s\<lparr>db := markOtpTokenUsed (db s) (otp_id token)\<rparr>)))"

definition resendOtp :: "libs \<Rightarrow> env \<Rightarrow> ctx \<Rightarrow> string \<Rightarrow> unit op" where
  "resendOtp L e cx email s =
     (case findLatestOtpToken (cx_now cx) (db s) (hashSHA256 L (toLowerCase email)) of
        None \<Rightarrow> (Inr (), s)
      | Some existingToken \<Rightarrow>
          issue_otp L e cx (cx_id cx 0) email (s\<lparr>db := markOtpTokenUsed (db s) (otp_id existingToken)\<rparr>))"

end
