(* ===== verification/PasswordReset.thy ===== *)
theory PasswordReset
  imports Tokens
begin

text \<open>
  \<open>services/auth/password-reset.service.ts\<close>: a reset code is mailed, and exchanged for a new
  password. The token of a code is the hash of the address and the code together.
\<close>

definition CONFIRM_ATTEMPT_LIMIT :: int where "CONFIRM_ATTEMPT_LIMIT = 5"
definition CONFIRM_ATTEMPT_WINDOW_MS :: millis where "CONFIRM_ATTEMPT_WINDOW_MS = 5 * 60 * 1000"
definition OTP_EXPIRY_MS :: millis where "OTP_EXPIRY_MS = 10 * 60 * 1000"

interpretation confirm_limit: attempt_limiter CONFIRM_ATTEMPT_LIMIT CONFIRM_ATTEMPT_WINDOW_MS "\<lambda>m. m"
  "check_attempts CONFIRM_ATTEMPT_LIMIT CONFIRM_ATTEMPT_WINDOW_MS" fail_attempt clear_attempts
  by (rule limiter_laws) (simp_all add: CONFIRM_ATTEMPT_LIMIT_def CONFIRM_ATTEMPT_WINDOW_MS_def)

definition resetConfirmAttempts :: "sys \<Rightarrow> sys" where
  "resetConfirmAttempts s = s\<lparr>confirmFailedAttempts := (\<lambda>k. None)\<rparr>"

definition requestReset :: "libs \<Rightarrow> env \<Rightarrow> ctx \<Rightarrow> string \<Rightarrow> unit op" where
  "requestReset L e cx email s =
     (case findUserByEmail (db s) email of
        None \<Rightarrow> (Inr (), s)
      | Some user \<Rightarrow>
          if u_password_hash user = None then (Inr (), s)
          else
            let otp = generate_otp e cx;
                tokenHash = hashSHA256 L (toLowerCase email @ otp);
                expiresAt = cx_now cx + OTP_EXPIRY_MS
            in (case insertPasswordResetToken (cx_now cx) (cx_id cx 0) (db s) (u_user_id user) tokenHash expiresAt of
                  Inl err \<Rightarrow> (Inl err, s)
                | Inr d \<Rightarrow> sendPasswordResetEmail e cx email otp (s\<lparr>db := d\<rparr>)))"

definition confirmReset :: "libs \<Rightarrow> ctx \<Rightarrow> string \<Rightarrow> string \<Rightarrow> string \<Rightarrow> unit op" where
  "confirmReset L cx email otp newPassword s =
     (let emailKey = toLowerCase email in
      case check_attempts CONFIRM_ATTEMPT_LIMIT CONFIRM_ATTEMPT_WINDOW_MS (cx_now cx) emailKey
             (confirmFailedAttempts s) of
        Inl retryAfterSec \<Rightarrow>
          (throw (RateLimitError ''Too many password reset attempts. Try again later.''
             ''RATE_LIMIT_EXCEEDED'' (Some retryAfterSec)), s)
      | Inr m \<Rightarrow>
          (case findPasswordResetToken (cx_now cx) (db s) (hashSHA256 L (emailKey @ otp)) of
             None \<Rightarrow>
               (throw (GoneError ''Reset code not found or expired'' ''GONE''),
                s\<lparr>confirmFailedAttempts := fail_attempt (cx_now cx) emailKey m\<rparr>)
           | Some token \<Rightarrow>
               let s' = s\<lparr>confirmFailedAttempts := clear_attempts emailKey m\<rparr> in
               (case findUserByEmail (db s') email of
                  None \<Rightarrow> (throw (ForbiddenError ''Password reset is not available for this account'' ''FORBIDDEN''), s')
                | Some user \<Rightarrow>
                    if u_password_hash user = None
                    then (throw (ForbiddenError ''Password reset is not available for this account'' ''FORBIDDEN''), s')
                    else
                      let passwordHash = bcrypt_hash L (cx_salt cx) 12 newPassword
                      in (Inr (), s'\<lparr>db := applyPasswordReset (db s') (u_user_id user) (prt_token_id token) passwordHash\<rparr>))))"

text \<open>What a confirmation does to the map of failed attempts is one guarded attempt.\<close>

definition code_found :: "libs \<Rightarrow> millis \<Rightarrow> store \<Rightarrow> string \<Rightarrow> string \<Rightarrow> bool" where
  "code_found L now d email otp \<longleftrightarrow>
     findPasswordResetToken now d (hashSHA256 L (toLowerCase email @ otp)) \<noteq> None"

lemma confirm_attempt:
  "confirmFailedAttempts (snd (confirmReset L cx email otp newPassword s)) =
     snd (confirm_limit.attempt (cx_now cx) (toLowerCase email) (code_found L (cx_now cx) (db s) email otp)
       (confirmFailedAttempts s))"
  by (auto simp: confirmReset_def confirm_limit.attempt_def code_found_def Let_def
      split: sum.split option.split)

lemma confirm_limited:
  "(\<exists>n. fst (confirmReset L cx email otp newPassword s) =
     throw (RateLimitError ''Too many password reset attempts. Try again later.'' ''RATE_LIMIT_EXCEEDED'' (Some n))) \<longleftrightarrow>
   \<not> fst (confirm_limit.attempt (cx_now cx) (toLowerCase email) (code_found L (cx_now cx) (db s) email otp)
     (confirmFailedAttempts s))"
  by (auto simp: confirmReset_def confirm_limit.attempt_def Let_def error_defs split: sum.split option.split)

lemma confirm_gone:
  "fst (confirmReset L cx email otp newPassword s) =
     throw (GoneError ''Reset code not found or expired'' ''GONE'') \<longleftrightarrow>
   fst (confirm_limit.attempt (cx_now cx) (toLowerCase email) (code_found L (cx_now cx) (db s) email otp)
     (confirmFailedAttempts s)) \<and> \<not> code_found L (cx_now cx) (db s) email otp"
  by (auto simp: confirmReset_def confirm_limit.attempt_def code_found_def Let_def error_defs
      split: sum.split option.split)

section \<open>Reset tokens are one-time tokens\<close>

definition reset_row :: "store \<Rightarrow> string \<Rightarrow> password_reset_token option" where
  "reset_row d h = find_row (\<lambda>t. prt_token_hash t = h) (reset_tokens d)"

definition reset_live :: "millis \<Rightarrow> password_reset_token \<Rightarrow> bool" where
  "reset_live now t \<longleftrightarrow> \<not> prt_used t \<and> prt_expires_at t > now"

definition spend_reset :: "store \<Rightarrow> password_reset_token \<Rightarrow> store" where
  "spend_reset d r =
     d\<lparr>reset_tokens := update_where (\<lambda>t. prt_token_id t = prt_token_id r) (\<lambda>t. t\<lparr>prt_used := True\<rparr>) (reset_tokens d)\<rparr>"

definition issue_reset :: "millis \<times> uuid \<times> uuid \<times> millis \<Rightarrow> store \<Rightarrow> string \<Rightarrow> store result" where
  "issue_reset a d h = (case a of (now, i, u, x) \<Rightarrow> insertPasswordResetToken now i d u h x)"

definition fresh_reset :: "millis \<times> uuid \<times> uuid \<times> millis \<Rightarrow> string \<Rightarrow> password_reset_token" where
  "fresh_reset a h = (case a of (now, i, u, x) \<Rightarrow>
     \<lparr>prt_token_id = i, prt_user_id = u, prt_token_hash = h, prt_used = False, prt_expires_at = x,
      prt_created_at = now\<rparr>)"

lemma store_ok_spend_reset: "store_ok d \<Longrightarrow> store_ok (spend_reset d r)"
  unfolding store_ok_def spend_reset_def
  by (auto intro!: unique_rows_update simp: reset_constraints_def)

interpretation reset: one_time_tokens store_ok reset_row reset_live
  "\<lambda>t. t\<lparr>prt_used := True\<rparr>" fresh_reset findPasswordResetToken spend_reset issue_reset
proof
  fix d now h
  show "store_ok d \<Longrightarrow> findPasswordResetToken now d h =
      (case reset_row d h of None \<Rightarrow> None | Some r \<Rightarrow> if reset_live now r then Some r else None)"
    unfolding findPasswordResetToken_def reset_row_def reset_live_def
    by (rule find_live_row) (rule store_ok_keys)
next
  fix d h r
  assume "store_ok d" and "reset_row d h = Some r"
  then show "reset_row (spend_reset d r) = (reset_row d)(h \<mapsto> r\<lparr>prt_used := True\<rparr>)"
    using row_update_by_id [OF store_ok_keys(8,9), of d h r "\<lambda>t. t\<lparr>prt_used := True\<rparr>"]
    by (simp add: reset_row_def [abs_def] spend_reset_def)
next
  fix d a h d'
  assume "issue_reset a d h = Inr d'"
  then show "reset_row d' = (reset_row d)(h \<mapsto> fresh_reset a h)"
    by (auto simp: issue_reset_def insertPasswordResetToken_def reset_row_def fresh_reset_def fun_eq_iff
        reset_constraints_def map_sum_def
        dest!: row_insert [of _ _ _ _ prt_token_hash] split: prod.splits sum.splits)
next
  fix d h r a
  assume "reset_row d h = Some r"
  then show "\<exists>err. issue_reset a d h = Inl err"
    using row_insert_taken [of prt_token_hash "fresh_reset a h" "reset_tokens d" r
        "''password_reset_tokens_token_hash''" reset_constraints]
    by (cases a) (auto simp: issue_reset_def insertPasswordResetToken_def reset_row_def fresh_reset_def
        reset_constraints_def)
qed (auto simp: reset_live_def issue_reset_def split: prod.splits
    intro: store_ok_spend_reset insert_reset_ok)

end
