(* ===== verification/Organisations.thy ===== *)
theory Organisations
  imports Auth
begin

text \<open>
  \<open>services/organisation/organisation.service.ts\<close>: signing an organisation up with its first
  administrator. Outside production a timer activates the organisation five seconds later,
  standing in for the payment provider's callback.
\<close>

record create_org_body =
  cb_org_name :: string
  cb_admin_email :: "string option"
  cb_password :: "string option"
  cb_google_id_token :: "string option"

record create_org_result =
  cr_org :: organisation
  cr_stripeCheckoutUrl :: string
  cr_session :: session
  cr_user :: jwt_payload

text \<open>Who the administrator will be: address, password hash and Google subject.\<close>

definition admin_identity ::
    "libs \<Rightarrow> ctx \<Rightarrow> create_org_body \<Rightarrow> (string \<times> string option \<times> string option) result" where
  "admin_identity L cx body =
     (if truthy (cb_google_id_token body)
      then (case cx_google cx (the (cb_google_id_token body)) of
              None \<Rightarrow> throw (AuthError ''Invalid or expired Google ID token'' ''UNAUTHORIZED'')
            | Some p \<Rightarrow>
                if \<not> gp_email_verified p
                then throw (AuthError ''Google account email is not verified'' ''UNAUTHORIZED'')
                else Inr (gp_email p, None, Some (gp_sub p)))
      else (case (cb_admin_email body, cb_password body) of
              (Some email, Some password) \<Rightarrow> Inr (email, Some (bcrypt_hash L (cx_salt cx) 12 password), None)
            | _ \<Rightarrow> Inl (Native ''data and salt arguments required'' None)))"

definition frontend_url :: "env \<Rightarrow> string" where
  "frontend_url e = (case env_FRONTEND_URL e of None \<Rightarrow> ''http://localhost:5173'' | Some u \<Rightarrow> u)"

definition checkout_url :: "env \<Rightarrow> ctx \<Rightarrow> string result" where
  "checkout_url e cx =
     (if skip_ses e then Inr (frontend_url e @ ''/signup/success?session_id=dev_bypass'')
      else map_sum id (\<lambda>u. case u of None \<Rightarrow> [] | Some url \<Rightarrow> url) (cx_checkout cx))"

definition schedule_activation :: "env \<Rightarrow> ctx \<Rightarrow> uuid \<Rightarrow> sys \<Rightarrow> sys" where
  "schedule_activation e cx org_id s =
     (if env_NODE_ENV e \<noteq> Some ''production''
      then s\<lparr>timers := timers s @ [(cx_now cx + 5000, org_id)]\<rparr> else s)"

definition createOrg :: "libs \<Rightarrow> env \<Rightarrow> ctx \<Rightarrow> create_org_body \<Rightarrow> create_org_result op" where
  "createOrg L e cx body s =
     (if findOrgByName (db s) (cb_org_name body) \<noteq> None
      then (throw (ConflictError ''Organisation name already taken'' ''CONFLICT''), s)
      else case admin_identity L cx body of
        Inl err \<Rightarrow> (Inl err, s)
      | Inr (adminEmail, passwordHash, googleSub) \<Rightarrow>
          if findUserByEmail (db s) adminEmail \<noteq> None
          then (throw (ConflictError ''Email already registered'' ''CONFLICT''), s)
          else (case createOrgWithAdmin (cx_now cx) (cx_id cx 0) (cx_id cx 1) (db s)
                 \<lparr>co_orgName = cb_org_name body, co_adminEmail = adminEmail,
                  co_passwordHash = passwordHash, co_googleSub = googleSub\<rparr> of
             Inl err \<Rightarrow> (Inl err, s)
           | Inr ((org, user), d) \<Rightarrow>
               let s' = schedule_activation e cx (o_org_id org) (s\<lparr>db := d\<rparr>) in
               (case checkout_url e cx of
                  Inl err \<Rightarrow> (Inl err, s')
                | Inr url \<Rightarrow>
                    let payload = \<lparr>jp_user_id = u_user_id user, jp_org_id = Some (o_org_id org),
                                   jp_role = u_role user, jp_email = adminEmail\<rparr>
                    in (case issue_session L e cx (cx_id cx 2) (u_user_id user) payload s' of
                          (Inl err, s'') \<Rightarrow> (Inl err, s'')
                        | (Inr sn, s'') \<Rightarrow>
                            (Inr \<lparr>cr_org = org, cr_stripeCheckoutUrl = url, cr_session = sn, cr_user = payload\<rparr>,
                             s'')))))"

text \<open>The timers that are due at an instant fire.\<close>

definition fire_timers :: "millis \<Rightarrow> sys \<Rightarrow> sys" where
  "fire_timers now s =
     s\<lparr>db := foldl (\<lambda>d t. activateOrgById now d (snd t)) (db s) (filter (\<lambda>t. fst t \<le> now) (timers s)),
       timers := filter (\<lambda>t. \<not> fst t \<le> now) (timers s)\<rparr>"

end
