(* ===== verification/Mfa.thy ===== *)
theory Mfa
  imports Auth
begin

text \<open>
  \<open>services/auth/mfa.service.ts\<close>: time-based codes as a second factor. The codes are checked,
  and the secrets and their pictures made, by otplib and qrcode (\<open>totp_libs\<close>). The routes of
  this service are commented out in \<open>routes/auth/auth.routes.ts\<close>. The dash in one message is a
  hyphen here.
\<close>

record totp_libs =
  totp_generateSecret :: "byte list \<Rightarrow> string"
  totp_generateURI :: "string \<Rightarrow> string \<Rightarrow> string" \<comment> \<open>label, secret\<close>
  totp_verify :: "string \<Rightarrow> string \<Rightarrow> millis \<Rightarrow> bool result" \<comment> \<open>code, secret, time\<close>
  qr_toDataURL :: "string \<Rightarrow> string result"

record mfa_setup_result =
  totp_uri :: string
  qr_code_data_url :: string

definition getUserOrThrow :: "store \<Rightarrow> uuid \<Rightarrow> user result" where
  "getUserOrThrow d userId =
     (case findUserById d userId of
        None \<Rightarrow> throw (AuthError ''User not found'' ''UNAUTHORIZED'')
      | Some u \<Rightarrow> Inr u)"

definition update_user :: "uuid \<Rightarrow> (user \<Rightarrow> user) \<Rightarrow> sys \<Rightarrow> sys" where
  "update_user userId f s =
     s\<lparr>db := (db s)\<lparr>users := update_where (\<lambda>u. u_user_id u = userId) f (users (db s))\<rparr>\<rparr>"

text \<open>Decrypt a stored secret and check a code against it.\<close>

definition checkTotp :: "libs \<Rightarrow> totp_libs \<Rightarrow> env \<Rightarrow> ctx \<Rightarrow> string \<Rightarrow> string \<Rightarrow> unit result" where
  "checkTotp L M e cx totpCode stored =
     (case decryptTotp L e stored of
        Inl err \<Rightarrow> Inl err
      | Inr secret \<Rightarrow>
          (case totp_verify M totpCode secret (cx_now cx) of
             Inl err \<Rightarrow> Inl err
           | Inr valid \<Rightarrow> if valid then Inr () else throw (AuthError ''Invalid TOTP code'' ''INVALID_TOTP'')))"

definition setupMfa :: "libs \<Rightarrow> totp_libs \<Rightarrow> env \<Rightarrow> ctx \<Rightarrow> uuid \<Rightarrow> mfa_setup_result op" where
  "setupMfa L M e cx userId s =
     (case getUserOrThrow (db s) userId of
        Inl err \<Rightarrow> (Inl err, s)
      | Inr user \<Rightarrow>
          let secret = totp_generateSecret M (cx_bytes cx);
              uri = totp_generateURI M (u_email user) secret
          in (case qr_toDataURL M uri of
                Inl err \<Rightarrow> (Inl err, s)
              | Inr qr \<Rightarrow>
                  (Inr \<lparr>totp_uri = uri, qr_code_data_url = qr\<rparr>,
                   update_user userId (\<lambda>u. u\<lparr>u_totp_secret_pending := Some (encryptTotp L e (cx_iv cx) secret)\<rparr>) s)))"

definition confirmMfa :: "libs \<Rightarrow> totp_libs \<Rightarrow> env \<Rightarrow> ctx \<Rightarrow> uuid \<Rightarrow> string \<Rightarrow> unit op" where
  "confirmMfa L M e cx userId totpCode s =
     (case getUserOrThrow (db s) userId of
        Inl err \<Rightarrow> (Inl err, s)
      | Inr user \<Rightarrow>
          if \<not> truthy (u_totp_secret_pending user)
          then (throw (UnprocessableError ''No pending MFA setup found - call /mfa/setup first''
                  ''UNPROCESSABLE'' None), s)
          else (case checkTotp L M e cx totpCode (the (u_totp_secret_pending user)) of
              Inl err \<Rightarrow> (Inl err, s)
            | Inr _ \<Rightarrow>
                (Inr (), update_user userId
                   (\<lambda>u. u\<lparr>u_totp_secret := u_totp_secret_pending user, u_totp_secret_pending := None,
                          u_mfa_enabled := True\<rparr>) s)))"

definition verifyMfaAtLogin ::
    "libs \<Rightarrow> totp_libs \<Rightarrow> env \<Rightarrow> ctx \<Rightarrow> string \<Rightarrow> string \<Rightarrow> (session \<times> jwt_payload) op" where
  "verifyMfaAtLogin L M e cx email totpCode s =
     (case findUserByEmail (db s) email of
        None \<Rightarrow> (throw (AuthError ''Invalid TOTP code'' ''INVALID_TOTP''), s)
      | Some user \<Rightarrow>
          if \<not> u_mfa_enabled user \<or> \<not> truthy (u_totp_secret user)
          then (throw (AuthError ''Invalid TOTP code'' ''INVALID_TOTP''), s)
          else (case checkTotp L M e cx totpCode (the (u_totp_secret user)) of
              Inl err \<Rightarrow> (Inl err, s)
            | Inr _ \<Rightarrow>
                (case issue_session L e cx (cx_id cx 0) (u_user_id user) (session_payload user) s of
                   (Inl err, s') \<Rightarrow> (Inl err, s')
                 | (Inr sn, s') \<Rightarrow> (Inr (sn, session_payload user), s'))))"

definition disableMfa :: "libs \<Rightarrow> totp_libs \<Rightarrow> env \<Rightarrow> ctx \<Rightarrow> uuid \<Rightarrow> string \<Rightarrow> unit op" where
  "disableMfa L M e cx userId totpCode s =
     (case getUserOrThrow (db s) userId of
        Inl err \<Rightarrow> (Inl err, s)
      | Inr user \<Rightarrow>
          if \<not> u_mfa_enabled user \<or> \<not> truthy (u_totp_secret user)
          then (throw (UnprocessableError ''MFA is not currently enabled'' ''UNPROCESSABLE'' None), s)
          else (case checkTotp L M e cx totpCode (the (u_totp_secret user)) of
              Inl err \<Rightarrow> (Inl err, s)
            | Inr _ \<Rightarrow>
                (Inr (), update_user userId
                   (\<lambda>u. u\<lparr>u_mfa_enabled := False, u_totp_secret := None, u_totp_secret_pending := None\<rparr>) s)))"

end
