(* ===== verification/Integrity.thy ===== *)
theory Integrity
  imports Refresh Otp PasswordReset Organisations Mfa
begin

text \<open>
  What every operation of the account services preserves. \<open>advances d d'\<close> says that the database
  may go from \<open>d\<close> to \<open>d'\<close>: the unique constraints hold on, no organisation exceeds its user
  limit, spent refresh and reset tokens stay spent, one-time codes never become unused again
  and their attempts only grow up to the limit, and an invitation once accepted stays
  accepted. The relation is a preorder; every write of a service is shown to be in it, so
  that a service is in it by composing its writes.
\<close>

section \<open>Monotone tables\<close>

definition rows_advance :: "('r \<Rightarrow> 'r \<Rightarrow> bool) \<Rightarrow> 'r list \<Rightarrow> 'r list \<Rightarrow> bool" where
  "rows_advance R rs rs' \<longleftrightarrow> (\<forall>r \<in> set rs. \<exists>r' \<in> set rs'. R r r')"

lemma rows_advance_refl: "(\<And>r. R r r) \<Longrightarrow> rows_advance R rs rs"
  by (auto simp: rows_advance_def)

lemma rows_advance_trans:
  "(\<And>a b c. R a b \<Longrightarrow> R b c \<Longrightarrow> R a c) \<Longrightarrow> rows_advance R rs rs' \<Longrightarrow> rows_advance R rs' rs'' \<Longrightarrow>
     rows_advance R rs rs''"
  unfolding rows_advance_def by meson

lemma rows_advance_append: "(\<And>r. R r r) \<Longrightarrow> rows_advance R rs (rs @ rs')"
  by (auto simp: rows_advance_def)

lemma rows_advance_update: "(\<And>r. R r r) \<Longrightarrow> (\<And>r. R r (f r)) \<Longrightarrow> rows_advance R rs (update_where P f rs)"
  unfolding rows_advance_def update_where_def
proof
  fix r
  assume f: "\<And>r. R r r" "\<And>r. R r (f r)" and "r \<in> set rs"
  then have "(if P r then f r else r) \<in> set (map (\<lambda>r. if P r then f r else r) rs)" by simp
  then show "\<exists>r' \<in> set (map (\<lambda>r. if P r then f r else r) rs). R r r'"
    by (rule bexI [rotated]) (simp add: f)
qed

definition otp_later :: "otp_token \<Rightarrow> otp_token \<Rightarrow> bool" where
  "otp_later t t' \<longleftrightarrow>
     otp_id t' = otp_id t \<and> otp_email_hash t' = otp_email_hash t \<and> otp_hash t' = otp_hash t \<and>
     otp_expires_at t' = otp_expires_at t \<and> (otp_used t \<longrightarrow> otp_used t') \<and> otp_attempts t \<le> otp_attempts t'"

definition invitation_later :: "invitation \<Rightarrow> invitation \<Rightarrow> bool" where
  "invitation_later i i' \<longleftrightarrow>
     inv_invitation_id i' = inv_invitation_id i \<and> inv_token_hash i' = inv_token_hash i \<and>
     (inv_status i \<noteq> PENDING \<longrightarrow> inv_status i' \<noteq> PENDING)"

lemma later_refl [simp]: "otp_later t t" "invitation_later i i"
  by (simp_all add: otp_later_def invitation_later_def)

lemma later_trans:
  "otp_later a b \<Longrightarrow> otp_later b c \<Longrightarrow> otp_later a c"
  "invitation_later i j \<Longrightarrow> invitation_later j k \<Longrightarrow> invitation_later i k"
  by (auto simp: otp_later_def invitation_later_def)

section \<open>Invariants\<close>

text \<open>Every user belongs to an organisation that exists, and no organisation exceeds its limit.\<close>

definition members_ok :: "store \<Rightarrow> bool" where
  "members_ok d \<longleftrightarrow>
     (\<forall>g \<in> set (organisations d). countActiveUsersByOrg d (o_org_id g) \<le> o_user_limit g) \<and>
     u_org_id ` set (users d) \<subseteq> insert None (Some ` o_org_id ` set (organisations d))"

definition attempts_ok :: "store \<Rightarrow> bool" where
  "attempts_ok d \<longleftrightarrow> (\<forall>t \<in> set (otp_tokens d). 0 \<le> otp_attempts t \<and> otp_attempts t \<le> OTP_ATTEMPT_LIMIT)"

definition store_inv :: "store \<Rightarrow> bool" where
  "store_inv d \<longleftrightarrow> store_ok d \<and> members_ok d \<and> attempts_ok d"

text \<open>
  What holds of a write whatever the state it meets: constraints, tokens, codes and invitations. The limits
  of users and of attempts are kept only by writes whose checks still hold.
\<close>

definition tables_later :: "store \<Rightarrow> store \<Rightarrow> bool" where
  "tables_later d d' \<longleftrightarrow>
     (store_ok d \<longrightarrow> store_ok d' \<and> refresh.evolves d d' \<and> reset.evolves d d' \<and>
        rows_advance otp_later (otp_tokens d) (otp_tokens d') \<and>
        rows_advance invitation_later (invitations d) (invitations d'))"

definition advances :: "store \<Rightarrow> store \<Rightarrow> bool" where
  "advances d d' \<longleftrightarrow> tables_later d d' \<and> (store_inv d \<longrightarrow> members_ok d' \<and> attempts_ok d')"

lemma tables_later_refl [simp]: "tables_later d d"
  by (simp add: tables_later_def refresh.evolves_refl reset.evolves_refl rows_advance_refl)

lemma tables_later_trans:
  assumes "tables_later d d'" and "tables_later d' d''"
  shows "tables_later d d''"
  unfolding tables_later_def
proof (intro impI conjI)
  assume "store_ok d"
  then have 1: "store_ok d'" "refresh.evolves d d'" "reset.evolves d d'"
    "rows_advance otp_later (otp_tokens d) (otp_tokens d')"
    "rows_advance invitation_later (invitations d) (invitations d')"
    using assms(1) by (simp_all add: tables_later_def)
  then have 2: "store_ok d''" "refresh.evolves d' d''" "reset.evolves d' d''"
    "rows_advance otp_later (otp_tokens d') (otp_tokens d'')"
    "rows_advance invitation_later (invitations d') (invitations d'')"
    using assms(2) by (simp_all add: tables_later_def)
  show "store_ok d''" by (rule 2(1))
  show "refresh.evolves d d''" by (rule refresh.evolves_trans [OF 2(2) 1(2)])
  show "reset.evolves d d''" by (rule reset.evolves_trans [OF 2(3) 1(3)])
  show "rows_advance otp_later (otp_tokens d) (otp_tokens d'')"
    by (rule rows_advance_trans [OF later_trans(1) 1(4) 2(4)])
  show "rows_advance invitation_later (invitations d) (invitations d'')"
    by (rule rows_advance_trans [OF later_trans(2) 1(5) 2(5)])
qed

lemma advances_refl [simp]: "advances d d"
  by (simp add: advances_def store_inv_def)

lemma advances_inv: "advances d d' \<Longrightarrow> store_inv d \<Longrightarrow> store_inv d'"
  by (simp add: advances_def tables_later_def store_inv_def)

lemma advances_trans:
  assumes "advances d d'" and "advances d' d''"
  shows "advances d d''"
  using assms advances_inv [OF assms(1)] tables_later_trans by (auto simp: advances_def)

lemma members_ok_cong:
  "users d' = users d \<Longrightarrow> organisations d' = organisations d \<Longrightarrow> members_ok d' \<longleftrightarrow> members_ok d"
  by (simp add: members_ok_def countActiveUsersByOrg_def)

lemma frame_reset_db:
  "store_ok d' \<Longrightarrow> reset_tokens d' = reset_tokens d \<Longrightarrow> reset.frame d d'"
  unfolding reset.frame_def by (simp add: reset_row_def fun_eq_iff)

lemma reset_unchanged: "store_ok d' \<Longrightarrow> reset_tokens d' = reset_tokens d \<Longrightarrow> reset.evolves d d'"
  by (rule reset.evolves_frame [OF reset.evolves_refl frame_reset_db])

lemma refresh_unchanged: "store_ok d' \<Longrightarrow> refresh_tokens d' = refresh_tokens d \<Longrightarrow> refresh.evolves d d'"
  by (rule refresh.evolves_frame [OF refresh.evolves_refl frame_refresh_db])

text \<open>A write that touches neither token table, codes nor invitations.\<close>

lemma advances_accounts:
  assumes "store_ok d \<Longrightarrow> store_ok d'" and "store_inv d \<Longrightarrow> members_ok d'"
    and "refresh_tokens d' = refresh_tokens d" and "reset_tokens d' = reset_tokens d"
    and "otp_tokens d' = otp_tokens d"
    and "rows_advance invitation_later (invitations d) (invitations d')"
  shows "advances d d'"
  using assms
  by (auto simp: advances_def tables_later_def store_inv_def attempts_ok_def refresh_unchanged reset_unchanged
      rows_advance_refl)

section \<open>The writes of the services\<close>

lemma advances_insert_otp: "insertOtpToken now i d eh oh x = Inr d' \<Longrightarrow> advances d d'"
proof -
  assume ins: "insertOtpToken now i d eh oh x = Inr d'"
  then obtain ts where ts: "insert_row otp_constraints
      \<lparr>otp_id = i, otp_email_hash = eh, otp_hash = oh, otp_expires_at = x,
       otp_used = False, otp_attempts = 0, otp_created_at = now\<rparr> (otp_tokens d) = Inr ts"
    and d': "d' = d\<lparr>otp_tokens := ts\<rparr>"
    by (auto simp: insertOtpToken_def map_sum_def split: sum.splits)
  note rows = insert_row_SomeD(1) [OF ts]
  have "store_ok d \<Longrightarrow> store_ok d'" using ins by (rule insert_otp_ok [rotated])
  then show ?thesis
    unfolding advances_def tables_later_def store_inv_def
    by (auto simp: d' rows attempts_ok_def OTP_ATTEMPT_LIMIT_def members_ok_def countActiveUsersByOrg_def
        intro: refresh_unchanged reset_unchanged rows_advance_append rows_advance_refl)
qed

lemma advances_mark_otp: "advances d (markOtpTokenUsed d i)"
  unfolding advances_def tables_later_def store_inv_def
  by (auto simp: markOtpTokenUsed_def attempts_ok_def members_ok_def countActiveUsersByOrg_def set_update_where
      store_ok_def otp_constraints_def otp_later_def
      intro!: refresh_unchanged reset_unchanged rows_advance_update rows_advance_refl unique_rows_update)

lemma advances_increment_otp:
  assumes "t \<in> set (otp_tokens d)" and "otp_attempts t < OTP_ATTEMPT_LIMIT"
  shows "advances d (incrementOtpAttempts d (otp_id t))"
proof -
  have "otp_attempts s + 1 \<le> OTP_ATTEMPT_LIMIT"
    if "store_ok d" "s \<in> set (otp_tokens d)" "otp_id s = otp_id t" for s
    using distinct_map_eqD [OF store_ok_keys(7) [OF that(1)] that(2) assms(1) that(3)] assms(2) by simp
  then show ?thesis
    unfolding advances_def tables_later_def store_inv_def
    by (auto simp: incrementOtpAttempts_def attempts_ok_def members_ok_def countActiveUsersByOrg_def set_update_where
        store_ok_def otp_constraints_def otp_later_def
        intro!: refresh_unchanged reset_unchanged rows_advance_update rows_advance_refl unique_rows_update)
qed

lemma advances_insert_refresh: "insertRefreshToken now i d u h x = Inr d' \<Longrightarrow> advances d d'"
proof -
  assume ins: "insertRefreshToken now i d u h x = Inr d'"
  then have "refresh.evolves d d'"
    by (intro refresh.evolves_issue [OF refresh.evolves_refl, of "(now, i, u, x)" d h]) (simp add: issue_refresh_def)
  moreover from ins obtain ts where "d' = d\<lparr>refresh_tokens := ts\<rparr>"
    by (auto simp: insertRefreshToken_def map_sum_def split: sum.splits)
  moreover have "store_ok d \<Longrightarrow> store_ok d'" using ins by (rule insert_refresh_ok [rotated])
  ultimately show ?thesis
    unfolding advances_def tables_later_def store_inv_def
    by (auto simp: attempts_ok_def members_ok_def countActiveUsersByOrg_def
        intro: reset_unchanged rows_advance_refl)
qed

lemma advances_insert_reset: "insertPasswordResetToken now i d u h x = Inr d' \<Longrightarrow> advances d d'"
proof -
  assume ins: "insertPasswordResetToken now i d u h x = Inr d'"
  then have "reset.evolves d d'"
    by (intro reset.evolves_issue [OF reset.evolves_refl, of "(now, i, u, x)" d h]) (simp add: issue_reset_def)
  moreover from ins obtain ts where "d' = d\<lparr>reset_tokens := ts\<rparr>"
    by (auto simp: insertPasswordResetToken_def map_sum_def split: sum.splits)
  moreover have "store_ok d \<Longrightarrow> store_ok d'" using ins by (rule insert_reset_ok [rotated])
  ultimately show ?thesis
    unfolding advances_def tables_later_def store_inv_def
    by (auto simp: attempts_ok_def members_ok_def countActiveUsersByOrg_def
        intro: refresh_unchanged rows_advance_refl)
qed

text \<open>Changes of users that keep their identity, address, organisation and status.\<close>

lemma count_rows_update:
  "(\<And>r. P (f r) = P r) \<Longrightarrow> count_rows P (update_where Q f rs) = count_rows P rs"
  by (induction rs) auto

lemma members_ok_update_users:
  assumes "\<And>u. u_org_id (f u) = u_org_id u \<and> u_status (f u) = u_status u"
  shows "members_ok (d\<lparr>users := update_where P f (users d)\<rparr>) \<longleftrightarrow> members_ok d"
proof -
  have "map u_org_id (update_where P f (users d)) = map u_org_id (users d)"
    using assms by (intro map_update_where) simp
  then have orgs: "u_org_id ` set (update_where P f (users d)) = u_org_id ` set (users d)"
    by (metis set_map)
  then show ?thesis
    using assms orgs by (simp add: members_ok_def countActiveUsersByOrg_def count_rows_update)
qed

lemma advances_update_users:
  assumes "\<And>u. u_org_id (f u) = u_org_id u \<and> u_status (f u) = u_status u \<and>
      u_user_id (f u) = u_user_id u \<and> u_email (f u) = u_email u \<and> u_google_sub (f u) = u_google_sub u"
  shows "advances d (d\<lparr>users := update_where P f (users d)\<rparr>)"
  by (rule advances_accounts)
    (use assms in \<open>auto simp: store_inv_def members_ok_update_users store_ok_def user_constraints_def
      intro!: unique_rows_update rows_advance_refl\<close>)

lemma advances_update_user:
  assumes "\<And>u. u_org_id (f u) = u_org_id u \<and> u_status (f u) = u_status u \<and>
      u_user_id (f u) = u_user_id u \<and> u_email (f u) = u_email u \<and> u_google_sub (f u) = u_google_sub u"
  shows "advances (db s) (db (update_user i f s))"
  using advances_update_users [OF assms] by (simp add: update_user_def)

lemma advances_google_sub:
  assumes "updateUserGoogleSub d i sub = Inr d'"
  shows "advances d d'"
proof -
  let ?f = "\<lambda>u. u\<lparr>u_google_sub := Some sub\<rparr>"
  have d': "d' = d\<lparr>users := update_where (\<lambda>u. u_user_id u = i) ?f (users d)\<rparr>"
    and free: "\<forall>u \<in> set (users d). u_google_sub u = Some sub \<longrightarrow> u_user_id u = i"
    using assms by (auto simp: updateUserGoogleSub_def split: if_splits)
  have uniq: "unique_rows user_constraints (update_where (\<lambda>u. u_user_id u = i) ?f (users d))"
    if ok: "store_ok d"
  proof -
    let ?us = "update_where (\<lambda>u. u_user_id u = i) ?f (users d)"
    have ids: "map u_user_id ?us = map u_user_id (users d)" "map u_email ?us = map u_email (users d)"
      by (simp_all add: map_update_where)
    have "distinct (map u_google_sub (filter (\<lambda>u. u_google_sub u \<noteq> None) ?us))"
      unfolding distinct_map
    proof
      show "distinct (filter (\<lambda>u. u_google_sub u \<noteq> None) ?us)"
        using store_ok_keys(3) [OF ok] by (metis distinct_filter distinct_map ids(1))
      show "inj_on u_google_sub (set (filter (\<lambda>u. u_google_sub u \<noteq> None) ?us))"
      proof (rule inj_onI)
        fix a b
        assume ab: "a \<in> set (filter (\<lambda>u. u_google_sub u \<noteq> None) ?us)"
          "b \<in> set (filter (\<lambda>u. u_google_sub u \<noteq> None) ?us)" "u_google_sub a = u_google_sub b"
        have same: "a = b" if "u_user_id a = u_user_id b"
          using distinct_map_eqD [of u_user_id ?us a b] store_ok_keys(3) [OF ok] ab that by (simp add: ids)
        show "a = b"
        proof (cases "u_google_sub a = Some sub")
          case True
          then have "u_user_id a = i" "u_user_id b = i"
            using ab free by (auto simp: set_update_where)
          then show ?thesis using same by simp
        next
          case False
          then have "a \<in> set (users d)" "b \<in> set (users d)"
            using ab by (auto simp: set_update_where)
          then show ?thesis
            using unique_rowsD [of user_constraints "users d" "(\<lambda>u. map_option (\<lambda>v. [v]) (u_google_sub u), ''users_google_sub'')" a b]
              ok ab by (auto simp: store_ok_def user_constraints_def)
        qed
      qed
    qed
    then have "distinct (filter (\<lambda>v. v \<noteq> None) (map (\<lambda>u. map_option (\<lambda>v. [v]) (u_google_sub u)) ?us))"
      by (auto simp: filter_map comp_def distinct_map inj_on_def)
    moreover have "map (\<lambda>u. Some [u_user_id u]) ?us = map (\<lambda>u. Some [u_user_id u]) (users d)"
      "map (\<lambda>u. Some [u_email u]) ?us = map (\<lambda>u. Some [u_email u]) (users d)"
      by (simp_all add: map_update_where)
    ultimately show ?thesis
      using ok by (simp add: store_ok_def unique_rows_def user_constraints_def)
  qed
  show ?thesis unfolding d'
    by (rule advances_accounts)
      (use uniq in \<open>auto simp: store_inv_def members_ok_update_users store_ok_def intro!: rows_advance_refl\<close>)
qed

text \<open>What the gate lets through.\<close>

lemma invitation_gate_SomeD:
  assumes "invitation_gate L cx t d = Inr nv"
  obtains org where "findOrgById d (Some (inv_org_id nv)) = Some org" "o_status org \<noteq> SUSPENDED"
    "countActiveUsersByOrg d (inv_org_id nv) < o_user_limit org"
    "findInvitationByTokenHash (cx_now cx) d (hashSHA256 L t) = Some nv"
proof -
  let ?g = "findOrgById d (Some (inv_org_id nv))"
  have gate: "\<not> org_suspended ?g" "countActiveUsersByOrg d (inv_org_id nv) < user_limit_of ?g"
    "findInvitationByTokenHash (cx_now cx) d (hashSHA256 L t) = Some nv"
    using assms by (auto simp: invitation_gate_def Let_def not_le split: option.splits if_splits)
  moreover have "0 \<le> countActiveUsersByOrg d (inv_org_id nv)" by (simp add: countActiveUsersByOrg_def)
  ultimately obtain org where "?g = Some org" by (cases ?g) (auto simp: user_limit_of_def)
  with gate that show ?thesis by (auto simp: org_suspended_def user_limit_of_def)
qed

lemma accept_cases:
  assumes "acceptInvitationAndCreateUser now i d nv ud = Inr (u, d')"
  obtains us where "insert_row user_constraints u (users d) = Inr us" "u = new_user now i ud"
    "d' = d\<lparr>users := us, invitations := update_where (\<lambda>x. inv_invitation_id x = inv_invitation_id nv)
       (\<lambda>x. x\<lparr>inv_status := ACCEPTED\<rparr>) (invitations d)\<rparr>"
  using assms that by (auto simp: acceptInvitationAndCreateUser_def Let_def split: sum.splits)

lemma advances_accept:
  assumes gate: "invitation_gate L cx t d = Inr nv"
    and acc: "acceptInvitationAndCreateUser now i d nv (invited_user nv email pw sub) = Inr (u, d')"
  shows "advances d d'"
proof -
  obtain org where org: "findOrgById d (Some (inv_org_id nv)) = Some org"
    "countActiveUsersByOrg d (inv_org_id nv) < o_user_limit org"
    using gate by (rule invitation_gate_SomeD)
  from acc obtain us where us: "insert_row user_constraints u (users d) = Inr us"
    and u: "u = new_user now i (invited_user nv email pw sub)"
    and d': "d' = d\<lparr>users := us, invitations := update_where (\<lambda>x. inv_invitation_id x = inv_invitation_id nv)
       (\<lambda>x. x\<lparr>inv_status := ACCEPTED\<rparr>) (invitations d)\<rparr>"
    by (rule accept_cases)
  have rows: "us = users d @ [u]" by (rule insert_row_SomeD(1) [OF us])
  have ug: "u_org_id u = Some (inv_org_id nv)" "u_status u = UserACTIVE"
    by (simp_all add: u new_user_def invited_user_def)
  have g: "org \<in> set (organisations d)" "o_org_id org = inv_org_id nv"
    using org(1) by (auto simp: findOrgById_def dest: find_row_SomeD)
  show ?thesis
  proof (rule advances_accounts)
    show "store_ok d'" if "store_ok d"
      using that insert_row_unique [OF _ us]
      by (auto simp: d' store_ok_def invitation_constraints_def intro!: unique_rows_update)
  next
    assume nv: "store_inv d"
    have "countActiveUsersByOrg d' (o_org_id g') \<le> o_user_limit g'" if "g' \<in> set (organisations d)" for g'
    proof (cases "o_org_id g' = inv_org_id nv")
      case True
      then have "g' = org"
        using distinct_map_eqD [OF store_ok_keys(1) that g(1)] nv g(2) by (simp add: store_inv_def)
      then show ?thesis using org(2) g(2) ug by (simp add: d' rows countActiveUsersByOrg_def)
    next
      case False
      then show ?thesis
        using nv that ug by (auto simp: d' rows countActiveUsersByOrg_def store_inv_def members_ok_def)
    qed
    moreover have "inv_org_id nv \<in> o_org_id ` set (organisations d)" using g by (metis image_eqI)
    ultimately show "members_ok d'"
      using nv ug by (simp add: d' rows store_inv_def members_ok_def)
  qed (auto simp: d' invitation_later_def intro!: rows_advance_update)
qed

lemma advances_create_org:
  assumes "createOrgWithAdmin now i j d input = Inr ((org, u), d')"
  shows "advances d d'"
proof -
  obtain gs us where gs: "insert_row org_constraints org (organisations d) = Inr gs"
    and us: "insert_row user_constraints u (users d) = Inr us"
    and d': "d' = d\<lparr>organisations := gs, users := us\<rparr>"
    and org: "org = new_organisation now i (co_orgName input)"
    and u: "u_org_id u = Some i"
    using assms by (auto simp: createOrgWithAdmin_def Let_def new_user_def split: sum.splits)
  have rows: "gs = organisations d @ [org]" "us = users d @ [u]"
    using insert_row_SomeD(1) [OF gs] insert_row_SomeD(1) [OF us] by simp_all
  have "(\<lambda>g. Some [o_org_id g]) org \<notin> set (map (\<lambda>g. Some [o_org_id g]) (organisations d))"
    using insert_row_SomeD(2) [OF gs, of "(\<lambda>g. Some [o_org_id g], ''organisations_pkey'')"]
    by (simp add: org_constraints_def)
  then have new: "i \<notin> o_org_id ` set (organisations d)"
    by (auto simp: org new_organisation_def image_iff)
  show ?thesis
  proof (rule advances_accounts)
    show "store_ok d'" if "store_ok d"
      using that insert_row_unique [OF _ us] insert_row_unique [OF _ gs] by (auto simp: d' store_ok_def)
  next
    assume nv: "store_inv d"
    have "count_rows (\<lambda>x. u_org_id x = Some i \<and> u_status x = UserACTIVE) (users d) = 0"
    proof -
      have "\<forall>x \<in> set (users d). u_org_id x \<noteq> Some i"
        using nv new by (force simp: store_inv_def members_ok_def image_subset_iff)
      then show ?thesis by (simp add: count_rows_def filter_empty_conv)
    qed
    then show "members_ok d'"
      using nv u new
      by (auto simp: d' rows store_inv_def members_ok_def countActiveUsersByOrg_def org new_organisation_def)
  qed (auto simp: d' intro!: rows_advance_refl)
qed

lemma advances_activate: "advances d (activateOrgById now d i)"
proof (rule advances_accounts)
  let ?f = "\<lambda>g. g\<lparr>o_status := OrgACTIVE, o_subscription_status := SubACTIVE, o_updated_at := now\<rparr>"
  let ?P = "\<lambda>g. o_org_id g = i \<and> o_status g = PAYMENT_PENDING"
  show "store_ok (activateOrgById now d i)" if "store_ok d"
    using that by (auto simp: activateOrgById_def store_ok_def org_constraints_def intro!: unique_rows_update)
  assume nv: "store_inv d"
  have "map o_org_id (update_where ?P ?f (organisations d)) = map o_org_id (organisations d)"
    by (simp add: map_update_where)
  then have "o_org_id ` set (update_where ?P ?f (organisations d)) = o_org_id ` set (organisations d)"
    by (metis set_map)
  then show "members_ok (activateOrgById now d i)"
    using nv by (auto simp: activateOrgById_def store_inv_def members_ok_def countActiveUsersByOrg_def set_update_where)
qed (auto simp: activateOrgById_def intro!: rows_advance_refl)

text \<open>A row is spent by its identifier, whatever has happened to it since it was read.\<close>

lemma advances_spend_reset:
  fixes r t :: password_reset_token
  assumes "store_ok d \<Longrightarrow> reset_row d h = Some r" and "prt_token_id r = prt_token_id t"
  shows "advances d (spend_reset d t)"
proof -
  have eq: "spend_reset d t = spend_reset d r" by (simp add: spend_reset_def assms(2))
  have "reset.evolves d (spend_reset d r)" if "store_ok d"
    using assms(1) [OF that] by (rule reset.evolves_spend [OF reset.evolves_refl])
  then show ?thesis
    unfolding eq using store_ok_spend_reset [of d r] refresh_unchanged [of "spend_reset d r" d]
    by (auto simp: advances_def tables_later_def spend_reset_def store_inv_def attempts_ok_def members_ok_def
        countActiveUsersByOrg_def intro!: rows_advance_refl)
qed

lemma advances_apply_reset_at:
  fixes r t :: password_reset_token
  assumes "store_ok d \<Longrightarrow> reset_row d h = Some r" and "prt_token_id r = prt_token_id t"
  shows "advances d (applyPasswordReset d i (prt_token_id t) pw)"
proof -
  have eq: "applyPasswordReset d i (prt_token_id t) pw =
      (spend_reset d t)\<lparr>users := update_where (\<lambda>u. u_user_id u = i)
        (\<lambda>u. u\<lparr>u_password_hash := Some pw\<rparr>) (users (spend_reset d t))\<rparr>"
    by (simp add: applyPasswordReset_def spend_reset_def)
  have "advances d (spend_reset d t)"
    using assms by (rule advances_spend_reset)
  moreover have "advances (spend_reset d t) (applyPasswordReset d i (prt_token_id t) pw)"
    unfolding eq by (rule advances_update_users) simp
  ultimately show ?thesis by (rule advances_trans)
qed

lemma advances_apply_reset:
  assumes "findPasswordResetToken now d h = Some t"
  shows "advances d (applyPasswordReset d i (prt_token_id t) pw)"
  by (rule advances_apply_reset_at [of d h t])
    (use assms in \<open>auto simp: reset.lookup_row split: option.splits if_splits\<close>)

text \<open>A write of refresh tokens alone.\<close>

lemma advances_refresh_only:
  assumes "store_ok d \<Longrightarrow> refresh.evolves d (d\<lparr>refresh_tokens := ts\<rparr>)"
  shows "advances d (d\<lparr>refresh_tokens := ts\<rparr>)"
proof -
  have "store_ok d \<Longrightarrow> store_ok (d\<lparr>refresh_tokens := ts\<rparr>)"
    using refresh.evolves_ok assms by blast
  then show ?thesis
    using assms reset_unchanged [of "d\<lparr>refresh_tokens := ts\<rparr>" d]
    by (auto simp: advances_def tables_later_def store_inv_def attempts_ok_def members_ok_def countActiveUsersByOrg_def
        intro!: rows_advance_refl)
qed

lemma rotate_commit_db:
  "\<exists>ts. db (snd (rotate_commit L e cx found s)) = (db s)\<lparr>refresh_tokens := ts\<rparr>"
  by (auto simp: rotate_commit_def insertRefreshToken_def spend_refresh_def Let_def map_sum_def
      split: prod.splits sum.splits intro: exI [of _ "refresh_tokens (db s)"])

lemma rotate_db: "\<exists>ts. db (snd (rotateRefreshToken L e cx raw s)) = (db s)\<lparr>refresh_tokens := ts\<rparr>"
  using rotate_commit_db
  by (auto simp: rotateRefreshToken_def split: sum.splits intro: exI [of _ "refresh_tokens (db s)"])

lemma logout_db: "\<exists>ts. db (logout L c s) = (db s)\<lparr>refresh_tokens := ts\<rparr>"
  by (auto simp: logout_def markRefreshTokenUsedByHash_def split: option.splits
      intro: exI [of _ "refresh_tokens (db s)"])

section \<open>The services\<close>

lemma advances_rotate: "advances (db s) (db (snd (rotateRefreshToken L e cx raw s)))"
  using rotate_db [of L e cx raw s] rotate_evolves [of s L e cx raw]
  by (metis advances_refresh_only)

lemma advances_logout: "advances (db s) (db (logout L c s))"
  using logout_db [of L c s] logout_evolves [of s L c] by (metis advances_refresh_only)

lemma db_mail [simp]:
  "db (snd (sendOtpEmail e cx to code s)) = db s" "db (snd (sendPasswordResetEmail e cx to code s)) = db s"
  by (simp_all add: sendOtpEmail_def sendPasswordResetEmail_def split: option.split)

lemma advances_issue_otp: "advances (db s) (db (snd (issue_otp L e cx i email s)))"
  by (auto simp: issue_otp_def Let_def intro: advances_insert_otp split: sum.split)

lemma advances_issue_session: "advances (db s) (db (snd (issue_session L e cx i u p s)))"
  by (auto simp: issue_session_def Let_def intro: advances_insert_refresh split: sum.split)

end
