(* ===== verification/Accounts.thy ===== *)
theory Accounts
  imports Integrity
begin

text \<open>
  The account services together: one step of the system is one operation of any of them, with
  any arguments, at any time and with any answers of the world, or a timer, or a restart of
  the process, which forgets the failed attempts. Every step advances the database, so the
  invariants of \<open>Integrity\<close> hold in every reachable state.
\<close>

section \<open>Every operation advances the database\<close>

lemma db_updates [simp]:
  "db (s\<lparr>db := d\<rparr>) = d" "db (s\<lparr>emailFailedAttempts := m\<rparr>) = db s" "db (s\<lparr>confirmFailedAttempts := m\<rparr>) = db s"
  "db (s\<lparr>timers := t\<rparr>) = db s" "db (s\<lparr>outbox := b\<rparr>) = db s"
  by simp_all

lemma advances_issue_otp_at: "advances d (db s) \<Longrightarrow> advances d (db (snd (issue_otp L e cx i email s)))"
  by (rule advances_trans [OF _ advances_issue_otp])

lemma advances_issue_session_at: "advances d (db s) \<Longrightarrow> advances d (db (snd (issue_session L e cx i u p s)))"
  by (rule advances_trans [OF _ advances_issue_session])

lemma advances_register: "advances (db s) (db (snd (handleInvitedUserRegistration L e cx email pw t s)))"
proof (cases "invitation_gate L cx t (db s)")
  case (Inr i)
  show ?thesis
  proof (cases "acceptInvitationAndCreateUser (cx_now cx) (cx_id cx 0) (db s) i
      (invited_user i email (Some (bcrypt_hash L (cx_salt cx) 12 pw)) None)")
    case acc: (Inr ud)
    obtain u d where ud: "ud = (u, d)" by (cases ud)
    show ?thesis
      using advances_accept [OF Inr acc [unfolded ud]]
      by (simp add: handleInvitedUserRegistration_def Inr acc ud advances_issue_otp_at)
  qed (simp add: handleInvitedUserRegistration_def Inr)
qed (simp add: handleInvitedUserRegistration_def)

lemma advances_login: "advances (db s) (db (snd (handleReturningUserLogin L e cx email pw s)))"
  by (auto simp: handleReturningUserLogin_def Let_def advances_issue_otp_at split: sum.split)

lemma advances_createSession: "advances (db s) (db (snd (createEmailPasswordSession L e cx email pw t s)))"
  by (auto simp: createEmailPasswordSession_def advances_register advances_login split: option.split)

lemma advances_google_user: "google_user p d = Inr (u, d') \<Longrightarrow> advances d d'"
  by (auto simp: google_user_def intro: advances_google_sub split: option.splits if_splits sum.splits)

lemma advances_google_register: "google_register L cx p t d = Inr (u, d') \<Longrightarrow> advances d d'"
  by (auto simp: google_register_def intro: advances_accept split: if_splits sum.splits)

lemma advances_google_session_at: "advances d (db s) \<Longrightarrow> advances d (db (snd (google_session L e cx u s)))"
  using advances_issue_session_at [of d s L e cx "cx_id cx 1" "u_user_id u" "session_payload u"]
  by (auto simp: google_session_def split: sum.split prod.split)

lemma advances_google: "advances (db s) (db (snd (createGoogleSession L e cx tok inv_tok s)))"
proof (cases "cx_google cx tok")
  case (Some p)
  show ?thesis
  proof (cases "google_user p (db s)")
    case (Inr ud)
    obtain u d where ud: "ud = (u, d)" by (cases ud)
    have d: "advances (db s) d" using Inr ud by (auto intro: advances_google_user)
    have "advances (db s) d'" if "google_register L cx p inv_tok d = Inr (u', d')" for u' d'
      using advances_trans [OF d advances_google_register [OF that]] .
    then show ?thesis
      using d Inr ud Some
      by (auto simp: createGoogleSession_def advances_google_session_at split: option.split sum.split)
  qed (auto simp: createGoogleSession_def Some)
qed (simp add: createGoogleSession_def)

lemma advances_otp_session_at: "advances d (db s) \<Longrightarrow> advances d (db (snd (otp_session L e cx email s)))"
  using advances_issue_session_at [of d s L e cx "cx_id cx 0"]
  by (auto simp: otp_session_def split: option.split sum.split prod.split) (metis snd_conv)+

lemma findLatestOtpToken_SomeD:
  assumes "findLatestOtpToken now d h = Some t"
  shows "t \<in> set (otp_tokens d)" "otp_email_hash t = h" "\<not> otp_used t" "otp_expires_at t > now"
  using assms by (auto simp: findLatestOtpToken_def dest!: latest_SomeD)

lemma advances_verifyOtp: "advances (db s) (db (snd (verifyOtp L e cx email code s)))"
proof (cases "findLatestOtpToken (cx_now cx) (db s) (hashSHA256 L (toLowerCase email))")
  case (Some t)
  note t = findLatestOtpToken_SomeD [OF Some]
  show ?thesis
    using advances_increment_otp [OF t(1)]
    by (auto simp: verifyOtp_def Some advances_mark_otp not_le advances_otp_session_at split: sum.split)
qed (simp add: verifyOtp_def)

lemma advances_resendOtp: "advances (db s) (db (snd (resendOtp L e cx email s)))"
  by (auto simp: resendOtp_def advances_mark_otp advances_issue_otp_at split: option.split)

lemma advances_requestReset: "advances (db s) (db (snd (requestReset L e cx email s)))"
  by (auto simp: requestReset_def Let_def intro: advances_insert_reset split: option.split sum.split)

lemma advances_confirmReset: "advances (db s) (db (snd (confirmReset L cx email code pw s)))"
  by (auto simp: confirmReset_def Let_def intro: advances_apply_reset split: option.split sum.split)

lemma db_schedule [simp]: "db (schedule_activation e cx i s) = db s"
  by (simp add: schedule_activation_def)

lemma advances_createOrg: "advances (db s) (db (snd (createOrg L e cx body s)))"
  using advances_create_org advances_issue_session_at [of "db s" _ L e cx "cx_id cx 2"]
  by (auto simp: createOrg_def Let_def split: sum.split prod.split) (metis db_schedule db_updates(1) snd_conv)+

lemma advances_timers: "advances (db s) (db (fire_timers now s))"
proof -
  have "advances d (foldl (\<lambda>d t. activateOrgById now d (snd t)) d ts)" for d and ts :: "(millis \<times> uuid) list"
    by (induction ts arbitrary: d) (auto intro: advances_trans [OF advances_activate])
  then show ?thesis by (simp add: fire_timers_def)
qed

lemma advances_mfa:
  "advances (db s) (db (snd (setupMfa L M e cx i s)))"
  "advances (db s) (db (snd (confirmMfa L M e cx i code s)))"
  "advances (db s) (db (snd (disableMfa L M e cx i code s)))"
  by (auto simp: setupMfa_def confirmMfa_def disableMfa_def Let_def intro!: advances_update_user split: sum.split)

lemma advances_verifyMfa: "advances (db s) (db (snd (verifyMfaAtLogin L M e cx email code s)))"
  using advances_issue_session_at [of "db s" s L e cx "cx_id cx 0"]
  by (auto simp: verifyMfaAtLogin_def split: option.split sum.split prod.split) (metis snd_conv)+

section \<open>Steps\<close>

definition restart :: "sys \<Rightarrow> sys" where
  "restart s = resetConfirmAttempts (resetFailedAttempts (s\<lparr>timers := [], dispatched := []\<rparr>))"

inductive account_step :: "libs \<Rightarrow> totp_libs \<Rightarrow> env \<Rightarrow> sys \<Rightarrow> sys \<Rightarrow> bool" for L M e where
  step_session: "account_step L M e s (snd (createEmailPasswordSession L e cx email pw t s))"
| step_google: "account_step L M e s (snd (createGoogleSession L e cx tok t s))"
| step_verifyOtp: "account_step L M e s (snd (verifyOtp L e cx email code s))"
| step_resendOtp: "account_step L M e s (snd (resendOtp L e cx email s))"
| step_requestReset: "account_step L M e s (snd (requestReset L e cx email s))"
| step_confirmReset: "account_step L M e s (snd (confirmReset L cx email code pw s))"
| step_refresh: "account_step L M e s (snd (rotateRefreshToken L e cx raw s))"
| step_logout: "account_step L M e s (logout L cookie s)"
| step_createOrg: "account_step L M e s (snd (createOrg L e cx body s))"
| step_timers: "account_step L M e s (fire_timers now s)"
| step_setupMfa: "account_step L M e s (snd (setupMfa L M e cx i s))"
| step_confirmMfa: "account_step L M e s (snd (confirmMfa L M e cx i code s))"
| step_verifyMfa: "account_step L M e s (snd (verifyMfaAtLogin L M e cx email code s))"
| step_disableMfa: "account_step L M e s (snd (disableMfa L M e cx i code s))"
| step_restart: "account_step L M e s (restart s)"

definition initial_sys :: sys where
  "initial_sys =
     \<lparr>db = empty_store, emailFailedAttempts = (\<lambda>k. None), confirmFailedAttempts = (\<lambda>k. None),
      outbox = [], timers = [], dispatched = [], queue = []\<rparr>"

lemma db_restart [simp]: "db (restart s) = db s"
  by (simp add: restart_def resetConfirmAttempts_def resetFailedAttempts_def)

lemma account_step_advances: "account_step L M e s s' \<Longrightarrow> advances (db s) (db s')"
  by (induction rule: account_step.induct)
    (simp_all add: advances_createSession advances_google advances_verifyOtp advances_resendOtp
      advances_requestReset advances_confirmReset advances_rotate advances_logout advances_createOrg
      advances_timers advances_mfa advances_verifyMfa)

lemma account_steps_advance: "(account_step L M e)\<^sup>*\<^sup>* s s' \<Longrightarrow> advances (db s) (db s')"
  by (induction rule: rtranclp_induct) (auto intro: advances_trans account_step_advances)

lemma store_inv_empty: "store_inv empty_store"
  using store_ok_empty
  by (simp add: store_inv_def members_ok_def attempts_ok_def empty_store_def)

lemma advancesD:
  assumes "advances d d'" and "store_inv d"
  shows "store_inv d'" "store_ok d" "store_ok d'" "refresh.evolves d d'" "reset.evolves d d'"
    "rows_advance otp_later (otp_tokens d) (otp_tokens d')"
    "rows_advance invitation_later (invitations d) (invitations d')"
  using assms by (simp_all add: advances_def tables_later_def store_inv_def)

end
