(* ===== verification/AccountFrame.thy ===== *)
theory AccountFrame
  imports Accounts
begin

text \<open>
  What the account services do not touch. The contract of a frame is a relation on databases that every write
  of the account services respects, and a relation on states that follows from it; every step of the account services
  then respects it. \<open>System\<close> takes it for the tables of events and keys, \<open>Activation\<close> for the
  organisations that are active.
\<close>

locale account_frame =
  fixes e :: env and same :: "store \<Rightarrow> store \<Rightarrow> bool" and frame :: "sys \<Rightarrow> sys \<Rightarrow> bool"
  assumes same_refl: "same d d"
    and same_trans: "same a b \<Longrightarrow> same b c \<Longrightarrow> same a c"
    and frame_trans: "frame s1 s2 \<Longrightarrow> frame s2 s3 \<Longrightarrow> frame s1 s3"
    and frame_db: "same (db s) d \<Longrightarrow> frame s (s\<lparr>db := d\<rparr>)"
    and frame_counts: "frame s (s\<lparr>emailFailedAttempts := m\<rparr>)" "frame s (s\<lparr>confirmFailedAttempts := m\<rparr>)"
    and frame_outbox: "frame s (s\<lparr>outbox := ms\<rparr>)"
    and frame_schedule: "frame s (schedule_activation e cx i s)"
    and frame_timers: "frame s (fire_timers now s)"
    and frame_restart: "frame s (restart s)"
    and writes: "same d (markOtpTokenUsed d i)" "same d (incrementOtpAttempts d i)"
      "same d (markRefreshTokenUsedByHash d h)" "same d (applyPasswordReset d i j h)"
      "same d (d\<lparr>users := us\<rparr>)" "same d (spend_refresh d r)"
    and inserts: "insertOtpToken now i d eh oh x = Inr d' \<Longrightarrow> same d d'"
      "insertRefreshToken now i d u h x = Inr d' \<Longrightarrow> same d d'"
      "insertPasswordResetToken now i d u h x = Inr d' \<Longrightarrow> same d d'"
      "acceptInvitationAndCreateUser now i d inv0 ud = Inr (u', d') \<Longrightarrow> same d d'"
      "createOrgWithAdmin now i j d input = Inr (gu, d') \<Longrightarrow> same d d'"
begin

lemma frame_refl [simp]: "frame s s"
  using frame_db [where d = "db s" and s = s] by (simp add: same_refl)

lemmas frame_simps = frame_counts frame_outbox frame_schedule frame_timers frame_restart writes same_refl

lemma google_sub_same: "updateUserGoogleSub d u h = Inr d' \<Longrightarrow> same d d'"
  by (auto simp: updateUserGoogleSub_def writes split: if_splits)

lemma send_otp_frame: "frame s (snd (sendOtpEmail e cx email otp s))"
  by (simp add: sendOtpEmail_def frame_outbox split: option.split)

lemma send_reset_frame: "frame s (snd (sendPasswordResetEmail e cx email otp s))"
  by (simp add: sendPasswordResetEmail_def frame_outbox split: option.split)

lemmas then_db = frame_trans [OF frame_db]

lemma issue_otp_frame: "frame s (snd (issue_otp L e cx i email s))"
  by (simp add: issue_otp_def Let_def split: sum.split) (blast intro: then_db [OF _ send_otp_frame] inserts)

lemma issue_session_frame: "frame s (snd (issue_session L e cx i u p s))"
  by (auto simp: issue_session_def Let_def intro!: frame_db dest!: inserts(2) split: sum.splits)

lemmas then_issue = then_db [OF _ issue_otp_frame] then_db [OF _ issue_session_frame]

lemma register_frame: "frame s (snd (handleInvitedUserRegistration L e cx email pw t s))"
  by (auto simp: handleInvitedUserRegistration_def Let_def intro!: then_issue
      dest!: inserts(4) split: sum.splits)

lemma login_frame: "frame s (snd (handleReturningUserLogin L e cx email pw s))"
  by (auto simp: handleReturningUserLogin_def Let_def frame_counts
      intro: frame_trans [OF frame_counts(1) issue_otp_frame] split: sum.split)

lemma google_frame: "frame s (snd (createGoogleSession L e cx tok t s))"
proof -
  have sess: "same (db s) d \<Longrightarrow> frame s (snd (google_session L e cx u (s\<lparr>db := d\<rparr>)))" for d u
    by (auto simp: google_session_def frame_db split: sum.splits prod.splits)
      (metis then_issue(2) snd_conv)+
  have user: "google_user p (db s) = Inr (u, d) \<Longrightarrow> same (db s) d" for p u d
    by (auto simp: google_user_def same_refl dest: google_sub_same split: option.splits if_splits sum.splits)
  have reg: "google_register L cx p t d = Inr (u, d') \<Longrightarrow> same d d'" for p u d d'
    by (auto simp: google_register_def dest: inserts(4) split: if_splits sum.splits)
  show ?thesis
    by (auto simp: createGoogleSession_def split: option.splits sum.splits
        intro!: sess frame_db dest!: user reg intro: same_trans)
qed

lemma verifyOtp_frame: "frame s (snd (verifyOtp L e cx email code s))"
proof -
  have sess: "same (db s) d \<Longrightarrow> frame s (snd (otp_session L e cx email (s\<lparr>db := d\<rparr>)))" for d
    by (auto simp: otp_session_def frame_db split: option.splits sum.splits prod.splits)
      (metis then_issue(2) snd_conv)+
  show ?thesis
    by (auto simp: verifyOtp_def writes split: option.splits sum.splits intro!: sess frame_db)
qed

lemma resendOtp_frame: "frame s (snd (resendOtp L e cx email s))"
  by (auto simp: resendOtp_def writes intro!: then_issue split: option.splits)

lemma requestReset_frame: "frame s (snd (requestReset L e cx email s))"
  by (simp add: requestReset_def Let_def split: sum.split option.split)
    (blast intro: then_db [OF _ send_reset_frame] inserts)

lemma confirmReset_frame: "frame s (snd (confirmReset L cx email code pw s))"
proof -
  have "same (db s) d \<Longrightarrow> frame s (s\<lparr>confirmFailedAttempts := m, db := d\<rparr>)" for d m
    by (rule frame_trans [OF frame_counts(2) frame_db]) simp
  then show ?thesis
    by (auto simp: confirmReset_def Let_def writes frame_counts split: sum.splits option.splits)
qed

lemma rotate_frame: "frame s (snd (rotateRefreshToken L e cx raw s))"
  by (auto simp: rotateRefreshToken_def rotate_commit_def Let_def split: sum.splits prod.splits
      intro!: frame_db dest!: inserts(2) intro: same_trans [OF writes(6)])

lemma createOrg_frame: "frame s (snd (createOrg L e cx body s))"
proof -
  have sched: "same (db s) d \<Longrightarrow> frame s (schedule_activation e cx i (s\<lparr>db := d\<rparr>))" for i d
    by (rule then_db [OF _ frame_schedule])
  then have "same (db s) d \<Longrightarrow>
      frame s (snd (issue_session L e cx k u p (schedule_activation e cx i (s\<lparr>db := d\<rparr>))))" for i d k u p
    using frame_trans [OF _ issue_session_frame] by blast
  then show ?thesis
    by (auto simp: createOrg_def Let_def sched dest!: inserts(5) split: sum.splits prod.splits)
      (metis snd_conv)+
qed

lemma mfa_frame:
  "frame s (snd (setupMfa L M e cx i s))" "frame s (snd (confirmMfa L M e cx i code s))"
  "frame s (snd (disableMfa L M e cx i code s))"
  by (auto simp: setupMfa_def confirmMfa_def disableMfa_def update_user_def Let_def writes intro!: frame_db
      split: sum.split)

lemma verifyMfa_frame: "frame s (snd (verifyMfaAtLogin L M e cx email code s))"
  using issue_session_frame [of s L cx "cx_id cx 0"]
  by (auto simp: verifyMfaAtLogin_def split: option.split sum.split prod.split) (metis snd_conv)+

lemma logout_frame: "frame s (logout L cookie s)"
  by (auto simp: logout_def writes intro!: frame_db split: option.splits)

lemma createSession_frame: "frame s (snd (createEmailPasswordSession L e cx email pw t s))"
  by (simp add: createEmailPasswordSession_def register_frame login_frame split: option.split)

lemma step_frame: "account_step L M e s s' \<Longrightarrow> frame s s'"
  by (induction rule: account_step.induct)
    (simp_all add: createSession_frame google_frame verifyOtp_frame resendOtp_frame requestReset_frame
      confirmReset_frame rotate_frame createOrg_frame mfa_frame verifyMfa_frame logout_frame
      frame_timers frame_restart)

end

end
