(* ===== verification/ApiKeys.thy ===== *)
theory ApiKeys
  imports Otp
begin

text \<open>
  \<open>services/api-key/api-key.service.ts\<close>: the keys by which programs use the service. Only the hash of a
  key is stored; the key itself is shown once, when it is created.
\<close>

section \<open>Operations\<close>

record validated_api_key =
  vk_key_id :: uuid
  vk_org_id :: uuid
  vk_user_id :: "uuid option"
  vk_permissions :: "permission list"

text \<open>\<open>touched\<close> says whether the write of the time of last use, which nobody waits for, succeeds.\<close>

definition validateApiKey :: "libs \<Rightarrow> ctx \<Rightarrow> bool \<Rightarrow> string \<Rightarrow> validated_api_key op" where
  "validateApiKey L cx touched plaintextKey s =
     (let inboundHash = hashSHA256 L plaintextKey in
      case findApiKeyByHash (db s) inboundHash of
        None \<Rightarrow> (throw (AuthError ''Invalid API key'' ''INVALID_API_KEY''), s)
      | Some apiKey \<Rightarrow>
          if length (from_hex (ak_key_hash apiKey)) \<noteq> length (from_hex inboundHash) \<or>
             timingSafeEqual (from_hex (ak_key_hash apiKey)) (from_hex inboundHash) \<noteq> Inr True
          then (throw (AuthError ''Invalid API key'' ''INVALID_API_KEY''), s)
          else (case findOrgById (db s) (Some (ak_org_id apiKey)) of
              None \<Rightarrow> (throw (AuthError ''Invalid API key'' ''INVALID_API_KEY''), s)
            | Some org \<Rightarrow>
                if o_status org = SUSPENDED
                then (throw (ForbiddenError ''Organisation is suspended'' ''ORG_SUSPENDED''), s)
                else if o_status org \<noteq> OrgACTIVE
                then (throw (ForbiddenError ''Organisation is not active'' ''ORG_NOT_ACTIVE''), s)
                else (Inr \<lparr>vk_key_id = ak_key_id apiKey, vk_org_id = ak_org_id apiKey,
                          vk_user_id = ak_user_id apiKey, vk_permissions = ak_permissions apiKey\<rparr>,
                      if touched then s\<lparr>db := touchLastUsed (cx_now cx) (db s) (ak_key_id apiKey)\<rparr> else s)))"

record create_api_key_input =
  ci_org_id :: uuid
  ci_email :: "string option"
  ci_permissions :: "permission list option"
  ci_name :: "string option"

record created_api_key =
  cr_key_id :: uuid
  cr_api_key :: string
  cr_key_prefix :: string
  cr_name :: "string option"
  cr_permissions :: "permission list"
  cr_created_at :: millis

text \<open>The user a key is bound to.\<close>

definition key_owner :: "store \<Rightarrow> create_api_key_input \<Rightarrow> uuid option result" where
  "key_owner d input =
     (if truthy (ci_email input)
      then (case findUserByEmailAndOrg d (the (ci_email input)) (ci_org_id input) of
              None \<Rightarrow> throw (ValidationError ''email does not belong to an active user in this organisation''
                        ''INVALID_USER_FOR_ORG'' (Some [FieldValue ''email'' (the (ci_email input))]))
            | Some user \<Rightarrow> Inr (Some (u_user_id user)))
      else Inr None)"

definition plaintext_key :: "byte list \<Rightarrow> string" where
  "plaintext_key bytes = ''hsk_'' @ to_base64url bytes"

definition createApiKey :: "libs \<Rightarrow> ctx \<Rightarrow> create_api_key_input \<Rightarrow> created_api_key op" where
  "createApiKey L cx input s =
     (let permissions = (case ci_permissions input of None \<Rightarrow> [EVENTS_WRITE] | Some ps \<Rightarrow> ps) in
      case key_owner (db s) input of
        Inl err \<Rightarrow> (Inl err, s)
      | Inr resolvedUserId \<Rightarrow>
          let plaintextKey = plaintext_key (cx_bytes cx) in
          (case createApiKey_row (cx_now cx) (cx_id cx 0) (db s)
              \<lparr>ck_org_id = ci_org_id input, ck_user_id = resolvedUserId,
               ck_key_hash = hashSHA256 L plaintextKey, ck_key_prefix = take 8 plaintextKey,
               ck_permissions = permissions, ck_name = ci_name input\<rparr> of
             Inl err \<Rightarrow> (Inl err, s)
           | Inr (saved, d) \<Rightarrow>
               (Inr \<lparr>cr_key_id = ak_key_id saved, cr_api_key = plaintextKey,
                     cr_key_prefix = take 8 plaintextKey, cr_name = ak_name saved,
                     cr_permissions = ak_permissions saved, cr_created_at = ak_created_at saved\<rparr>,
                s\<lparr>db := d\<rparr>)))"

record api_key_summary =
  ks_key_id :: uuid
  ks_key_prefix :: string
  ks_name :: "string option"
  ks_permissions :: "permission list"
  ks_status :: api_key_status
  ks_created_at :: millis
  ks_last_used_at :: "millis option"

definition listKeys :: "store \<Rightarrow> uuid \<Rightarrow> api_key_summary list" where
  "listKeys d orgId =
     map (\<lambda>k. \<lparr>ks_key_id = ak_key_id k, ks_key_prefix = ak_key_prefix k, ks_name = ak_name k,
              ks_permissions = ak_permissions k, ks_status = ak_status k, ks_created_at = ak_created_at k,
              ks_last_used_at = ak_last_used_at k\<rparr>) (listApiKeysByOrg d orgId)"

definition revokeKey :: "uuid \<Rightarrow> uuid \<Rightarrow> unit op" where
  "revokeKey keyId orgId s =
     (case findApiKeyByIdAndOrg (db s) keyId orgId of
        None \<Rightarrow> (throw (NotFoundError ''API key not found'' ''NOT_FOUND''), s)
      | Some existing \<Rightarrow>
          if ak_status existing = REVOKED then (Inr (), s)
          else (Inr (), s\<lparr>db := revokeApiKey (db s) keyId orgId\<rparr>))"

section \<open>One key over time\<close>

text \<open>What every operation keeps of a key: its identity, and that a revoked key stays revoked.\<close>

definition key_later :: "api_key \<Rightarrow> api_key \<Rightarrow> bool" where
  "key_later k k' \<longleftrightarrow>
     ak_key_id k' = ak_key_id k \<and> ak_org_id k' = ak_org_id k \<and> ak_user_id k' = ak_user_id k \<and>
     ak_key_hash k' = ak_key_hash k \<and> ak_permissions k' = ak_permissions k \<and>
     (ak_status k = REVOKED \<longrightarrow> ak_status k' = REVOKED)"

definition keys_later :: "api_key list \<Rightarrow> api_key list \<Rightarrow> bool" where
  "keys_later ks ks' \<longleftrightarrow> (\<forall>k \<in> set ks. \<exists>k' \<in> set ks'. key_later k k')"

lemma key_later_refl [simp]: "key_later k k"
  by (simp add: key_later_def)

lemma keys_later_refl [simp]: "keys_later ks ks"
  unfolding keys_later_def by (meson key_later_refl)

lemma keys_later_trans:
  assumes "keys_later a b" and "keys_later b c"
  shows "keys_later a c"
  unfolding keys_later_def
proof
  fix k assume "k \<in> set a"
  then obtain k1 where k1: "k1 \<in> set b" "key_later k k1" using assms(1) by (auto simp: keys_later_def)
  then obtain k2 where "k2 \<in> set c" "key_later k1 k2" using assms(2) by (auto simp: keys_later_def)
  with k1 show "\<exists>k' \<in> set c. key_later k k'" by (intro bexI [of _ k2]) (auto simp: key_later_def)
qed

lemma keys_later_append: "keys_later ks (ks @ new)"
  unfolding keys_later_def by (metis UnI1 key_later_refl set_append)

lemma keys_later_update:
  "(\<And>k. key_later k (f k)) \<Longrightarrow> keys_later ks (update_where P f ks)"
  unfolding keys_later_def set_update_where by (metis (mono_tags, lifting) UnCI key_later_refl image_eqI mem_Collect_eq)

lemma validate_later: "keys_later (api_keys (db s)) (api_keys (db (snd (validateApiKey L cx b key s))))"
proof -
  have "keys_later ks (update_where P (\<lambda>k. k\<lparr>ak_last_used_at := Some t\<rparr>) ks)" for ks P t
    by (rule keys_later_update) (simp add: key_later_def)
  then show ?thesis by (simp add: validateApiKey_def Let_def touchLastUsed_def split: option.split)
qed

lemma create_later: "keys_later (api_keys (db s)) (api_keys (db (snd (createApiKey L cx input s))))"
  by (auto simp: createApiKey_def createApiKey_row_def map_sum_def Let_def keys_later_append
      dest!: insert_row_SomeD(1) split: sum.splits)

lemma revoke_later: "keys_later (api_keys (db s)) (api_keys (db (snd (revokeKey keyId orgId s))))"
proof -
  have "keys_later ks (update_where P (\<lambda>k. k\<lparr>ak_status := REVOKED\<rparr>) ks)" for ks P
    by (rule keys_later_update) (simp add: key_later_def)
  then show ?thesis by (simp add: revokeKey_def revokeApiKey_def split: option.split)
qed

section \<open>Validation\<close>

lemma findApiKeyByHash_live:
  assumes "distinct (map ak_key_hash (api_keys d))" and "k \<in> set (api_keys d)"
  shows "findApiKeyByHash d (ak_key_hash k) = (if ak_status k = KeyACTIVE then Some k else None)"
proof -
  have only: "k' = k" if "k' \<in> set (api_keys d)" "ak_key_hash k' = ak_key_hash k" for k'
    using distinct_map_eqD [OF assms(1) that(1) assms(2) that(2)] .
  show ?thesis
  proof (cases "ak_status k = KeyACTIVE")
    case True
    then show ?thesis unfolding findApiKeyByHash_def
      by simp (rule find_row_unique, use assms(2) only in auto)
  qed (use only in \<open>auto simp: findApiKeyByHash_def find_row_None_iff\<close>)
qed

lemma revoked_is_refused:
  assumes "distinct (map ak_key_hash (api_keys (db s)))" and "k \<in> set (api_keys (db s))"
    and "ak_key_hash k = hashSHA256 L key" and "ak_status k = REVOKED"
  shows "validateApiKey L cx b key s = (throw (AuthError ''Invalid API key'' ''INVALID_API_KEY''), s)"
  using findApiKeyByHash_live [OF assms(1,2)] assms(3,4) by (simp add: validateApiKey_def Let_def)

lemma validateApiKey_InrD:
  assumes "validateApiKey L cx b key s = (Inr vk, s')"
  obtains k g where "k \<in> set (api_keys (db s))" "ak_key_hash k = hashSHA256 L key" "ak_status k = KeyACTIVE"
    "g \<in> set (organisations (db s))" "o_org_id g = ak_org_id k" "o_status g = OrgACTIVE"
    "vk = \<lparr>vk_key_id = ak_key_id k, vk_org_id = ak_org_id k, vk_user_id = ak_user_id k, vk_permissions = ak_permissions k\<rparr>"
proof -
  obtain k where k: "findApiKeyByHash (db s) (hashSHA256 L key) = Some k"
    using assms by (auto simp: validateApiKey_def Let_def split: option.splits)
  then obtain g where g: "findOrgById (db s) (Some (ak_org_id k)) = Some g" "o_status g = OrgACTIVE"
    "vk = \<lparr>vk_key_id = ak_key_id k, vk_org_id = ak_org_id k, vk_user_id = ak_user_id k, vk_permissions = ak_permissions k\<rparr>"
    using assms by (auto simp: validateApiKey_def Let_def split: option.splits if_splits)
  show ?thesis
    by (rule that [of k g]) (use k g in \<open>auto simp: findApiKeyByHash_def findOrgById_def dest!: find_row_SomeD\<close>)
qed

end
