(* ===== verification/Events.thy ===== *)
theory Events
  imports Session
begin

text \<open>
  \<open>services/event/event-ingestion.service.ts\<close> and \<open>services/event/event-processing.service.ts\<close>:
  an event is stored as it came and handed to a callback, which computes its canonical
  hash, encrypts its texts and puts a job into the anchoring queue.

  Ingestion looks for an earlier event with the same idempotency key first and inserts
  afterwards; the two halves are separate definitions. \<open>host\<close> is the engine's parser of the
  date texts that ECMAScript leaves to it (\<open>JsDate\<close>).
\<close>

section \<open>Ingestion\<close>

record create_event_body =
  eb_prompt :: string
  eb_output :: string
  eb_model_id :: string
  eb_timestamp :: string
  eb_workflow_id :: "string option"
  eb_metadata :: "(string \<times> json) list option"

record ingest_input =
  in_org_id :: uuid
  in_api_key_id :: uuid
  in_user_id :: "uuid option"
  in_payload :: create_event_body
  in_idempotency_key :: "string option"

record ingest_result =
  ir_event_id :: uuid
  ir_status :: event_status
  ir_received_at :: millis
  ir_idempotent_replay :: bool

text \<open>The driver's error for an invalid \<open>Date\<close> in a timestamp column.\<close>

definition invalid_timestamp :: thrown where
  "invalid_timestamp = Native ''invalid input syntax for type timestamp with time zone'' (Some ''22007'')"

definition ingest_find :: "ingest_input \<Rightarrow> store \<Rightarrow> ingest_result option" where
  "ingest_find input d =
     (if truthy (in_idempotency_key input)
      then (case findEventByIdempotencyKey d (in_org_id input) (the (in_idempotency_key input)) of
              None \<Rightarrow> None
            | Some existing \<Rightarrow>
                Some \<lparr>ir_event_id = ev_event_id existing, ir_status = ev_status existing,
                      ir_received_at = ev_received_at existing, ir_idempotent_replay = True\<rparr>)
      else None)"

definition event_row_input :: "ingest_input \<Rightarrow> millis \<Rightarrow> create_event_input" where
  "event_row_input input t =
     (let p = in_payload input in
      \<lparr>ce_in_org_id = in_org_id input, ce_in_api_key_id = Some (in_api_key_id input),
       ce_in_user_id = in_user_id input, ce_in_prompt = eb_prompt p, ce_in_output = eb_output p,
       ce_in_model_id = eb_model_id p, ce_in_workflow_id = eb_workflow_id p,
       ce_in_metadata = eb_metadata p, ce_in_timestamp = t,
       ce_in_idempotency_key = in_idempotency_key input\<rparr>)"

text \<open>What the callback processes: the texts of the request and the rest of the stored row.\<close>

definition processable :: "create_event_body \<Rightarrow> event \<Rightarrow> processable_event" where
  "processable p ev =
     \<lparr>pe_event_id = ev_event_id ev, pe_org_id = ev_org_id ev,
      pe_content = \<lparr>ce_prompt = eb_prompt p, ce_output = eb_output p, ce_model_id = eb_model_id p,
        ce_timestamp = toISOString (ev_timestamp ev), ce_workflow_id = ev_workflow_id ev,
        ce_metadata = ev_metadata ev\<rparr>\<rparr>"

definition ingest_insert ::
    "(string \<Rightarrow> millis option) \<Rightarrow> ctx \<Rightarrow> bool \<Rightarrow> ingest_input \<Rightarrow> ingest_result op" where
  "ingest_insert host cx hasService input s =
     (case date_parse host (eb_timestamp (in_payload input)) of
        None \<Rightarrow> (Inl invalid_timestamp, s)
      | Some t \<Rightarrow>
          (case createEvent (cx_now cx) (cx_id cx 0) (db s) (event_row_input input t) of
             Inl err \<Rightarrow> (Inl err, s)
           | Inr (ev, d) \<Rightarrow>
               (Inr \<lparr>ir_event_id = ev_event_id ev, ir_status = ev_status ev,
                     ir_received_at = ev_received_at ev, ir_idempotent_replay = False\<rparr>,
                s\<lparr>db := d,
                  dispatched := dispatched s @ (if hasService then [processable (in_payload input) ev] else [])\<rparr>)))"

definition ingest ::
    "(string \<Rightarrow> millis option) \<Rightarrow> ctx \<Rightarrow> bool \<Rightarrow> ingest_input \<Rightarrow> ingest_result op" where
  "ingest host cx hasService input s =
     (case ingest_find input (db s) of
        Some replay \<Rightarrow> (Inr replay, s)
      | None \<Rightarrow> ingest_insert host cx hasService input s)"

section \<open>Processing\<close>

text \<open>
  The two initialisation vectors of a run, and the failure of adding a job to the queue. Of the
  result, which no caller reads, the hash is kept.
\<close>

record process_ctx =
  pc_iv_prompt :: "byte list"
  pc_iv_output :: "byte list"
  pc_queue_error :: "thrown option"

definition process_event ::
    "libs \<Rightarrow> env \<Rightarrow> (string \<Rightarrow> millis option) \<Rightarrow> process_ctx \<Rightarrow> processable_event \<Rightarrow> string op" where
  "process_event L e host pc ev s =
     (case canonicalise host (pe_content ev) of
        Inl err \<Rightarrow> (Inl err, s)
      | Inr canonicalString \<Rightarrow>
          let hash = canonical_hash L canonicalString in
          (case encrypt L e (pc_iv_prompt pc) (ce_prompt (pe_content ev)) of
             Inl err \<Rightarrow> (Inl err, s)
           | Inr encrypted_prompt \<Rightarrow>
          (case encrypt L e (pc_iv_output pc) (ce_output (pe_content ev)) of
             Inl err \<Rightarrow> (Inl err, s)
           | Inr encrypted_output \<Rightarrow>
               let s' = s\<lparr>db := updateEventToAnchoring (db s)
                     \<lparr>ta_event_id = pe_event_id ev, ta_org_id = pe_org_id ev, ta_canonical_hash = hash,
                      ta_encrypted_prompt = encrypted_prompt, ta_encrypted_output = encrypted_output,
                      ta_status = ANCHORING\<rparr>\<rparr>
               in (case pc_queue_error pc of
                     Some err \<Rightarrow> (Inl err, s')
                   | None \<Rightarrow>
                       (Inr hash,
                        s'\<lparr>queue := queue s' @
                          [\<lparr>aj_eventId = pe_event_id ev, aj_orgId = pe_org_id ev, aj_canonicalHash = hash\<rparr>]\<rparr>)))))"

section \<open>Lemmas\<close>

lemma ingest_insert_cases:
  assumes "ingest_insert host cx b input s = (Inr r, s')"
  obtains t ev d where "date_parse host (eb_timestamp (in_payload input)) = Some t"
    "createEvent (cx_now cx) (cx_id cx 0) (db s) (event_row_input input t) = Inr (ev, d)"
    "r = \<lparr>ir_event_id = ev_event_id ev, ir_status = ev_status ev, ir_received_at = ev_received_at ev,
          ir_idempotent_replay = False\<rparr>"
    "s' = s\<lparr>db := d, dispatched := dispatched s @ (if b then [processable (in_payload input) ev] else [])\<rparr>"
  using assms that by (auto simp: ingest_insert_def split: option.splits sum.splits prod.splits)

lemma createEvent_SomeD:
  assumes "createEvent now i d input = Inr (ev, d')"
  shows "d' = d\<lparr>events := events d @ [ev]\<rparr>" "ev_event_id ev = i" "ev_org_id ev = ce_in_org_id input"
    "ev_status ev = PROCESSING" "ev_received_at ev = now"
    "ev_idempotency_key ev = ce_in_idempotency_key input"
    "ev_prompt ev = ce_in_prompt input" "ev_output ev = ce_in_output input"
    "ev_model_id ev = ce_in_model_id input" "ev_workflow_id ev = ce_in_workflow_id input"
    "ev_metadata ev = ce_in_metadata input" "ev_timestamp ev = ce_in_timestamp input"
    "ev_canonical_hash ev = None" "ev_tx_hash ev = None" "ev_block_number ev = None"
    "ev_chain_id ev = None" "ev_anchored_at ev = None" "ev_anchor_error ev = None"
    "insert_row event_constraints ev (events d) = Inr (events d @ [ev])"
  using assms
  by (auto simp: createEvent_def Let_def map_sum_def dest: insert_row_SomeD(1) split: sum.splits)

lemma process_event_cases:
  assumes "process_event L e host pc ev s = (Inr h, s')"
  obtains str p out where "canonicalise host (pe_content ev) = Inr str" "h = canonical_hash L str"
    "encrypt L e (pc_iv_prompt pc) (ce_prompt (pe_content ev)) = Inr p"
    "encrypt L e (pc_iv_output pc) (ce_output (pe_content ev)) = Inr out"
    "pc_queue_error pc = None"
    "s' = s\<lparr>db := updateEventToAnchoring (db s) \<lparr>ta_event_id = pe_event_id ev, ta_org_id = pe_org_id ev,
             ta_canonical_hash = h, ta_encrypted_prompt = p, ta_encrypted_output = out, ta_status = ANCHORING\<rparr>,
           queue := queue s @ [\<lparr>aj_eventId = pe_event_id ev, aj_orgId = pe_org_id ev, aj_canonicalHash = h\<rparr>]\<rparr>"
  using assms that by (auto simp: process_event_def Let_def split: sum.splits option.splits)

end
