(* ===== verification/Anchoring.thy ===== *)
theory Anchoring
  imports Events Backoff
begin

text \<open>
  \<open>services/BlockchainAnchoringService.ts\<close>, \<open>config/blockchain.config.ts\<close> and the worker's processor
  (\<open>workers/anchoring.worker.ts\<close>): a job submits the hash of its event to the registry contract,
  waits for the receipt, and records the outcome on the event.

  The chain behind the viem clients is a state of any type \<open>'w\<close> with two operations
  (\<open>chain_client\<close>). A receipt carries its status; the source reads its block number only.
\<close>

section \<open>Configuration\<close>

record blockchain_config =
  bc_rpcUrl :: string
  bc_contractAddress :: string
  bc_chainId :: "int option" \<comment> \<open>\<open>None\<close> is \<open>NaN\<close>\<close>
  bc_confirmationDepth :: "int option"

record chain_env =
  QUICKNODE_RPC_URL :: "string option"
  ANCHOR_CONTRACT_ADDRESS :: "string option"
  ANCHOR_CHAIN_ID :: "string option"
  ANCHOR_CONFIRMATION_DEPTH :: "string option"
  SIGNING_PRIVATE_KEY :: "string option"

definition createBlockchainConfig :: "chain_env \<Rightarrow> blockchain_config result" where
  "createBlockchainConfig ce =
     (if \<not> truthy (QUICKNODE_RPC_URL ce)
      then Inl (Native ''QUICKNODE_RPC_URL environment variable is not set'' None)
      else if \<not> truthy (ANCHOR_CONTRACT_ADDRESS ce)
      then Inl (Native ''ANCHOR_CONTRACT_ADDRESS environment variable is not set'' None)
      else Inr
        \<lparr>bc_rpcUrl = the (QUICKNODE_RPC_URL ce), bc_contractAddress = the (ANCHOR_CONTRACT_ADDRESS ce),
         bc_chainId = parseInt10 (case ANCHOR_CHAIN_ID ce of None \<Rightarrow> ''84532'' | Some i \<Rightarrow> i),
         bc_confirmationDepth = parseInt10 (case ANCHOR_CONFIRMATION_DEPTH ce of None \<Rightarrow> ''3'' | Some n \<Rightarrow> n)\<rparr>)"

datatype chain = Base | BaseSepolia

definition show_number :: "int option \<Rightarrow> string" where
  "show_number n = (case n of None \<Rightarrow> ''NaN'' | Some i \<Rightarrow> show_int i)"

definition resolveChain :: "int option \<Rightarrow> chain result" where
  "resolveChain chainId =
     (if chainId = Some 8453 then Inr Base
      else if chainId = Some 84532 then Inr BaseSepolia
      else Inl (Native (''Unsupported chainId: '' @ show_number chainId @ ''. Add it to blockchain.config.ts'') None))"

text \<open>What the two clients are made of: the chain, the node, and for the wallet the private key.\<close>

definition createBlockchainPublicClient :: "blockchain_config \<Rightarrow> (chain \<times> string) result" where
  "createBlockchainPublicClient config =
     map_sum id (\<lambda>c. (c, bc_rpcUrl config)) (resolveChain (bc_chainId config))"

definition createBlockchainWalletClient :: "chain_env \<Rightarrow> blockchain_config \<Rightarrow> (string \<times> chain \<times> string) result" where
  "createBlockchainWalletClient ce config =
     (if \<not> truthy (SIGNING_PRIVATE_KEY ce)
      then Inl (Native ''SIGNING_PRIVATE_KEY environment variable is not set'' None)
      else map_sum id (\<lambda>c. (''0x'' @ the (SIGNING_PRIVATE_KEY ce), c, bc_rpcUrl config))
             (resolveChain (bc_chainId config)))"

section \<open>Anchoring\<close>

record tx_receipt =
  rc_blockNumber :: nat
  rc_reverted :: bool

record 'w chain_client =
  cc_writeContract :: "string \<Rightarrow> string \<Rightarrow> 'w \<Rightarrow> string result \<times> 'w"
    \<comment> \<open>\<open>anchorHash(hash, event id)\<close>, gives the hash of the transaction\<close>
  cc_waitForReceipt :: "string \<Rightarrow> 'w \<Rightarrow> tx_receipt result \<times> 'w"

definition encodeCanonicalHash :: "string \<Rightarrow> string" where
  "encodeCanonicalHash hash = ''0x'' @ hash"

definition encodeEventId :: "uuid \<Rightarrow> string" where
  "encodeEventId eventId = ''0x'' @ padStart (filter (\<lambda>c. c \<noteq> CHR ''-'') eventId) 64 CHR ''0''"

text \<open>
  The identifier of the chain is a number here: with \<open>NaN\<close> the clients are never made
  (\<open>resolveChain\<close>), and the worker does not start. Next to it the time of the anchoring, and the failure of
  the first update of the event.
\<close>

record anchor_ctx =
  ac_now :: millis
  ac_update_error :: "thrown option"

definition anchor_failed :: "anchor_job \<Rightarrow> thrown \<Rightarrow> sys \<Rightarrow> unit result \<times> sys" where
  "anchor_failed job err s =
     (Inl err, s\<lparr>db := updateEventToAnchorFailed (db s) (aj_eventId job) (aj_orgId job) (error_text err)\<rparr>)"

definition anchorEvent ::
    "'w chain_client \<Rightarrow> int \<Rightarrow> env \<Rightarrow> anchor_ctx \<Rightarrow> anchor_job \<Rightarrow> 'w \<times> sys \<Rightarrow> unit result \<times> 'w \<times> sys"
where
  "anchorEvent C chainId e ac job ws =
     (let (w, s) = ws;
          canonicalHashBytes32 = encodeCanonicalHash (aj_canonicalHash job);
          eventIdBytes32 = encodeEventId (aj_eventId job);
          (sent, w1, _) = withExponentialBackoff
            (cc_writeContract C canonicalHashBytes32 eventIdBytes32) (default_options e) w
      in case sent of
           Inl err \<Rightarrow> (let (r, s') = anchor_failed job err s in (r, w1, s'))
         | Inr txHash \<Rightarrow>
             (let (got, w2, _) = withExponentialBackoff (cc_waitForReceipt C txHash) (default_options e) w1
              in case got of
                   Inl err \<Rightarrow> (let (r, s') = anchor_failed job err s in (r, w2, s'))
                 | Inr receipt \<Rightarrow>
                     (case ac_update_error ac of
                        Some err \<Rightarrow> (let (r, s') = anchor_failed job err s in (r, w2, s'))
                      | None \<Rightarrow>
                          (Inr (), w2,
                           s\<lparr>db := updateEventToAnchored (db s)
                             \<lparr>td_event_id = aj_eventId job, td_org_id = aj_orgId job, td_tx_hash = txHash,
                              td_block_number = rc_blockNumber receipt, td_chain_id = chainId,
                              td_anchored_at = ac_now ac\<rparr>\<rparr>))))"

text \<open>The processor of the worker: a job is taken from the queue and its event anchored.\<close>

definition process_job ::
    "'w chain_client \<Rightarrow> int \<Rightarrow> env \<Rightarrow> anchor_ctx \<Rightarrow> 'w \<times> sys \<Rightarrow> 'w \<times> sys" where
  "process_job C chainId e ac ws =
     (case queue (snd ws) of
        [] \<Rightarrow> ws
      | job # jobs \<Rightarrow> snd (anchorEvent C chainId e ac job (fst ws, (snd ws)\<lparr>queue := jobs\<rparr>)))"

end
