(* ===== verification/Pipeline.thy ===== *)
theory Pipeline
  imports Anchoring
begin

text \<open>
  Ingestion, processing and anchoring as one system. A step is a request that ingests an
  event, a callback that processes one, the worker taking a job, or a move of the chain. The invariant ties the three together: what a pending callback or a job may
  rely on, which columns an event has in which status, and that a stored hash is the hash
  of what the stored event decrypts to.
\<close>

section \<open>Steps\<close>

inductive pipeline_step ::
    "libs \<Rightarrow> env \<Rightarrow> (string \<Rightarrow> millis option) \<Rightarrow> 'w chain_client \<Rightarrow> ('w \<Rightarrow> 'w \<Rightarrow> bool) \<Rightarrow> int \<Rightarrow>
     'w \<times> sys \<Rightarrow> 'w \<times> sys \<Rightarrow> bool"
  for L e host C moves chainId
where
  step_ingest: "pipeline_step L e host C moves chainId (w, s) (w, snd (ingest host cx b input s))"
| step_process: "dispatched s = xs @ pe # ys \<Longrightarrow> length (pc_iv_prompt pc) = IV_LENGTH \<Longrightarrow>
    length (pc_iv_output pc) = IV_LENGTH \<Longrightarrow>
    pipeline_step L e host C moves chainId (w, s) (w, snd (process_event L e host pc pe (s\<lparr>dispatched := xs @ ys\<rparr>)))"
| step_job: "pipeline_step L e host C moves chainId ws (process_job C chainId e ac ws)"
| step_chain: "moves w w' \<Longrightarrow> pipeline_step L e host C moves chainId (w, s) (w', s)"

section \<open>The invariant\<close>

text \<open>The columns an event has in each status.\<close>

definition event_wf :: "event \<Rightarrow> bool" where
  "event_wf ev \<longleftrightarrow>
     (case ev_status ev of
        PROCESSING \<Rightarrow> ev_canonical_hash ev = None \<and> ev_tx_hash ev = None \<and> ev_block_number ev = None \<and>
          ev_chain_id ev = None \<and> ev_anchored_at ev = None \<and> ev_anchor_error ev = None
      | ANCHORING \<Rightarrow> ev_canonical_hash ev \<noteq> None \<and> ev_tx_hash ev = None \<and> ev_block_number ev = None \<and>
          ev_chain_id ev = None \<and> ev_anchored_at ev = None \<and> ev_anchor_error ev = None
      | ANCHORED \<Rightarrow> ev_canonical_hash ev \<noteq> None \<and> ev_tx_hash ev \<noteq> None \<and> ev_block_number ev \<noteq> None \<and>
          ev_chain_id ev \<noteq> None \<and> ev_anchored_at ev \<noteq> None \<and> ev_anchor_error ev = None
      | ANCHOR_FAILED \<Rightarrow> ev_canonical_hash ev \<noteq> None \<and> ev_tx_hash ev = None \<and> ev_block_number ev = None \<and>
          ev_chain_id ev = None \<and> ev_anchored_at ev = None \<and> ev_anchor_error ev \<noteq> None)"

text \<open>The content of an event row, given its texts in the clear.\<close>

definition row_content :: "event \<Rightarrow> string \<Rightarrow> string \<Rightarrow> canon_event" where
  "row_content ev p out =
     \<lparr>ce_prompt = p, ce_output = out, ce_model_id = ev_model_id ev,
      ce_timestamp = toISOString (ev_timestamp ev), ce_workflow_id = ev_workflow_id ev,
      ce_metadata = ev_metadata ev\<rparr>"

text \<open>The stored hash is the hash of what the row decrypts to.\<close>

definition sealed :: "libs \<Rightarrow> env \<Rightarrow> (string \<Rightarrow> millis option) \<Rightarrow> event \<Rightarrow> bool" where
  "sealed L e host ev \<longleftrightarrow>
     (case (decrypt L e (ev_prompt ev), decrypt L e (ev_output ev)) of
        (Inr p, Inr out) \<Rightarrow>
          (case canonicalise host (row_content ev p out) of
             Inr str \<Rightarrow> ev_canonical_hash ev = Some (canonical_hash L str)
           | Inl err \<Rightarrow> False)
      | _ \<Rightarrow> False)"

definition awaits :: "event list \<Rightarrow> processable_event \<Rightarrow> bool" where
  "awaits evs pe \<longleftrightarrow> (\<exists>ev \<in> set evs. ev_event_id ev = pe_event_id pe \<and> ev_org_id ev = pe_org_id pe \<and>
     ev_status ev = PROCESSING \<and> pe_content pe = row_content ev (ev_prompt ev) (ev_output ev))"

definition job_for :: "event list \<Rightarrow> anchor_job \<Rightarrow> bool" where
  "job_for evs job \<longleftrightarrow> (\<exists>ev \<in> set evs. ev_event_id ev = aj_eventId job \<and> ev_org_id ev = aj_orgId job \<and>
     ev_status ev = ANCHORING \<and> ev_canonical_hash ev = Some (aj_canonicalHash job))"

definition pipeline_inv :: "libs \<Rightarrow> env \<Rightarrow> (string \<Rightarrow> millis option) \<Rightarrow> sys \<Rightarrow> bool" where
  "pipeline_inv L e host s \<longleftrightarrow>
     unique_rows event_constraints (events (db s)) \<and>
     (\<forall>ev \<in> set (events (db s)). event_wf ev \<and> (ev_status ev \<noteq> PROCESSING \<longrightarrow> sealed L e host ev)) \<and>
     (\<forall>pe \<in> set (dispatched s). awaits (events (db s)) pe) \<and> distinct (map pe_event_id (dispatched s)) \<and>
     (\<forall>job \<in> set (queue s). job_for (events (db s)) job) \<and> distinct (map aj_eventId (queue s))"

section \<open>Updating one event\<close>

lemma event_ids: "unique_rows event_constraints evs \<Longrightarrow> distinct (map ev_event_id evs)"
  by (simp add: unique_rows_def event_constraints_def filter_map comp_def distinct_map) (simp add: inj_on_def)

lemma events_update_event [simp]:
  "events (update_event d i g f) = update_where (\<lambda>ev. ev_event_id ev = i \<and> ev_org_id ev = g) f (events d)"
  by (simp add: update_event_def)

lemma update_one_event:
  assumes "unique_rows event_constraints evs" and "ev0 \<in> set evs"
    and "\<And>ev. ev_event_id (f ev) = ev_event_id ev \<and> ev_org_id (f ev) = ev_org_id ev \<and>
      ev_idempotency_key (f ev) = ev_idempotency_key ev"
  defines "evs' \<equiv> update_where (\<lambda>ev. ev_event_id ev = ev_event_id ev0 \<and> ev_org_id ev = ev_org_id ev0) f evs"
  shows "unique_rows event_constraints evs'"
    and "set evs' = insert (f ev0) (set evs - {ev0})"
proof -
  show "unique_rows event_constraints evs'"
    unfolding evs'_def using assms(1,3) by (auto simp: event_constraints_def intro!: unique_rows_update)
  have "ev \<in> set evs \<Longrightarrow> (ev_event_id ev = ev_event_id ev0 \<and> ev_org_id ev = ev_org_id ev0) = (ev = ev0)" for ev
    using distinct_map_eqD [OF event_ids [OF assms(1)] _ assms(2)] by blast
  then have "evs' = update_where (\<lambda>ev. ev = ev0) f evs"
    unfolding evs'_def by (rule update_where_cong)
  then show "set evs' = insert (f ev0) (set evs - {ev0})"
    using assms(2) by (auto simp: set_update_where)
qed

text \<open>Callbacks and jobs of other events do not notice the update of an event.\<close>

lemma awaits_other:
  "awaits evs pe \<Longrightarrow> pe_event_id pe \<noteq> ev_event_id ev0 \<Longrightarrow> set evs' = insert ev1 (set evs - {ev0}) \<Longrightarrow> awaits evs' pe"
  unfolding awaits_def by auto

lemma job_for_other:
  "job_for evs job \<Longrightarrow> aj_eventId job \<noteq> ev_event_id ev0 \<Longrightarrow> set evs' = insert ev1 (set evs - {ev0}) \<Longrightarrow> job_for evs' job"
  unfolding job_for_def by auto

lemma awaits_append: "awaits evs pe \<Longrightarrow> awaits (evs @ evs') pe"
  and job_for_append: "job_for evs job \<Longrightarrow> job_for (evs @ evs') job"
  by (auto simp: awaits_def job_for_def)

lemma job_event_status:
  assumes "unique_rows event_constraints evs" and "ev \<in> set evs" and "job_for evs job"
    and "aj_eventId job = ev_event_id ev"
  shows "ev_status ev = ANCHORING" "ev_org_id ev = aj_orgId job" "ev_canonical_hash ev = Some (aj_canonicalHash job)"
  using assms distinct_map_eqD [OF event_ids [OF assms(1)] _ assms(2)] by (auto simp: job_for_def)

lemma awaited_event_status:
  assumes "unique_rows event_constraints evs" and "ev \<in> set evs" and "awaits evs pe"
    and "pe_event_id pe = ev_event_id ev"
  shows "ev_status ev = PROCESSING" "ev_org_id ev = pe_org_id pe"
    "pe_content pe = row_content ev (ev_prompt ev) (ev_output ev)"
  using assms distinct_map_eqD [OF event_ids [OF assms(1)] _ assms(2)] by (auto simp: awaits_def)

section \<open>Every step keeps the invariant\<close>

lemma inv_drop:
  assumes "pipeline_inv L e host s" and "set D' \<subseteq> set (dispatched s)" and "distinct (map pe_event_id D')"
    and "set Q' \<subseteq> set (queue s)" and "distinct (map aj_eventId Q')"
  shows "pipeline_inv L e host (s\<lparr>dispatched := D', queue := Q'\<rparr>)"
  using assms by (auto simp: pipeline_inv_def)

lemma inv_update:
  assumes inv: "pipeline_inv L e host s" and ev0: "ev0 \<in> set (events (db s))"
    and keys: "\<And>ev. ev_event_id (f ev) = ev_event_id ev \<and> ev_org_id (f ev) = ev_org_id ev \<and>
      ev_idempotency_key (f ev) = ev_idempotency_key ev"
    and wf: "event_wf (f ev0)" "ev_status (f ev0) \<noteq> PROCESSING \<longrightarrow> sealed L e host (f ev0)"
    and D: "\<forall>pe \<in> set (dispatched s). pe_event_id pe \<noteq> ev_event_id ev0"
    and Q: "\<forall>job \<in> set (queue s). aj_eventId job \<noteq> ev_event_id ev0"
  shows "pipeline_inv L e host (s\<lparr>db := update_event (db s) (ev_event_id ev0) (ev_org_id ev0) f\<rparr>)"
proof -
  have uniq: "unique_rows event_constraints (events (db s))" using inv by (simp add: pipeline_inv_def)
  note upd = update_one_event [OF uniq ev0 keys]
  have "awaits (events (db s)) pe" if "pe \<in> set (dispatched s)" for pe
    using inv that by (simp add: pipeline_inv_def)
  moreover have "job_for (events (db s)) job" if "job \<in> set (queue s)" for job
    using inv that by (simp add: pipeline_inv_def)
  ultimately show ?thesis
    using inv wf upd D Q awaits_other [OF _ _ upd(2)] job_for_other [OF _ _ upd(2)]
    unfolding pipeline_inv_def by simp
qed

lemma inv_enqueue:
  "pipeline_inv L e host s \<Longrightarrow> job_for (events (db s)) job \<Longrightarrow>
     \<forall>job' \<in> set (queue s). aj_eventId job' \<noteq> aj_eventId job \<Longrightarrow>
     pipeline_inv L e host (s\<lparr>queue := queue s @ [job]\<rparr>)"
  by (auto simp: pipeline_inv_def)

lemma inv_ingest_insert:
  assumes "pipeline_inv L e host s"
  shows "pipeline_inv L e host (snd (ingest_insert host cx b input s))"
proof (cases "fst (ingest_insert host cx b input s)")
  case (Inl err)
  then have "snd (ingest_insert host cx b input s) = s"
    by (auto simp: ingest_insert_def split: option.splits sum.splits)
  with assms show ?thesis by simp
next
  case (Inr r)
  then obtain s' where s': "ingest_insert host cx b input s = (Inr r, s')"
    by (metis prod.collapse)
  from ingest_insert_cases [OF s'] obtain t ev d
    where c: "createEvent (cx_now cx) (cx_id cx 0) (db s) (event_row_input input t) = Inr (ev, d)"
      and new: "s' = s\<lparr>db := d, dispatched := dispatched s @ (if b then [processable (in_payload input) ev] else [])\<rparr>"
    by metis
  note ev = createEvent_SomeD [OF c]
  have d: "d = db s\<lparr>events := events (db s) @ [ev]\<rparr>" by (rule ev(1))
  have fresh: "ev_event_id ev' \<noteq> ev_event_id ev" if "ev' \<in> set (events (db s))" for ev'
    using insert_row_SomeD(2) [OF ev(19), of "(\<lambda>e. Some [ev_event_id e], ''events_pkey'')"] that
    by (auto simp: event_constraints_def image_iff)
  have uniq: "unique_rows event_constraints (events (db s) @ [ev])"
    using insert_row_unique [OF _ ev(19)] assms by (simp add: pipeline_inv_def)
  have aw: "awaits (events (db s) @ [ev]) (processable (in_payload input) ev)"
    by (auto simp: awaits_def processable_def row_content_def ev event_row_input_def Let_def)
  have other: "\<forall>pe \<in> set (dispatched s). pe_event_id pe \<noteq> ev_event_id ev"
    using assms fresh by (fastforce simp: pipeline_inv_def awaits_def)
  have wf: "event_wf ev" "ev_status ev = PROCESSING" using ev by (simp_all add: event_wf_def)
  have id: "pe_event_id (processable (in_payload input) ev) = ev_event_id ev" by (simp add: processable_def)
  have "pipeline_inv L e host s'"
    using assms uniq aw other wf id unfolding pipeline_inv_def new d
    by (auto intro: awaits_append job_for_append)
  with s' show ?thesis by simp
qed

lemma inv_ingest: "pipeline_inv L e host s \<Longrightarrow> pipeline_inv L e host (snd (ingest host cx b input s))"
  using inv_ingest_insert by (simp add: ingest_def split: option.split)

lemma inv_process:
  assumes inv: "pipeline_inv L e host s" and pe: "dispatched s = xs @ pe # ys"
    and gcm: "gcm_correct L" and iv: "length (pc_iv_prompt pc) = IV_LENGTH" "length (pc_iv_output pc) = IV_LENGTH"
  shows "pipeline_inv L e host (snd (process_event L e host pc pe (s\<lparr>dispatched := xs @ ys\<rparr>)))"
proof -
  define s1 where "s1 = s\<lparr>dispatched := xs @ ys\<rparr>"
  have inv1: "pipeline_inv L e host s1"
    using inv_drop [OF inv, of "xs @ ys" "queue s"] inv pe by (auto simp: s1_def pipeline_inv_def)
  have aw: "awaits (events (db s)) pe" and uniq: "unique_rows event_constraints (events (db s))"
    using inv pe by (simp_all add: pipeline_inv_def)
  obtain ev0 where ev0: "ev0 \<in> set (events (db s1))" "ev_event_id ev0 = pe_event_id pe"
    "ev_org_id ev0 = pe_org_id pe" "ev_status ev0 = PROCESSING"
    "pe_content pe = row_content ev0 (ev_prompt ev0) (ev_output ev0)"
    using aw by (auto simp: awaits_def s1_def)
  have D: "\<forall>pe' \<in> set (dispatched s1). pe_event_id pe' \<noteq> ev_event_id ev0"
    using inv pe ev0(2) by (auto simp: pipeline_inv_def s1_def image_iff)
  have Q: "\<forall>job \<in> set (queue s1). aj_eventId job \<noteq> ev_event_id ev0"
    using job_event_status(1) [of "events (db s1)" ev0] inv1 ev0(1,4)
    by (fastforce simp: pipeline_inv_def)
  show ?thesis
  proof (cases "\<exists>str p out. canonicalise host (pe_content pe) = Inr str \<and>
        encrypt L e (pc_iv_prompt pc) (ce_prompt (pe_content pe)) = Inr p \<and>
        encrypt L e (pc_iv_output pc) (ce_output (pe_content pe)) = Inr out")
    case False
    then have "snd (process_event L e host pc pe s1) = s1"
      by (auto simp: process_event_def Let_def split: sum.splits)
    with inv1 show ?thesis by (simp add: s1_def)
  next
    case True
    then obtain str p out where ok: "canonicalise host (pe_content pe) = Inr str"
      "encrypt L e (pc_iv_prompt pc) (ce_prompt (pe_content pe)) = Inr p"
      "encrypt L e (pc_iv_output pc) (ce_output (pe_content pe)) = Inr out" by blast
    let ?h = "canonical_hash L str"
    let ?f = "\<lambda>ev. ev\<lparr>ev_canonical_hash := Some ?h, ev_prompt := p, ev_output := out, ev_status := ANCHORING\<rparr>"
    let ?job = "\<lparr>aj_eventId = pe_event_id pe, aj_orgId = pe_org_id pe, aj_canonicalHash = ?h\<rparr>"
    define s2 where "s2 = s1\<lparr>db := update_event (db s1) (ev_event_id ev0) (ev_org_id ev0) ?f\<rparr>"
    have "event_wf ev0" using inv1 ev0(1) by (simp add: pipeline_inv_def)
    then have wf: "event_wf (?f ev0)" using ev0(4) by (simp add: event_wf_def)
    have dec: "decrypt L e p = Inr (ev_prompt ev0)" "decrypt L e out = Inr (ev_output ev0)"
      using decrypt_encrypt [OF gcm iv(1) ok(2)] decrypt_encrypt [OF gcm iv(2) ok(3)] ev0(5)
      by (simp_all add: row_content_def)
    have "sealed L e host (?f ev0)"
      using ok(1) by (simp add: sealed_def dec ev0(5) row_content_def)
    then have inv2: "pipeline_inv L e host s2"
      unfolding s2_def using inv_update [OF inv1 ev0(1), of ?f] wf D Q by simp
    have "set (events (db s2)) = insert (?f ev0) (set (events (db s1)) - {ev0})"
      unfolding s2_def using update_one_event(2) [of "events (db s1)" ev0 ?f] uniq ev0(1) by (simp add: s1_def)
    then have "job_for (events (db s2)) ?job" using ev0(2,3) by (auto simp: job_for_def)
    then have "pipeline_inv L e host (s2\<lparr>queue := queue s2 @ [?job]\<rparr>)"
      using inv_enqueue [OF inv2, of ?job] Q ev0(2) by (simp add: s2_def)
    moreover have "snd (process_event L e host pc pe s1) =
        (if pc_queue_error pc = None then s2\<lparr>queue := queue s2 @ [?job]\<rparr> else s2)"
      using ok by (simp add: process_event_def Let_def updateEventToAnchoring_def s2_def ev0(2,3)
          split: option.splits)
    ultimately show ?thesis using inv2 by (simp add: s1_def)
  qed
qed

lemma sealed_cong:
  "ev_prompt ev' = ev_prompt ev \<Longrightarrow> ev_output ev' = ev_output ev \<Longrightarrow> ev_model_id ev' = ev_model_id ev \<Longrightarrow>
     ev_timestamp ev' = ev_timestamp ev \<Longrightarrow> ev_workflow_id ev' = ev_workflow_id ev \<Longrightarrow>
     ev_metadata ev' = ev_metadata ev \<Longrightarrow> ev_canonical_hash ev' = ev_canonical_hash ev \<Longrightarrow>
     sealed L e host ev' = sealed L e host ev"
  by (simp add: sealed_def row_content_def split: sum.splits)

lemma job_event:
  assumes "pipeline_inv L e host s" and "queue s = job # jobs"
  obtains ev where "ev \<in> set (events (db s))" "ev_event_id ev = aj_eventId job" "ev_org_id ev = aj_orgId job"
    "ev_status ev = ANCHORING" "ev_canonical_hash ev = Some (aj_canonicalHash job)" "event_wf ev" "sealed L e host ev"
  using assms that by (fastforce simp: pipeline_inv_def job_for_def)

lemma inv_finish_job:
  assumes inv: "pipeline_inv L e host s" and job: "queue s = job # jobs"
    and f: "f = (\<lambda>ev. ev\<lparr>ev_tx_hash := Some tx, ev_block_number := Some n, ev_chain_id := Some c,
        ev_anchored_at := Some t, ev_status := ANCHORED\<rparr>) \<or>
      f = (\<lambda>ev. ev\<lparr>ev_status := ANCHOR_FAILED, ev_anchor_error := Some err\<rparr>)"
  shows "pipeline_inv L e host (s\<lparr>queue := jobs, db := update_event (db s) (aj_eventId job) (aj_orgId job) f\<rparr>)"
proof -
  define s1 where "s1 = s\<lparr>queue := jobs\<rparr>"
  have inv1: "pipeline_inv L e host s1"
    using inv_drop [OF inv, of "dispatched s" jobs] inv job by (auto simp: s1_def pipeline_inv_def)
  obtain ev where ev: "ev \<in> set (events (db s))" "ev_event_id ev = aj_eventId job" "ev_org_id ev = aj_orgId job"
    "ev_status ev = ANCHORING" "ev_canonical_hash ev = Some (aj_canonicalHash job)" "event_wf ev" "sealed L e host ev"
    using job_event [OF inv job] by metis
  have wf: "event_wf (f ev)" using f ev(4,5,6) by (auto simp: event_wf_def)
  have seal: "sealed L e host (f ev)" using f ev(7) sealed_cong [of "f ev" ev] by fastforce
  have D: "\<forall>pe \<in> set (dispatched s1). pe_event_id pe \<noteq> ev_event_id ev"
    using awaited_event_status(1) [of "events (db s)" ev] inv ev(1,4) by (fastforce simp: pipeline_inv_def s1_def)
  have Q: "\<forall>job \<in> set (queue s1). aj_eventId job \<noteq> ev_event_id ev"
    using inv job ev(2) by (auto simp: pipeline_inv_def s1_def image_iff)
  have "pipeline_inv L e host (s1\<lparr>db := update_event (db s1) (ev_event_id ev) (ev_org_id ev) f\<rparr>)"
    using inv_update [of L e host s1 ev f] inv1 ev(1) f wf seal D Q by (auto simp: s1_def)
  then show ?thesis by (simp add: s1_def ev(2,3))
qed

text \<open>The worker ends a job in one of two ways.\<close>

lemma anchorEvent_cases:
  obtains (anchored) tx w1 x1 r w2 x2 where
    "withExponentialBackoff (cc_writeContract C (encodeCanonicalHash (aj_canonicalHash job))
       (encodeEventId (aj_eventId job))) (default_options e) w = (Inr tx, w1, x1)"
    "withExponentialBackoff (cc_waitForReceipt C tx) (default_options e) w1 = (Inr r, w2, x2)"
    "anchorEvent C chainId e ac job (w, s) = (Inr (), w2, s\<lparr>db := update_event (db s) (aj_eventId job) (aj_orgId job)
       (\<lambda>ev. ev\<lparr>ev_tx_hash := Some tx, ev_block_number := Some (show_nat (rc_blockNumber r)),
              ev_chain_id := Some chainId, ev_anchored_at := Some (ac_now ac), ev_status := ANCHORED\<rparr>)\<rparr>)"
  | (failed) err w' where
    "anchorEvent C chainId e ac job (w, s) = (Inl err, w', s\<lparr>db := update_event (db s) (aj_eventId job) (aj_orgId job)
       (\<lambda>ev. ev\<lparr>ev_status := ANCHOR_FAILED, ev_anchor_error := Some (error_text err)\<rparr>)\<rparr>)"
proof -
  let ?send = "withExponentialBackoff (cc_writeContract C (encodeCanonicalHash (aj_canonicalHash job))
       (encodeEventId (aj_eventId job))) (default_options e) w"
  obtain sent w1 x1 where send: "?send = (sent, w1, x1)" by (cases ?send)
  show ?thesis
  proof (cases sent)
    case (Inl err)
    then show ?thesis using failed send
      by (auto simp: anchorEvent_def anchor_failed_def updateEventToAnchorFailed_def Let_def)
  next
    case (Inr tx)
    obtain got w2 x2 where wait: "withExponentialBackoff (cc_waitForReceipt C tx) (default_options e) w1 = (got, w2, x2)"
      by (cases "withExponentialBackoff (cc_waitForReceipt C tx) (default_options e) w1")
    show ?thesis
    proof (cases got)
      case (Inl err)
      then show ?thesis using failed send wait Inr
        by (auto simp: anchorEvent_def anchor_failed_def updateEventToAnchorFailed_def Let_def)
    next
      case got: (Inr r)
      show ?thesis
      proof (cases "ac_update_error ac")
        case None
        then show ?thesis using anchored send wait Inr got
          by (auto simp: anchorEvent_def updateEventToAnchored_def Let_def)
      next
        case (Some err)
        then show ?thesis using failed send wait Inr got
          by (auto simp: anchorEvent_def anchor_failed_def updateEventToAnchorFailed_def Let_def)
      qed
    qed
  qed
qed

lemma inv_job:
  assumes "pipeline_inv L e host (snd ws)"
  shows "pipeline_inv L e host (snd (process_job C chainId e ac ws))"
proof (cases "queue (snd ws)")
  case Nil
  then show ?thesis using assms by (simp add: process_job_def)
next
  case (Cons job jobs)
  note fin = inv_finish_job [OF assms Cons disjI1 [OF refl]] inv_finish_job [OF assms Cons disjI2 [OF refl]]
  show ?thesis
  proof (cases rule: anchorEvent_cases [of C job e "fst ws" chainId ac "(snd ws)\<lparr>queue := jobs\<rparr>"])
    case anchored
    show ?thesis by (simp add: process_job_def Cons anchored(3) fin(1))
  next
    case failed
    show ?thesis by (simp add: process_job_def Cons failed fin(2))
  qed
qed

lemma step_inv:
  assumes "pipeline_step L e host C moves chainId ws ws'" and "gcm_correct L" and "pipeline_inv L e host (snd ws)"
  shows "pipeline_inv L e host (snd ws')"
  using assms(1)
proof cases
  case step_ingest
  then show ?thesis using inv_ingest assms(3) by simp
next
  case step_process
  then show ?thesis using inv_process [OF _ _ assms(2)] assms(3) by simp
next
  case step_job
  then show ?thesis using inv_job assms(3) by simp
next
  case step_chain
  then show ?thesis using assms(3) by simp
qed

text \<open>Whatever else leaves events and jobs alone, and at most forgets the callbacks, as a restart does.\<close>

definition leaves_events :: "sys \<Rightarrow> sys \<Rightarrow> bool" where
  "leaves_events s s' \<longleftrightarrow> events (db s') = events (db s) \<and> queue s' = queue s \<and>
     (dispatched s' = dispatched s \<or> dispatched s' = [])"

lemma leaves_refl [simp]: "leaves_events s s"
  by (simp add: leaves_events_def)

lemma leaves_inv: "leaves_events s s' \<Longrightarrow> pipeline_inv L e host s \<Longrightarrow> pipeline_inv L e host s'"
  by (auto simp: leaves_events_def pipeline_inv_def)

end
