(* ===== verification/EventHistory.thy ===== *)
theory EventHistory
  imports Pipeline
begin

text \<open>
  What the pipeline does to one event over time: an event is never lost, what was received is
  never changed, its status only moves forward, and a final status is final. And what the
  chain then knows of an anchored event, by the laws a chain client keeps.
\<close>

section \<open>One event over time\<close>

definition event_later :: "event \<Rightarrow> event \<Rightarrow> bool" where
  "event_later ev ev' \<longleftrightarrow>
     ev_event_id ev' = ev_event_id ev \<and> ev_org_id ev' = ev_org_id ev \<and> ev_user_id ev' = ev_user_id ev \<and>
     ev_api_key_id ev' = ev_api_key_id ev \<and> ev_idempotency_key ev' = ev_idempotency_key ev \<and>
     ev_model_id ev' = ev_model_id ev \<and> ev_workflow_id ev' = ev_workflow_id ev \<and>
     ev_metadata ev' = ev_metadata ev \<and> ev_timestamp ev' = ev_timestamp ev \<and>
     ev_received_at ev' = ev_received_at ev \<and> ev_created_at ev' = ev_created_at ev \<and>
     (ev_status ev \<noteq> PROCESSING \<longrightarrow>
        ev_status ev' \<noteq> PROCESSING \<and> ev_canonical_hash ev' = ev_canonical_hash ev \<and>
        ev_prompt ev' = ev_prompt ev \<and> ev_output ev' = ev_output ev) \<and>
     (ev_status ev = ANCHORED \<or> ev_status ev = ANCHOR_FAILED \<longrightarrow> ev' = ev)"

definition events_later :: "event list \<Rightarrow> event list \<Rightarrow> bool" where
  "events_later evs evs' \<longleftrightarrow> (\<forall>ev \<in> set evs. \<exists>ev' \<in> set evs'. event_later ev ev')"

lemma event_later_refl [simp]: "event_later ev ev"
  by (simp add: event_later_def)

lemma event_later_trans: "event_later a b \<Longrightarrow> event_later b c \<Longrightarrow> event_later a c"
  by (auto simp: event_later_def)

lemma events_later_refl [simp]: "events_later evs evs"
  unfolding events_later_def by (meson event_later_refl)

lemma events_later_trans: "events_later a b \<Longrightarrow> events_later b c \<Longrightarrow> events_later a c"
  unfolding events_later_def by (meson event_later_trans)

lemma events_later_append: "events_later evs (evs @ new)"
  unfolding events_later_def by (metis UnI1 event_later_refl set_append)

lemma events_later_update:
  "(\<And>ev. ev \<in> set evs \<Longrightarrow> P ev \<Longrightarrow> event_later ev (f ev)) \<Longrightarrow> events_later evs (update_where P f evs)"
  unfolding events_later_def set_update_where by (metis (mono_tags, lifting) UnCI event_later_refl image_eqI mem_Collect_eq)

section \<open>Every step moves events forward\<close>

lemma later_insert: "events_later (events (db s)) (events (db (snd (ingest_insert host cx b input s))))"
  by (auto simp: ingest_insert_def createEvent_def map_sum_def Let_def events_later_append
      dest!: insert_row_SomeD(1) split: option.splits sum.splits)

lemma later_ingest: "events_later (events (db s)) (events (db (snd (ingest host cx b input s))))"
  using later_insert by (simp add: ingest_def split: option.split)

lemma later_process:
  assumes "pipeline_inv L e host s" and "dispatched s = xs @ pe # ys"
  shows "events_later (events (db s)) (events (db (snd (process_event L e host pc pe (s\<lparr>dispatched := ds\<rparr>)))))"
proof -
  have proc: "ev_status ev = PROCESSING"
    if "ev \<in> set (events (db s))" "ev_event_id ev = pe_event_id pe" for ev
    using awaited_event_status(1) [of "events (db s)" ev pe] assms that by (simp add: pipeline_inv_def)
  have "events_later (events (db s)) (events (updateEventToAnchoring (db s)
      \<lparr>ta_event_id = pe_event_id pe, ta_org_id = pe_org_id pe, ta_canonical_hash = h,
       ta_encrypted_prompt = p, ta_encrypted_output = out, ta_status = ANCHORING\<rparr>))" for h p out
    unfolding updateEventToAnchoring_def events_update_event
    by (rule events_later_update) (use proc in \<open>auto simp: event_later_def\<close>)
  then show ?thesis
    by (auto simp: process_event_def Let_def split: sum.splits option.splits)
qed

lemma later_job:
  assumes "pipeline_inv L e host (snd ws)"
  shows "events_later (events (db (snd ws))) (events (db (snd (process_job C chainId e ac ws))))"
proof (cases "queue (snd ws)")
  case Nil
  then show ?thesis by (simp add: process_job_def)
next
  case (Cons job jobs)
  have anchoring: "ev_status ev = ANCHORING"
    if "ev \<in> set (events (db (snd ws)))" "ev_event_id ev = aj_eventId job" for ev
    using job_event_status(1) [of "events (db (snd ws))" ev job] assms that Cons by (simp add: pipeline_inv_def)
  show ?thesis
  proof (cases rule: anchorEvent_cases [of C job e "fst ws" chainId ac "(snd ws)\<lparr>queue := jobs\<rparr>"])
    case anchored
    show ?thesis
      by (simp add: process_job_def Cons anchored(3), rule events_later_update)
        (use anchoring in \<open>auto simp: event_later_def\<close>)
  next
    case failed
    show ?thesis
      by (simp add: process_job_def Cons failed, rule events_later_update)
        (use anchoring in \<open>auto simp: event_later_def\<close>)
  qed
qed

lemma step_later:
  assumes "pipeline_step L e host C moves chainId ws ws'" and "pipeline_inv L e host (snd ws)"
  shows "events_later (events (db (snd ws))) (events (db (snd ws')))"
  using assms(1)
proof cases
  case step_process
  then show ?thesis using later_process assms(2) by simp
qed (use later_ingest later_job [OF assms(2)] in simp_all)

section \<open>The chain\<close>

text \<open>
  What can be known of a chain: that a transaction with a given hash submits a canonical hash for
  an event, and that it was mined, with which receipt. The laws of a chain client: a
  submission that returns is known, a receipt that returns is true, and neither is
  forgotten, whatever is called and however the chain moves on. A reverted
  transaction is mined as well, and its receipt says so.
\<close>

record 'w chain_view =
  cv_submitted :: "'w \<Rightarrow> string \<Rightarrow> string \<Rightarrow> string \<Rightarrow> bool"
  cv_mined :: "'w \<Rightarrow> string \<Rightarrow> tx_receipt \<Rightarrow> bool"

definition remembers :: "'w chain_view \<Rightarrow> 'w \<Rightarrow> 'w \<Rightarrow> bool" where
  "remembers V w w' \<longleftrightarrow>
     (\<forall>tx h i. cv_submitted V w tx h i \<longrightarrow> cv_submitted V w' tx h i) \<and>
     (\<forall>tx r. cv_mined V w tx r \<longrightarrow> cv_mined V w' tx r)"

definition chain_law :: "'w chain_client \<Rightarrow> ('w \<Rightarrow> 'w \<Rightarrow> bool) \<Rightarrow> 'w chain_view \<Rightarrow> bool" where
  "chain_law C moves V \<longleftrightarrow>
     (\<forall>h i w tx w'. cc_writeContract C h i w = (Inr tx, w') \<longrightarrow> cv_submitted V w' tx h i) \<and>
     (\<forall>tx w r w'. cc_waitForReceipt C tx w = (Inr r, w') \<longrightarrow> cv_mined V w' tx r) \<and>
     (\<forall>h i w. remembers V w (snd (cc_writeContract C h i w))) \<and>
     (\<forall>tx w. remembers V w (snd (cc_waitForReceipt C tx w))) \<and>
     (\<forall>w w'. moves w w' \<longrightarrow> remembers V w w')"

lemma remembers_refl [simp]: "remembers V w w"
  by (simp add: remembers_def)

lemma remembers_trans: "remembers V a b \<Longrightarrow> remembers V b c \<Longrightarrow> remembers V a c"
  by (simp add: remembers_def)

text \<open>What the database says of an anchored event is true on the chain.\<close>

definition on_chain :: "'w chain_view \<Rightarrow> int \<Rightarrow> 'w \<Rightarrow> event \<Rightarrow> bool" where
  "on_chain V chainId w ev \<longleftrightarrow>
     (\<exists>tx h r. ev_tx_hash ev = Some tx \<and> ev_canonical_hash ev = Some h \<and>
        ev_block_number ev = Some (show_nat (rc_blockNumber r)) \<and> ev_chain_id ev = Some chainId \<and>
        cv_submitted V w tx (''0x'' @ h) (encodeEventId (ev_event_id ev)) \<and> cv_mined V w tx r)"

definition chain_inv :: "'w chain_view \<Rightarrow> int \<Rightarrow> 'w \<times> sys \<Rightarrow> bool" where
  "chain_inv V chainId ws \<longleftrightarrow>
     (\<forall>ev \<in> set (events (db (snd ws))). ev_status ev = ANCHORED \<longrightarrow> on_chain V chainId (fst ws) ev)"

lemma on_chain_remembers: "on_chain V chainId w ev \<Longrightarrow> remembers V w w' \<Longrightarrow> on_chain V chainId w' ev"
  unfolding on_chain_def remembers_def by meson

lemma chain_inv_remembers:
  assumes "chain_inv V chainId (w, s)" and "remembers V w w'"
    and "\<And>ev. ev \<in> set (events (db s')) \<Longrightarrow> ev_status ev = ANCHORED \<Longrightarrow>
      ev \<in> set (events (db s)) \<or> on_chain V chainId w' ev"
  shows "chain_inv V chainId (w', s')"
  using assms on_chain_remembers by (fastforce simp: chain_inv_def)

lemma backoff_remembers:
  assumes law: "chain_law C moves V"
  shows "withExponentialBackoff (cc_writeContract C h i) opts w = (r, w', x) \<Longrightarrow> remembers V w w'"
    and "withExponentialBackoff (cc_waitForReceipt C tx) opts w = (got, w', x) \<Longrightarrow> remembers V w w'"
proof -
  have keeps: "remembers V w (snd (cc_writeContract C h i s))" "remembers V w (snd (cc_waitForReceipt C tx s))"
    if "remembers V w s" for s
    using remembers_trans [OF that] law by (simp_all add: chain_law_def)
  show "remembers V w w'" if "withExponentialBackoff (cc_writeContract C h i) opts w = (r, w', x)"
    by (rule backoff_keeps [OF that, where P = "remembers V w"]) (use keeps in simp_all)
  show "remembers V w w'" if "withExponentialBackoff (cc_waitForReceipt C tx) opts w = (got, w', x)"
    by (rule backoff_keeps [OF that, where P = "remembers V w"]) (use keeps in simp_all)
qed

lemma anchor_remembers:
  assumes law: "chain_law C moves V"
  shows "remembers V w (fst (snd (anchorEvent C chainId e ac job (w, s))))"
  by (auto simp: anchorEvent_def anchor_failed_def Let_def
      dest: backoff_remembers [OF law] split: prod.splits sum.splits option.splits)
    (meson remembers_trans backoff_remembers [OF law])+

lemma chain_job:
  assumes inv: "pipeline_inv L e host s" and law: "chain_law C moves V" and chain: "chain_inv V chainId (w, s)"
  shows "chain_inv V chainId (process_job C chainId e ac (w, s))"
proof (cases "queue s")
  case Nil
  then show ?thesis using chain by (simp add: process_job_def)
next
  case job: (Cons job jobs)
  obtain ev where ev: "ev \<in> set (events (db s))" "ev_event_id ev = aj_eventId job" "ev_org_id ev = aj_orgId job"
    "ev_canonical_hash ev = Some (aj_canonicalHash job)"
    using job_event [OF inv job] by metis
  have uniq: "unique_rows event_constraints (events (db s))" using inv by (simp add: pipeline_inv_def)
  have keep: "remembers V w (fst (snd (anchorEvent C chainId e ac job (w, s\<lparr>queue := jobs\<rparr>))))"
    by (rule anchor_remembers [OF law])
  show ?thesis
  proof (cases rule: anchorEvent_cases [of C job e w chainId ac "s\<lparr>queue := jobs\<rparr>"])
    case (anchored tx w1 x1 r w2 x2)
    let ?f = "\<lambda>ev. ev\<lparr>ev_tx_hash := Some tx, ev_block_number := Some (show_nat (rc_blockNumber r)),
      ev_chain_id := Some chainId, ev_anchored_at := Some (ac_now ac), ev_status := ANCHORED\<rparr>"
    have upd: "set (events (update_event (db s) (aj_eventId job) (aj_orgId job) ?f)) =
        insert (?f ev) (set (events (db s)) - {ev})"
      using update_one_event(2) [OF uniq ev(1), of ?f] ev(2,3) by simp
    have "cv_submitted V w1 tx (''0x'' @ aj_canonicalHash job) (encodeEventId (aj_eventId job))"
      using backoff_success [OF anchored(1)] law by (auto simp: chain_law_def encodeCanonicalHash_def)
    moreover have "remembers V w1 w2"
      by (rule backoff_remembers(2) [OF law anchored(2)])
    moreover have "cv_mined V w2 tx r"
      using backoff_success [OF anchored(2)] law by (auto simp: chain_law_def)
    ultimately have "on_chain V chainId w2 (?f ev)"
      using ev by (auto simp: on_chain_def remembers_def)
    then show ?thesis
      using keep by (simp only: process_job_def job anchored(3) snd_conv fst_conv list.case)
        (rule chain_inv_remembers [OF chain], assumption, use upd in auto)
  next
    case (failed err w')
    show ?thesis
      using keep by (simp only: process_job_def job failed snd_conv fst_conv list.case)
        (rule chain_inv_remembers [OF chain], assumption, auto simp: set_update_where)
  qed
qed

text \<open>Only the worker makes an event anchored.\<close>

lemma process_keeps_anchored:
  assumes "ev \<in> set (events (db (snd (process_event L e host pc pe s))))" and "ev_status ev = ANCHORED"
  shows "ev \<in> set (events (db s))"
  using assms
  by (auto simp: process_event_def updateEventToAnchoring_def Let_def set_update_where
      split: sum.splits option.splits)

lemma insert_keeps_anchored:
  assumes "ev \<in> set (events (db (snd (ingest_insert host cx b input s))))" and "ev_status ev = ANCHORED"
  shows "ev \<in> set (events (db s))"
  using assms
  by (auto simp: ingest_insert_def createEvent_def map_sum_def Let_def
      dest!: insert_row_SomeD(1) split: option.splits sum.splits)

lemma ingest_keeps_anchored:
  assumes "ev \<in> set (events (db (snd (ingest host cx b input s))))" and "ev_status ev = ANCHORED"
  shows "ev \<in> set (events (db s))"
  using assms insert_keeps_anchored by (auto simp: ingest_def split: option.splits)

lemma step_chain_inv:
  assumes "pipeline_step L e host C moves chainId ws ws'" and "pipeline_inv L e host (snd ws)"
    and law: "chain_law C moves V" and "chain_inv V chainId ws"
  shows "chain_inv V chainId ws'"
  using assms(1)
proof cases
  case step_job
  then show ?thesis using chain_job [OF assms(2) law] assms(4) by (metis prod.collapse)
next
  case (step_process s xs pe ys pc w)
  then show ?thesis using assms(4) process_keeps_anchored by (auto simp: chain_inv_def dest!: process_keeps_anchored)
next
  case step_ingest
  then show ?thesis using assms(4) by (auto simp: chain_inv_def dest!: ingest_keeps_anchored)
next
  case (step_chain w w' s)
  have "chain_inv V chainId (w, s)" using assms(4) step_chain by simp
  moreover have "remembers V w w'" using law step_chain(3) by (simp add: chain_law_def)
  ultimately have "chain_inv V chainId (w', s)" by (rule chain_inv_remembers) simp
  then show ?thesis by (simp add: step_chain)
qed

end
