(* ===== verification/Requests.thy ===== *)
theory Requests
  imports Async AccountFrame ApiKeys EventHistory
begin

text \<open>
  The requests of the account services, of API keys, and the ingestion of an event, statement by statement: every \<open>await\<close> of
  \<open>services\<close> and every access to a map in memory is one step, a transaction is one step. Alone, a request does what
  its operation in \<open>Auth\<close>, \<open>Otp\<close>, \<open>PasswordReset\<close>, \<open>Refresh\<close>, \<open>Organisations\<close>, \<open>ApiKeys\<close> or \<open>Events\<close> does (\<open>run_\<close> lemmas).
\<close>

section \<open>Codes and sessions\<close>

definition issue_otp_async :: "libs \<Rightarrow> env \<Rightarrow> ctx \<Rightarrow> uuid \<Rightarrow> string \<Rightarrow> unit async" where
  "issue_otp_async L e cx new_id email =
     (let otp = generate_otp e cx in
      then_do (write_db (\<lambda>d. unit_write (insertOtpToken (cx_now cx) new_id d (hashSHA256 L (toLowerCase email))
                 (hashSHA256 L otp) (cx_now cx + 10 * 60 * 1000))))
        (\<lambda>_. atomic (sendOtpEmail e cx email otp)))"

definition issue_session_async :: "libs \<Rightarrow> env \<Rightarrow> ctx \<Rightarrow> uuid \<Rightarrow> uuid \<Rightarrow> jwt_payload \<Rightarrow> session async" where
  "issue_session_async L e cx new_id userId payload =
     (let refresh = generateRefreshToken (cx_bytes cx) in
      then_do (write_db (\<lambda>d. unit_write (insertRefreshToken (cx_now cx) new_id d userId (hashSHA256 L refresh)
                 (cx_now cx + REFRESH_TOKEN_TTL_MS))))
        (\<lambda>_. give \<lparr>sessionToken = signJwt L e (cx_now cx) payload, refreshToken = refresh\<rparr>))"

lemma run_issue_otp: "run_async (issue_otp_async L e cx i email) s = issue_otp L e cx i email s"
  by (simp add: issue_otp_async_def issue_otp_def Let_def map_sum_def split: sum.split)

lemma run_issue_session: "run_async (issue_session_async L e cx i u p) s = issue_session L e cx i u p s"
  by (simp add: issue_session_async_def issue_session_def Let_def map_sum_def split: sum.split)

section \<open>Registration and login\<close>

definition gate_async :: "libs \<Rightarrow> ctx \<Rightarrow> string \<Rightarrow> invitation async" where
  "gate_async L cx invitationToken =
     then_do (query (\<lambda>d. findInvitationByTokenHash (cx_now cx) d (hashSHA256 L invitationToken))) (\<lambda>found.
       case found of
         None \<Rightarrow> fail_with (GoneError ''Invitation not found or expired'' ''GONE'')
       | Some invitation \<Rightarrow>
           then_do (query (\<lambda>d. findOrgById d (Some (inv_org_id invitation)))) (\<lambda>org.
             if org_suspended org then fail_with (ForbiddenError ''Organisation is suspended'' ''ORG_SUSPENDED'')
             else then_do (query (\<lambda>d. countActiveUsersByOrg d (inv_org_id invitation))) (\<lambda>memberCount.
               if memberCount \<ge> user_limit_of org
               then fail_with (ForbiddenError ''Organisation has reached its user limit'' ''USER_LIMIT_REACHED'')
               else give invitation)))"

definition register_async :: "libs \<Rightarrow> env \<Rightarrow> ctx \<Rightarrow> string \<Rightarrow> string \<Rightarrow> string \<Rightarrow> unit async" where
  "register_async L e cx email password invitationToken =
     then_do (gate_async L cx invitationToken) (\<lambda>invitation.
     then_do (write_db (\<lambda>d. acceptInvitationAndCreateUser (cx_now cx) (cx_id cx 0) d invitation
                (invited_user invitation email (Some (bcrypt_hash L (cx_salt cx) 12 password)) None))) (\<lambda>_.
     issue_otp_async L e cx (cx_id cx 1) email))"

definition admit_login :: "ctx \<Rightarrow> string \<Rightarrow> unit op" where
  "admit_login cx emailKey s =
     (case check_attempts FAILED_ATTEMPT_LIMIT FAILED_ATTEMPT_WINDOW_MS (cx_now cx) emailKey (emailFailedAttempts s) of
        Inl retryAfterSec \<Rightarrow>
          (throw (RateLimitError ''Too many failed login attempts. Try again later.'' ''RATE_LIMIT_EXCEEDED''
             (Some retryAfterSec)), s)
      | Inr m \<Rightarrow> (Inr (), s\<lparr>emailFailedAttempts := m\<rparr>))"

definition login_matches :: "libs \<Rightarrow> string \<Rightarrow> user option \<Rightarrow> bool" where
  "login_matches L password user \<longleftrightarrow>
     bcrypt_compare L password (case user of None \<Rightarrow> DUMMY_BCRYPT_HASH
       | Some u \<Rightarrow> (case u_password_hash u of None \<Rightarrow> DUMMY_BCRYPT_HASH | Some h \<Rightarrow> h))"

definition compare_async :: "libs \<Rightarrow> env \<Rightarrow> ctx \<Rightarrow> string \<Rightarrow> string \<Rightarrow> unit async" where
  "compare_async L e cx email password =
     (let emailKey = toLowerCase email in
      then_do (query (\<lambda>d. findUserByEmail d email)) (\<lambda>user.
      if \<not> login_matches L password user \<or> user = None
      then then_do (change (\<lambda>s. s\<lparr>emailFailedAttempts := fail_attempt (cx_now cx) emailKey (emailFailedAttempts s)\<rparr>))
             (\<lambda>_. fail_with (AuthError ''Invalid credentials'' ''INVALID_CREDENTIALS''))
      else then_do (change (\<lambda>s. s\<lparr>emailFailedAttempts := clear_attempts emailKey (emailFailedAttempts s)\<rparr>))
             (\<lambda>_. issue_otp_async L e cx (cx_id cx 0) email)))"

definition login_async :: "libs \<Rightarrow> env \<Rightarrow> ctx \<Rightarrow> string \<Rightarrow> string \<Rightarrow> unit async" where
  "login_async L e cx email password =
     then_do (atomic (admit_login cx (toLowerCase email))) (\<lambda>_. compare_async L e cx email password)"

definition session_async :: "libs \<Rightarrow> env \<Rightarrow> ctx \<Rightarrow> string \<Rightarrow> string \<Rightarrow> string option \<Rightarrow> unit async" where
  "session_async L e cx email password invitationToken =
     (if truthy invitationToken then register_async L e cx email password (the invitationToken)
      else login_async L e cx email password)"

lemma run_gate:
  "run_async (gate_async L cx t) s = (case invitation_gate L cx t (db s) of Inl err \<Rightarrow> (Inl err, s) | Inr i \<Rightarrow> (Inr i, s))"
  by (simp add: gate_async_def invitation_gate_def Let_def split: option.split)

lemma run_register: "run_async (register_async L e cx email pw t) s = handleInvitedUserRegistration L e cx email pw t s"
  by (simp add: register_async_def handleInvitedUserRegistration_def run_gate run_issue_otp Let_def
      split: sum.split prod.split)

lemma run_login: "run_async (login_async L e cx email pw) s = handleReturningUserLogin L e cx email pw s"
  by (auto simp: login_async_def compare_async_def handleReturningUserLogin_def admit_login_def login_matches_def run_issue_otp Let_def
      split: sum.split)

lemma run_session: "run_async (session_async L e cx email pw t) s = createEmailPasswordSession L e cx email pw t s"
  by (simp add: session_async_def createEmailPasswordSession_def truthy_def run_register run_login split: option.split)

section \<open>Google accounts\<close>

definition google_user_async :: "google_payload \<Rightarrow> user option async" where
  "google_user_async p =
     then_do (query (\<lambda>d. findUserByGoogleSub d (gp_sub p))) (\<lambda>bySub.
       if bySub \<noteq> None then give bySub
       else then_do (query (\<lambda>d. findUserByEmail d (gp_email p))) (\<lambda>byEmail.
         case byEmail of
           None \<Rightarrow> give None
         | Some existingUser \<Rightarrow>
             if u_google_sub existingUser = None
             then then_do (write_db (\<lambda>d. unit_write (updateUserGoogleSub d (u_user_id existingUser) (gp_sub p))))
                    (\<lambda>_. give (Some (existingUser\<lparr>u_google_sub := Some (gp_sub p)\<rparr>)))
             else give None))"

definition google_register_async :: "libs \<Rightarrow> ctx \<Rightarrow> google_payload \<Rightarrow> string option \<Rightarrow> user async" where
  "google_register_async L cx p invitationToken =
     (if \<not> truthy invitationToken
      then fail_with (ForbiddenError ''No invitation found for this account'' ''NO_INVITATION'')
      else then_do (gate_async L cx (the invitationToken)) (\<lambda>invitation.
        write_db (\<lambda>d. acceptInvitationAndCreateUser (cx_now cx) (cx_id cx 0) d invitation
          (invited_user invitation (gp_email p) None (Some (gp_sub p))))))"

definition google_session_async :: "libs \<Rightarrow> env \<Rightarrow> ctx \<Rightarrow> user \<Rightarrow> (session \<times> jwt_payload) async" where
  "google_session_async L e cx user =
     then_do (query (\<lambda>d. findOrgById d (u_org_id user))) (\<lambda>org.
       if org_suspended org then fail_with (ForbiddenError ''Organisation is suspended'' ''ORG_SUSPENDED'')
       else then_do (issue_session_async L e cx (cx_id cx 1) (u_user_id user) (session_payload user))
              (\<lambda>sn. give (sn, session_payload user)))"

definition google_async :: "libs \<Rightarrow> env \<Rightarrow> ctx \<Rightarrow> string \<Rightarrow> string option \<Rightarrow> (session \<times> jwt_payload) async" where
  "google_async L e cx idToken invitationToken =
     (case cx_google cx idToken of
        None \<Rightarrow> fail_with (AuthError ''Invalid or expired Google ID token'' ''UNAUTHORIZED'')
      | Some p \<Rightarrow>
          if \<not> gp_email_verified p
          then fail_with (AuthError ''Google account email is not verified'' ''UNAUTHORIZED'')
          else then_do (google_user_async p) (\<lambda>user.
            case user of
              Some u \<Rightarrow> google_session_async L e cx u
            | None \<Rightarrow> then_do (google_register_async L cx p invitationToken) (google_session_async L e cx)))"

lemma run_google_user:
  "run_async (google_user_async p) s = (case google_user p (db s) of Inl err \<Rightarrow> (Inl err, s) | Inr (u, d) \<Rightarrow> (Inr u, s\<lparr>db := d\<rparr>))"
  by (simp add: google_user_async_def google_user_def map_sum_def split: option.split sum.split)

lemma run_google_register:
  "run_async (google_register_async L cx p t) s =
     (case google_register L cx p t (db s) of Inl err \<Rightarrow> (Inl err, s) | Inr (u, d) \<Rightarrow> (Inr u, s\<lparr>db := d\<rparr>))"
  by (simp add: google_register_async_def google_register_def run_gate split: sum.split)

lemma run_google_session: "run_async (google_session_async L e cx u) s = google_session L e cx u s"
  by (simp add: google_session_async_def google_session_def run_issue_session split: sum.split prod.split)

lemma run_google: "run_async (google_async L e cx tok t) s = createGoogleSession L e cx tok t s"
  by (simp add: google_async_def createGoogleSession_def run_google_user run_google_register run_google_session
      split: option.split sum.split prod.split)

section \<open>One-time codes\<close>

definition otp_session_async :: "libs \<Rightarrow> env \<Rightarrow> ctx \<Rightarrow> string \<Rightarrow> otp_verify_result async" where
  "otp_session_async L e cx email =
     then_do (query (\<lambda>d. findUserByEmail d email)) (\<lambda>found.
       case found of
         None \<Rightarrow> fail_with (AuthError ''Invalid or expired OTP'' ''INVALID_OTP'')
       | Some user \<Rightarrow>
           if u_status user \<noteq> UserACTIVE then fail_with (AuthError ''Invalid or expired OTP'' ''INVALID_OTP'')
           else then_do (query (\<lambda>d. findOrgById d (u_org_id user))) (\<lambda>org.
             if org_suspended org then fail_with (ForbiddenError ''Organisation is suspended'' ''ORG_SUSPENDED'')
             else if u_mfa_enabled user then give MfaRequired
             else then_do (issue_session_async L e cx (cx_id cx 0) (u_user_id user) (session_payload user))
                    (\<lambda>sn. give (Authenticated sn (session_payload user)))))"

definition verifyOtp_async :: "libs \<Rightarrow> env \<Rightarrow> ctx \<Rightarrow> string \<Rightarrow> string \<Rightarrow> otp_verify_result async" where
  "verifyOtp_async L e cx email otp =
     then_do (query (\<lambda>d. findLatestOtpToken (cx_now cx) d (hashSHA256 L (toLowerCase email)))) (\<lambda>found.
       case found of
         None \<Rightarrow> fail_with (AuthError ''Invalid or expired OTP'' ''INVALID_OTP'')
       | Some token \<Rightarrow>
           if otp_attempts token \<ge> OTP_ATTEMPT_LIMIT
           then fail_with (RateLimitError ''Too many OTP attempts. Request a new code.'' ''RATE_LIMIT_EXCEEDED'' None)
           else (case timingSafeEqual (from_hex (otp_hash token)) (from_hex (hashSHA256 L otp)) of
               Inl err \<Rightarrow> Return (Inl err)
             | Inr match \<Rightarrow>
                 if \<not> match
                 then then_do (change (\<lambda>s. s\<lparr>db := incrementOtpAttempts (db s) (otp_id token)\<rparr>))
                        (\<lambda>_. fail_with (AuthError ''Invalid OTP'' ''INVALID_OTP''))
                 else then_do (change (\<lambda>s. s\<lparr>db := markOtpTokenUsed (db s) (otp_id token)\<rparr>))
                        (\<lambda>_. otp_session_async L e cx email)))"

definition resendOtp_async :: "libs \<Rightarrow> env \<Rightarrow> ctx \<Rightarrow> string \<Rightarrow> unit async" where
  "resendOtp_async L e cx email =
     then_do (query (\<lambda>d. findLatestOtpToken (cx_now cx) d (hashSHA256 L (toLowerCase email)))) (\<lambda>found.
       case found of
         None \<Rightarrow> give ()
       | Some existingToken \<Rightarrow>
           then_do (change (\<lambda>s. s\<lparr>db := markOtpTokenUsed (db s) (otp_id existingToken)\<rparr>))
             (\<lambda>_. issue_otp_async L e cx (cx_id cx 0) email))"

lemma run_otp_session: "run_async (otp_session_async L e cx email) s = otp_session L e cx email s"
  by (simp add: otp_session_async_def otp_session_def run_issue_session split: option.split sum.split prod.split)

lemma run_verifyOtp: "run_async (verifyOtp_async L e cx email otp) s = verifyOtp L e cx email otp s"
  by (simp add: verifyOtp_async_def verifyOtp_def run_otp_session split: option.split sum.split)

lemma run_resendOtp: "run_async (resendOtp_async L e cx email) s = resendOtp L e cx email s"
  by (simp add: resendOtp_async_def resendOtp_def run_issue_otp split: option.split)

section \<open>Password reset\<close>

definition requestReset_async :: "libs \<Rightarrow> env \<Rightarrow> ctx \<Rightarrow> string \<Rightarrow> unit async" where
  "requestReset_async L e cx email =
     then_do (query (\<lambda>d. findUserByEmail d email)) (\<lambda>found.
       case found of
         None \<Rightarrow> give ()
       | Some user \<Rightarrow>
           if u_password_hash user = None then give ()
           else
             let otp = generate_otp e cx in
             then_do (write_db (\<lambda>d. unit_write (insertPasswordResetToken (cx_now cx) (cx_id cx 0) d (u_user_id user)
                        (hashSHA256 L (toLowerCase email @ otp)) (cx_now cx + OTP_EXPIRY_MS))))
               (\<lambda>_. atomic (sendPasswordResetEmail e cx email otp)))"

definition admit_reset :: "ctx \<Rightarrow> string \<Rightarrow> unit op" where
  "admit_reset cx emailKey s =
     (case check_attempts CONFIRM_ATTEMPT_LIMIT CONFIRM_ATTEMPT_WINDOW_MS (cx_now cx) emailKey (confirmFailedAttempts s) of
        Inl retryAfterSec \<Rightarrow>
          (throw (RateLimitError ''Too many password reset attempts. Try again later.'' ''RATE_LIMIT_EXCEEDED''
             (Some retryAfterSec)), s)
      | Inr m \<Rightarrow> (Inr (), s\<lparr>confirmFailedAttempts := m\<rparr>))"

definition apply_async :: "libs \<Rightarrow> ctx \<Rightarrow> string \<Rightarrow> string \<Rightarrow> password_reset_token \<Rightarrow> unit async" where
  "apply_async L cx email newPassword token =
     then_do (query (\<lambda>d. findUserByEmail d email)) (\<lambda>found.
       case found of
         None \<Rightarrow> fail_with (ForbiddenError ''Password reset is not available for this account'' ''FORBIDDEN'')
       | Some user \<Rightarrow>
           if u_password_hash user = None
           then fail_with (ForbiddenError ''Password reset is not available for this account'' ''FORBIDDEN'')
           else change (\<lambda>s. s\<lparr>db := applyPasswordReset (db s) (u_user_id user) (prt_token_id token)
             (bcrypt_hash L (cx_salt cx) 12 newPassword)\<rparr>))"

definition confirmReset_async :: "libs \<Rightarrow> ctx \<Rightarrow> string \<Rightarrow> string \<Rightarrow> string \<Rightarrow> unit async" where
  "confirmReset_async L cx email otp newPassword =
     (let emailKey = toLowerCase email in
      then_do (atomic (admit_reset cx emailKey)) (\<lambda>_.
      then_do (query (\<lambda>d. findPasswordResetToken (cx_now cx) d (hashSHA256 L (emailKey @ otp)))) (\<lambda>found.
      case found of
        None \<Rightarrow>
          then_do (change (\<lambda>s. s\<lparr>confirmFailedAttempts := fail_attempt (cx_now cx) emailKey (confirmFailedAttempts s)\<rparr>))
            (\<lambda>_. fail_with (GoneError ''Reset code not found or expired'' ''GONE''))
      | Some token \<Rightarrow>
          then_do (change (\<lambda>s. s\<lparr>confirmFailedAttempts := clear_attempts emailKey (confirmFailedAttempts s)\<rparr>))
            (\<lambda>_. apply_async L cx email newPassword token))))"

lemma run_requestReset: "run_async (requestReset_async L e cx email) s = requestReset L e cx email s"
  by (simp add: requestReset_async_def requestReset_def Let_def map_sum_def split: option.split sum.split)

lemma run_confirmReset: "run_async (confirmReset_async L cx email otp pw) s = confirmReset L cx email otp pw s"
  by (auto simp: confirmReset_async_def confirmReset_def apply_async_def admit_reset_def Let_def split: option.split sum.split)

section \<open>Refresh, logout, sign-up and ingestion\<close>

definition rotate_async :: "libs \<Rightarrow> env \<Rightarrow> ctx \<Rightarrow> string \<Rightarrow> session async" where
  "rotate_async L e cx inboundRawToken =
     then_do (query (\<lambda>d. findRefreshTokenByHash (cx_now cx) d (hashSHA256 L inboundRawToken))) (\<lambda>found.
       case found of
         None \<Rightarrow> fail_with (AuthError ''Refresh token is missing, expired, or already used'' ''UNAUTHORIZED'')
       | Some existing \<Rightarrow>
           then_do (query (\<lambda>d. findUserById d (rt_user_id existing))) (\<lambda>found.
             case found of
               None \<Rightarrow> fail_with (AuthError ''User not found'' ''UNAUTHORIZED'')
             | Some user \<Rightarrow> atomic (rotate_commit L e cx (existing, user))))"

definition createOrg_async :: "libs \<Rightarrow> env \<Rightarrow> ctx \<Rightarrow> create_org_body \<Rightarrow> create_org_result async" where
  "createOrg_async L e cx body =
     then_do (query (\<lambda>d. findOrgByName d (cb_org_name body))) (\<lambda>existingOrg.
     if existingOrg \<noteq> None then fail_with (ConflictError ''Organisation name already taken'' ''CONFLICT'')
     else then_do (Return (admin_identity L cx body)) (\<lambda>(adminEmail, passwordHash, googleSub).
     then_do (query (\<lambda>d. findUserByEmail d adminEmail)) (\<lambda>existingUser.
     if existingUser \<noteq> None then fail_with (ConflictError ''Email already registered'' ''CONFLICT'')
     else then_do (write_db (\<lambda>d. createOrgWithAdmin (cx_now cx) (cx_id cx 0) (cx_id cx 1) d
              \<lparr>co_orgName = cb_org_name body, co_adminEmail = adminEmail, co_passwordHash = passwordHash,
               co_googleSub = googleSub\<rparr>)) (\<lambda>(org, user).
     then_do (change (schedule_activation e cx (o_org_id org))) (\<lambda>_.
     then_do (Return (checkout_url e cx)) (\<lambda>url.
     let payload = \<lparr>jp_user_id = u_user_id user, jp_org_id = Some (o_org_id org), jp_role = u_role user,
                    jp_email = adminEmail\<rparr> in
     then_do (issue_session_async L e cx (cx_id cx 2) (u_user_id user) payload) (\<lambda>sn.
     give \<lparr>cr_org = org, cr_stripeCheckoutUrl = url, cr_session = sn, cr_user = payload\<rparr>)))))))"

definition ingest_async :: "(string \<Rightarrow> millis option) \<Rightarrow> ctx \<Rightarrow> bool \<Rightarrow> ingest_input \<Rightarrow> ingest_result async" where
  "ingest_async host cx hasService input =
     then_do (query (ingest_find input)) (\<lambda>replay.
       case replay of Some r \<Rightarrow> give r | None \<Rightarrow> atomic (ingest_insert host cx hasService input))"

lemma run_rotate: "run_async (rotate_async L e cx raw) s = rotateRefreshToken L e cx raw s"
  by (simp add: rotate_async_def rotateRefreshToken_def rotate_find_def split: option.split)

lemma run_createOrg: "run_async (createOrg_async L e cx body) s = createOrg L e cx body s"
  by (simp add: createOrg_async_def createOrg_def run_issue_session Let_def split: sum.split prod.split)

lemma run_ingest: "run_async (ingest_async host cx b input) s = ingest host cx b input s"
  by (simp add: ingest_async_def ingest_def split: option.split)

section \<open>Keys\<close>

text \<open>The time of last use is written by a statement nobody waits for; here it is the last one.\<close>

definition validateKey_async :: "libs \<Rightarrow> ctx \<Rightarrow> bool \<Rightarrow> string \<Rightarrow> validated_api_key async" where
  "validateKey_async L cx touched plaintextKey =
     (let inboundHash = hashSHA256 L plaintextKey in
      then_do (query (\<lambda>d. findApiKeyByHash d inboundHash)) (\<lambda>found.
      case found of
        None \<Rightarrow> fail_with (AuthError ''Invalid API key'' ''INVALID_API_KEY'')
      | Some apiKey \<Rightarrow>
          if length (from_hex (ak_key_hash apiKey)) \<noteq> length (from_hex inboundHash) \<or>
             timingSafeEqual (from_hex (ak_key_hash apiKey)) (from_hex inboundHash) \<noteq> Inr True
          then fail_with (AuthError ''Invalid API key'' ''INVALID_API_KEY'')
          else then_do (query (\<lambda>d. findOrgById d (Some (ak_org_id apiKey)))) (\<lambda>found.
            case found of
              None \<Rightarrow> fail_with (AuthError ''Invalid API key'' ''INVALID_API_KEY'')
            | Some org \<Rightarrow>
                if o_status org = SUSPENDED then fail_with (ForbiddenError ''Organisation is suspended'' ''ORG_SUSPENDED'')
                else if o_status org \<noteq> OrgACTIVE
                then fail_with (ForbiddenError ''Organisation is not active'' ''ORG_NOT_ACTIVE'')
                else then_do (change (\<lambda>s. if touched then s\<lparr>db := touchLastUsed (cx_now cx) (db s) (ak_key_id apiKey)\<rparr> else s))
                  (\<lambda>_. give \<lparr>vk_key_id = ak_key_id apiKey, vk_org_id = ak_org_id apiKey,
                             vk_user_id = ak_user_id apiKey, vk_permissions = ak_permissions apiKey\<rparr>))))"

definition key_owner_async :: "create_api_key_input \<Rightarrow> uuid option async" where
  "key_owner_async input =
     (if truthy (ci_email input)
      then then_do (query (\<lambda>d. findUserByEmailAndOrg d (the (ci_email input)) (ci_org_id input))) (\<lambda>found.
        case found of
          None \<Rightarrow> fail_with (ValidationError ''email does not belong to an active user in this organisation''
                    ''INVALID_USER_FOR_ORG'' (Some [FieldValue ''email'' (the (ci_email input))]))
        | Some user \<Rightarrow> give (Some (u_user_id user)))
      else give None)"

definition createKey_async :: "libs \<Rightarrow> ctx \<Rightarrow> create_api_key_input \<Rightarrow> created_api_key async" where
  "createKey_async L cx input =
     (let permissions = (case ci_permissions input of None \<Rightarrow> [EVENTS_WRITE] | Some ps \<Rightarrow> ps);
          plaintextKey = plaintext_key (cx_bytes cx) in
      then_do (key_owner_async input) (\<lambda>resolvedUserId.
      then_do (write_db (\<lambda>d. createApiKey_row (cx_now cx) (cx_id cx 0) d
              \<lparr>ck_org_id = ci_org_id input, ck_user_id = resolvedUserId,
               ck_key_hash = hashSHA256 L plaintextKey, ck_key_prefix = take 8 plaintextKey,
               ck_permissions = permissions, ck_name = ci_name input\<rparr>)) (\<lambda>saved.
      give \<lparr>cr_key_id = ak_key_id saved, cr_api_key = plaintextKey, cr_key_prefix = take 8 plaintextKey,
            cr_name = ak_name saved, cr_permissions = ak_permissions saved, cr_created_at = ak_created_at saved\<rparr>)))"

definition revokeKey_async :: "uuid \<Rightarrow> uuid \<Rightarrow> unit async" where
  "revokeKey_async keyId orgId =
     then_do (query (\<lambda>d. findApiKeyByIdAndOrg d keyId orgId)) (\<lambda>found.
       case found of
         None \<Rightarrow> fail_with (NotFoundError ''API key not found'' ''NOT_FOUND'')
       | Some existing \<Rightarrow>
           if ak_status existing = REVOKED then give ()
           else change (\<lambda>s. s\<lparr>db := revokeApiKey (db s) keyId orgId\<rparr>))"

lemma run_validateKey: "run_async (validateKey_async L cx touched key) s = validateApiKey L cx touched key s"
  by (simp add: validateKey_async_def validateApiKey_def Let_def split: option.split)

lemma run_key_owner:
  "run_async (key_owner_async input) s = (case key_owner (db s) input of Inl err \<Rightarrow> (Inl err, s) | Inr u \<Rightarrow> (Inr u, s))"
  by (simp add: key_owner_async_def key_owner_def split: option.split)

lemma run_createKey: "run_async (createKey_async L cx input) s = createApiKey L cx input s"
  by (simp add: createKey_async_def createApiKey_def run_key_owner Let_def split: sum.split prod.split)

lemma run_revokeKey: "run_async (revokeKey_async i g) s = revokeKey i g s"
  by (simp add: revokeKey_async_def revokeKey_def split: option.split)

text \<open>Each of their statements leaves events alone and moves keys forward.\<close>

definition key_statement :: "sys \<Rightarrow> sys \<Rightarrow> bool" where
  "key_statement s s' \<longleftrightarrow> leaves_events s s' \<and> keys_later (api_keys (db s)) (api_keys (db s'))"

lemma key_statement_query: "each key_statement (query q)"
  unfolding query_def by (rule each_atomic) (simp add: key_statement_def leaves_events_def)

lemma key_later_fields: "key_later k (k\<lparr>ak_last_used_at := t\<rparr>)" "key_later k (k\<lparr>ak_status := REVOKED\<rparr>)"
  by (simp_all add: key_later_def)

lemma each_validateKey: "each key_statement (validateKey_async L cx touched key)"
  unfolding validateKey_async_def Let_def change_def
  by (intro each_steps key_statement_query each_atomic)
    (simp add: key_statement_def leaves_events_def touchLastUsed_def keys_later_update key_later_fields)

lemma each_createKey: "each key_statement (createKey_async L cx input)"
  unfolding createKey_async_def key_owner_async_def write_db_def Let_def
  by (intro each_steps key_statement_query each_atomic)
    (auto simp: key_statement_def leaves_events_def createApiKey_row_def map_sum_def Let_def keys_later_append
      dest!: insert_row_SomeD(1) split: sum.split)

lemma each_revokeKey: "each key_statement (revokeKey_async i g)"
  unfolding revokeKey_async_def change_def
  by (intro each_steps key_statement_query each_atomic)
    (simp add: key_statement_def leaves_events_def revokeApiKey_def keys_later_update key_later_fields)

section \<open>What the statements of the account services leave alone\<close>

lemma unit_write_Inr: "unit_write r = Inr (a, d') \<Longrightarrow> r = Inr d'"
  by (cases r) simp_all

context account_frame
begin

lemma each_query: "each frame (query q)"
  unfolding query_def by (rule each_atomic) simp

lemma each_change: "(\<And>s. frame s (f s)) \<Longrightarrow> each frame (change f)"
  unfolding change_def by (rule each_atomic) simp

lemma each_write: "(\<And>d a d'. w d = Inr (a, d') \<Longrightarrow> same d d') \<Longrightarrow> each frame (write_db w)"
  unfolding write_db_def by (rule each_atomic) (auto intro: frame_db split: sum.split)

lemma each_accept: "each frame (write_db (\<lambda>d. acceptInvitationAndCreateUser now i d nv ud))"
  by (rule each_write) (rule inserts(4))

lemma each_issue_otp: "each frame (issue_otp_async L e cx i email)"
  unfolding issue_otp_async_def Let_def
  by (intro each_then each_write each_atomic send_otp_frame) (blast dest!: unit_write_Inr intro: inserts(1))

lemma each_issue_session: "each frame (issue_session_async L e cx i u p)"
  unfolding issue_session_async_def Let_def
  by (intro each_steps each_write) (blast dest!: unit_write_Inr intro: inserts(2))

lemma each_gate: "each frame (gate_async L cx t)"
  unfolding gate_async_def by (intro each_steps each_query)

lemma each_session: "each frame (session_async L e cx email pw t)"
  unfolding session_async_def register_async_def login_async_def compare_async_def Let_def
  by (intro each_steps each_query each_gate each_accept each_issue_otp each_change each_atomic frame_counts)
    (simp add: admit_login_def frame_counts split: sum.split)

lemma each_google: "each frame (google_async L e cx tok t)"
  unfolding google_async_def google_user_async_def google_register_async_def google_session_async_def
  by (intro each_steps each_query each_gate each_accept each_issue_session each_write)
    (blast dest!: unit_write_Inr intro: google_sub_same)

lemma each_verifyOtp: "each frame (verifyOtp_async L e cx email otp)"
  unfolding verifyOtp_async_def otp_session_async_def
  by (intro each_steps each_query each_issue_session each_change frame_db writes)

lemma each_resendOtp: "each frame (resendOtp_async L e cx email)"
  unfolding resendOtp_async_def by (intro each_steps each_query each_issue_otp each_change frame_db writes)

lemma each_requestReset: "each frame (requestReset_async L e cx email)"
  unfolding requestReset_async_def Let_def
  by (intro each_steps each_query each_write each_atomic send_reset_frame) (blast dest!: unit_write_Inr intro: inserts(3))

lemma each_confirmReset: "each frame (confirmReset_async L cx email otp pw)"
  unfolding confirmReset_async_def apply_async_def Let_def
  by (intro each_steps each_query each_change each_atomic frame_counts frame_db writes)
    (simp add: admit_reset_def frame_counts split: sum.split)

lemma each_rotate: "each frame (rotate_async L e cx raw)"
  unfolding rotate_async_def
  by (intro each_steps each_query each_atomic)
    (auto simp: rotate_commit_def Let_def intro!: frame_db intro: same_trans [OF writes(6) inserts(2)] split: sum.split)

lemma each_createOrg: "each frame (createOrg_async L e cx body)"
  unfolding createOrg_async_def Let_def case_prod_beta
  by (intro each_steps each_query each_issue_session each_change frame_schedule each_write)
    (rule inserts(5), simp add: prod_eq_iff)

lemma each_logout: "each frame (change (logout L cookie))"
  by (rule each_change) (rule logout_frame)

end

end
