(* ===== verification/Query.thy ===== *)
theory Query
  imports EventHistory
begin

text \<open>
  \<open>services/event/event-query.service.ts\<close>: listing events page by page, one event in the clear, and
  the data by which anyone can verify an anchored event on the chain.
\<close>

section \<open>Results\<close>

datatype public_status = Processing | Anchoring | Anchored | Failed

fun toPublicStatus :: "event_status \<Rightarrow> public_status" where
  "toPublicStatus PROCESSING = Processing"
| "toPublicStatus ANCHORING = Anchoring"
| "toPublicStatus ANCHORED = Anchored"
| "toPublicStatus ANCHOR_FAILED = Failed"

record chain_meta =
  cm_name :: string
  cm_explorerBase :: "string option"

definition chainMeta :: "int \<Rightarrow> chain_meta" where
  "chainMeta chainId =
     (if chainId = 8453 then \<lparr>cm_name = ''Base'', cm_explorerBase = Some ''https://basescan.org/tx''\<rparr>
      else if chainId = 84532
      then \<lparr>cm_name = ''Base Sepolia'', cm_explorerBase = Some ''https://sepolia.basescan.org/tx''\<rparr>
      else \<lparr>cm_name = ''Chain '' @ show_int chainId, cm_explorerBase = None\<rparr>)"

record event_summary =
  es_event_id :: uuid
  es_user_id :: "uuid option"
  es_email :: "string option"
  es_model_id :: string
  es_workflow_id :: "string option"
  es_status :: public_status
  es_canonical_hash :: "string option"
  es_tx_hash :: "string option"
  es_anchored_at :: "millis option"
  es_created_at :: millis

record event_detail =
  dt_event_id :: uuid
  dt_org_id :: uuid
  dt_user_id :: "uuid option"
  dt_email :: "string option"
  dt_prompt :: string
  dt_output :: string
  dt_model_id :: string
  dt_workflow_id :: "string option"
  dt_metadata :: "(string \<times> json) list option"
  dt_timestamp :: millis
  dt_received_at :: millis
  dt_canonical_hash :: "string option"
  dt_status :: public_status
  dt_tx_hash :: "string option"
  dt_block_number :: "string option"
  dt_chain_id :: "int option"
  dt_anchored_at :: "millis option"
  dt_created_at :: millis

record verification_data =
  vd_event_id :: uuid
  vd_canonical_hash :: string
  vd_tx_hash :: string
  vd_block_number :: string
  vd_chain_id :: int
  vd_chain_name :: string
  vd_chain_explorer_url :: "string option"
  vd_anchored_at :: millis
  vd_verification_status :: string

record list_events_result =
  le_data :: "event_summary list"
  le_page :: int
  le_page_size :: int
  le_total :: int
  le_has_next :: bool

section \<open>Operations\<close>

definition toSummary :: "event \<Rightarrow> string option \<Rightarrow> event_summary" where
  "toSummary ev ownerEmail =
     \<lparr>es_event_id = ev_event_id ev, es_user_id = ev_user_id ev, es_email = ownerEmail,
      es_model_id = ev_model_id ev, es_workflow_id = ev_workflow_id ev,
      es_status = toPublicStatus (ev_status ev), es_canonical_hash = ev_canonical_hash ev,
      es_tx_hash = ev_tx_hash ev, es_anchored_at = ev_anchored_at ev, es_created_at = ev_created_at ev\<rparr>"

definition toDetail :: "libs \<Rightarrow> env \<Rightarrow> event \<Rightarrow> string option \<Rightarrow> event_detail result" where
  "toDetail L e ev ownerEmail =
     (case decrypt L e (ev_prompt ev) of
        Inl err \<Rightarrow> Inl err
      | Inr p \<Rightarrow>
          (case decrypt L e (ev_output ev) of
             Inl err \<Rightarrow> Inl err
           | Inr out \<Rightarrow>
               Inr \<lparr>dt_event_id = ev_event_id ev, dt_org_id = ev_org_id ev, dt_user_id = ev_user_id ev,
                    dt_email = ownerEmail, dt_prompt = p, dt_output = out, dt_model_id = ev_model_id ev,
                    dt_workflow_id = ev_workflow_id ev, dt_metadata = ev_metadata ev,
                    dt_timestamp = ev_timestamp ev, dt_received_at = ev_received_at ev,
                    dt_canonical_hash = ev_canonical_hash ev, dt_status = toPublicStatus (ev_status ev),
                    dt_tx_hash = ev_tx_hash ev, dt_block_number = ev_block_number ev,
                    dt_chain_id = ev_chain_id ev, dt_anchored_at = ev_anchored_at ev,
                    dt_created_at = ev_created_at ev\<rparr>))"

text \<open>\<open>new Map(users.map(\<dots>)).get(id)\<close>: the last pair with this key.\<close>

definition map_get :: "('k \<times> 'v) list \<Rightarrow> 'k \<Rightarrow> 'v option" where
  "map_get kvs k = map_of (rev kvs) k"

definition page_user_ids :: "event list \<Rightarrow> uuid list" where
  "page_user_ids evs = remdups (map (\<lambda>ev. the (ev_user_id ev)) (filter (\<lambda>ev. truthy (ev_user_id ev)) evs))"

definition queryList :: "store \<Rightarrow> list_events_input \<Rightarrow> list_events_result" where
  "queryList d query =
     (let (evs, total) = listEvents d query;
          emailById = map_get (findUsersByIds d (page_user_ids evs))
      in \<lparr>le_data = map (\<lambda>ev. toSummary ev
             (emailById (case ev_user_id ev of None \<Rightarrow> '''' | Some i \<Rightarrow> i))) evs,
          le_page = li_page query, le_page_size = li_page_size query, le_total = total,
          le_has_next = li_page query * li_page_size query < total\<rparr>)"

text \<open>The event that both single-event operations look for.\<close>

definition findVisible :: "store \<Rightarrow> uuid \<Rightarrow> uuid \<Rightarrow> uuid option \<Rightarrow> event result" where
  "findVisible d eventId orgId userId =
     (case findEventById d eventId orgId of
        None \<Rightarrow> throw (NotFoundError ''Event not found'' ''NOT_FOUND'')
      | Some ev \<Rightarrow>
          if truthy userId \<and> ev_user_id ev \<noteq> userId
          then throw (NotFoundError ''Event not found'' ''NOT_FOUND'')
          else Inr ev)"

definition getById :: "libs \<Rightarrow> env \<Rightarrow> store \<Rightarrow> uuid \<Rightarrow> uuid \<Rightarrow> uuid option \<Rightarrow> event_detail result" where
  "getById L e d eventId orgId userId =
     (case findVisible d eventId orgId userId of
        Inl err \<Rightarrow> Inl err
      | Inr ev \<Rightarrow>
          toDetail L e ev
            (if truthy (ev_user_id ev)
             then map_option u_email (findUserByIdAndOrg d (the (ev_user_id ev)) orgId) else None))"

definition getVerification :: "store \<Rightarrow> uuid \<Rightarrow> uuid \<Rightarrow> uuid option \<Rightarrow> verification_data result" where
  "getVerification d eventId orgId userId =
     (case findVisible d eventId orgId userId of
        Inl err \<Rightarrow> Inl err
      | Inr ev \<Rightarrow>
          if ev_status ev \<noteq> ANCHORED \<or> \<not> truthy (ev_tx_hash ev) \<or> \<not> truthy (ev_block_number ev) \<or>
             ev_chain_id ev \<in> {None, Some 0} \<or> ev_anchored_at ev = None \<or> \<not> truthy (ev_canonical_hash ev)
          then throw (UnprocessableError ''Event is not yet anchored on-chain'' ''UNPROCESSABLE''
                 (Some [FieldValue ''status'' (event_status_text (ev_status ev))]))
          else let meta = chainMeta (the (ev_chain_id ev)) in
            Inr \<lparr>vd_event_id = ev_event_id ev, vd_canonical_hash = the (ev_canonical_hash ev),
                 vd_tx_hash = the (ev_tx_hash ev), vd_block_number = the (ev_block_number ev),
                 vd_chain_id = the (ev_chain_id ev), vd_chain_name = cm_name meta,
                 vd_chain_explorer_url =
                   map_option (\<lambda>base. base @ ''/'' @ the (ev_tx_hash ev)) (cm_explorerBase meta),
                 vd_anchored_at = the (ev_anchored_at ev), vd_verification_status = ''anchored''\<rparr>)"

section \<open>Lemmas\<close>

lemma findVisible_InrD:
  assumes "findVisible d i g u = Inr ev"
  shows "ev \<in> set (events d)" "ev_event_id ev = i" "ev_org_id ev = g" "truthy u \<Longrightarrow> ev_user_id ev = u"
  using assms by (auto simp: findVisible_def findEventById_def dest!: find_row_SomeD split: option.splits if_splits)

lemma getById_InrD:
  assumes "getById L e d i g u = Inr dt"
  obtains ev p out where "findVisible d i g u = Inr ev" "decrypt L e (ev_prompt ev) = Inr p"
    "decrypt L e (ev_output ev) = Inr out" "dt_prompt dt = p" "dt_output dt = out"
    "dt_model_id dt = ev_model_id ev" "dt_workflow_id dt = ev_workflow_id ev" "dt_metadata dt = ev_metadata ev"
    "dt_timestamp dt = ev_timestamp ev" "dt_canonical_hash dt = ev_canonical_hash ev"
    "dt_status dt = toPublicStatus (ev_status ev)" "dt_event_id dt = ev_event_id ev" "dt_org_id dt = ev_org_id ev"
    "dt_user_id dt = ev_user_id ev"
  using assms that by (auto simp: getById_def toDetail_def split: sum.splits)

lemma sealed_decrypts:
  assumes "sealed L e host ev"
  obtains p out str where "decrypt L e (ev_prompt ev) = Inr p" "decrypt L e (ev_output ev) = Inr out"
    "canonicalise host (row_content ev p out) = Inr str" "ev_canonical_hash ev = Some (canonical_hash L str)"
  using assms that by (auto simp: sealed_def split: sum.splits)

text \<open>What a page holds, and that the pages one after the other are the whole listing.\<close>

definition listing :: "store \<Rightarrow> list_events_input \<Rightarrow> event list" where
  "listing d input =
     sort_key (\<lambda>ev. if li_sort_asc input then ev_created_at ev else - ev_created_at ev)
       (filter (event_matches input) (events d))"

lemma listEvents_listing:
  "listEvents d input =
     (take (nat (li_page_size input)) (drop (nat ((li_page input - 1) * li_page_size input)) (listing d input)),
      int (length (listing d input)))"
  by (simp add: listEvents_def listing_def Let_def)

lemma set_listing: "set (listing d input) = {ev \<in> set (events d). event_matches input ev}"
  by (auto simp: listing_def)

lemma event_matches_page [simp]: "event_matches (input\<lparr>li_page := k\<rparr>) = event_matches input"
  by (rule ext) (simp add: event_matches_def cong: option.case_cong list.case_cong)

lemma listing_page [simp]: "listing d (input\<lparr>li_page := k\<rparr>) = listing d input"
  by (simp add: listing_def)

lemma concat_pages: "concat (map (\<lambda>k. take n (drop (k * n) xs)) [0..<m]) = take (m * n) xs"
proof (induction m)
  case (Suc m)
  have "take (Suc m * n) xs = take (m * n) xs @ take n (drop (m * n) xs)"
    using take_add [of "m * n" n xs] by (simp add: add.commute)
  with Suc show ?case by simp
qed simp

text \<open>The address shown with an event, and a page as a part of the listing.\<close>

definition owner_email :: "store \<Rightarrow> event \<Rightarrow> string option" where
  "owner_email d ev =
     (if truthy (ev_user_id ev) then map_option u_email (findUserById d (the (ev_user_id ev))) else None)"

definition page_of :: "store \<Rightarrow> list_events_input \<Rightarrow> event list" where
  "page_of d q = take (nat (li_page_size q)) (drop (nat ((li_page q - 1) * li_page_size q)) (listing d q))"

lemma map_of_users:
  "distinct (map u_user_id us) \<Longrightarrow> map_of (map (\<lambda>u. (u_user_id u, u_email u)) (filter P us)) i =
    (case find_row (\<lambda>u. u_user_id u = i) us of None \<Rightarrow> None | Some u \<Rightarrow> if P u then Some (u_email u) else None)"
  by (induction us) (auto simp: image_iff split: option.splits dest!: find_row_SomeD)

lemma map_of_rev: "distinct (map fst kvs) \<Longrightarrow> map_of (rev kvs) = map_of kvs"
proof (induction kvs)
  case (Cons x kvs)
  then have "map_of (rev (x # kvs)) = [fst x \<mapsto> snd x] ++ map_of kvs" by (cases x) simp
  also have "\<dots> = map_of kvs ++ [fst x \<mapsto> snd x]"
    by (rule map_add_comm) (use Cons(2) in \<open>auto simp: dom_map_of_conv_image_fst\<close>)
  finally show ?case by (cases x) simp
qed simp

lemma map_get_users:
  assumes "distinct (map u_user_id us)"
  shows "map_get (map (\<lambda>u. (u_user_id u, u_email u)) (filter P us)) i =
    (case find_row (\<lambda>u. u_user_id u = i) us of None \<Rightarrow> None | Some u \<Rightarrow> if P u then Some (u_email u) else None)"
proof -
  have "distinct (map fst (map (\<lambda>u. (u_user_id u, u_email u)) (filter P us)))"
    using assms by (simp add: comp_def distinct_map inj_on_def)
  then show ?thesis using map_of_users [OF assms] by (simp add: map_get_def map_of_rev)
qed

lemma queryList_rows:
  assumes "store_ok d"
  shows "le_data (queryList d q) = map (\<lambda>ev. toSummary ev (owner_email d ev)) (page_of d q)"
proof -
  let ?ids = "page_user_ids (page_of d q)"
  note users = map_get_users [OF store_ok_keys(3) [OF assms]]
  have "map_get (findUsersByIds d ?ids) (case ev_user_id ev of None \<Rightarrow> [] | Some i \<Rightarrow> i) = owner_email d ev"
    if ev: "ev \<in> set (page_of d q)" for ev
  proof (cases "truthy (ev_user_id ev)")
    case True
    then obtain i where i: "ev_user_id ev = Some i" "i \<noteq> []" by (auto simp: truthy_def split: option.splits)
    then have "i \<in> set ?ids" using ev by (force simp: page_user_ids_def truthy_def)
    then show ?thesis
      using i users
      by (auto simp: findUsersByIds_def owner_email_def truthy_def findUserById_def split: option.splits dest!: find_row_SomeD)
  next
    case False
    have "[] \<notin> set ?ids" by (auto simp: page_user_ids_def truthy_def split: option.splits)
    then have "map_get (findUsersByIds d ?ids) [] = None"
      using users by (auto simp: findUsersByIds_def map_get_def split: option.splits dest!: find_row_SomeD)
    then show ?thesis using False by (auto simp: owner_email_def truthy_def split: option.splits)
  qed
  then show ?thesis by (simp add: queryList_def listEvents_listing page_of_def Let_def)
qed

lemma page_row:
  assumes "row \<in> set (le_data (queryList d q))"
  obtains ev m where "ev \<in> set (listing d q)" "row = toSummary ev m"
  using assms that
  by (auto simp: queryList_def listEvents_listing dest!: in_set_takeD in_set_dropD)

end
