(* ===== verification/Http.thy ===== *)
theory Http
  imports ApiKeys
begin

text \<open>
  Requests, responses and cookies, and \<open>src/middleware\<close>: who sends a request
  (\<open>authenticate\<close>, \<open>validateApiKey\<close>, \<open>authenticateFlexible\<close>), what the sender may do (\<open>authorize\<close>,
  \<open>orgIdCrossCheck\<close>, \<open>validateApiKeyPermission\<close>), whether its body is well formed
  (\<open>validateBody\<close>), and whether it sends too much (\<open>rateLimiter\<close>). A middleware that calls
  \<open>next()\<close> gives the request with what it added, one that calls \<open>next(err)\<close> gives the error.

  Query parameters, cookies and headers are single texts. The counting of express-rate-limit is a parameter: how often
  the sender was seen in the current window, this request included.
\<close>

section \<open>Requests and responses\<close>

type_synonym auth_user = jwt_payload

record request =
  rq_method :: string
  rq_originalUrl :: string
  rq_session_cookie :: "string option"
  rq_refresh_cookie :: "string option"
  rq_header :: "string \<Rightarrow> string option"
  rq_params :: "string \<Rightarrow> string option"
  rq_query :: "string \<Rightarrow> string option"
  rq_user :: "auth_user option"
  rq_apiKey :: "validated_api_key option"

datatype same_site = Strict | SameSiteNone

record cookie =
  cookie_name :: string
  cookie_value :: string
  cookie_httpOnly :: bool
  cookie_secure :: bool
  cookie_sameSite :: same_site
  cookie_maxAge :: int

record 'a response =
  rs_status :: int
  rs_cookies :: "cookie list"
  rs_cleared :: "string list"
  rs_data :: 'a

definition respond :: "int \<Rightarrow> 'a \<Rightarrow> 'a response" where
  "respond code data = \<lparr>rs_status = code, rs_cookies = [], rs_cleared = [], rs_data = data\<rparr>"

section \<open>Authentication\<close>

definition AUTH_REQUIRED :: thrown where
  "AUTH_REQUIRED = App (AuthError ''Authentication required'' ''UNAUTHORIZED'')"

text \<open>What a suspended organisation may still do.\<close>

definition allowed_when_suspended :: "request \<Rightarrow> bool" where
  "allowed_when_suspended req \<longleftrightarrow>
     (let url = hd (js_split CHR ''?'' (rq_originalUrl req)) in
      rq_method req = ''GET'' \<and> url = ''/v1/me'' \<or> rq_method req = ''POST'' \<and> url = ''/v1/auth/logout'')"

definition authenticate :: "libs \<Rightarrow> env \<Rightarrow> millis \<Rightarrow> store \<Rightarrow> request \<Rightarrow> request result" where
  "authenticate L e now d req =
     (if \<not> truthy (rq_session_cookie req) then Inl AUTH_REQUIRED
      else case jwt_verify L (env_JWT_SECRET e) (the (rq_session_cookie req)) now of
        None \<Rightarrow> throw (AuthError ''Invalid or expired token'' ''UNAUTHORIZED'')
      | Some payload \<Rightarrow>
          (case findUserById d (jp_user_id payload) of
             None \<Rightarrow> throw (AuthError ''User account is not active'' ''UNAUTHORIZED'')
           | Some user \<Rightarrow>
               if u_status user \<noteq> UserACTIVE
               then throw (AuthError ''User account is not active'' ''UNAUTHORIZED'')
               else if \<not> truthy (u_org_id user) then Inr (req\<lparr>rq_user := Some (session_payload user)\<rparr>)
               else if org_suspended (findOrgById d (u_org_id user)) \<and> \<not> allowed_when_suspended req
               then throw (ForbiddenError ''Organisation is suspended'' ''ORG_SUSPENDED'')
               else Inr (req\<lparr>rq_user := Some (session_payload user)\<rparr>)))"

definition API_KEY_HEADER :: string where "API_KEY_HEADER = ''x-api-key''"

text \<open>A header that is there and not blank.\<close>

definition filled :: "string option \<Rightarrow> bool" where
  "filled h \<longleftrightarrow> truthy h \<and> js_trim (the h) \<noteq> []"

definition requireApiKey :: "libs \<Rightarrow> ctx \<Rightarrow> bool \<Rightarrow> request \<Rightarrow> request op" where
  "requireApiKey L cx touched req s =
     (if \<not> filled (rq_header req API_KEY_HEADER)
      then (throw (AuthError ''API key required'' ''API_KEY_REQUIRED''), s)
      else case validateApiKey L cx touched (js_trim (the (rq_header req API_KEY_HEADER))) s of
        (Inl err, s') \<Rightarrow> (Inl err, s')
      | (Inr kc, s') \<Rightarrow> (Inr (req\<lparr>rq_apiKey := Some kc\<rparr>), s'))"

definition authenticateFlexible :: "libs \<Rightarrow> env \<Rightarrow> ctx \<Rightarrow> bool \<Rightarrow> request \<Rightarrow> request op" where
  "authenticateFlexible L e cx touched req s =
     (if truthy (rq_session_cookie req) then (authenticate L e (cx_now cx) (db s) req, s)
      else if filled (rq_header req API_KEY_HEADER) then requireApiKey L cx touched req s
      else (Inl AUTH_REQUIRED, s))"

section \<open>Authorisation\<close>

definition authorize :: "user_role list \<Rightarrow> request \<Rightarrow> request result" where
  "authorize roles req =
     (case rq_user req of
        None \<Rightarrow> throw (ForbiddenError ''No authenticated user'' ''INSUFFICIENT_ROLE'')
      | Some user \<Rightarrow>
          if jp_role user \<notin> set roles
          then throw (ForbiddenError ''Insufficient role for this action'' ''INSUFFICIENT_ROLE'')
          else Inr req)"

definition orgIdCrossCheck :: "request \<Rightarrow> request result" where
  "orgIdCrossCheck req =
     (case rq_user req of
        None \<Rightarrow> throw (ForbiddenError ''No authenticated user'' ''ORG_ACCESS_DENIED'')
      | Some user \<Rightarrow>
          if \<not> truthy (rq_params req ''org_id'') then Inr req
          else if jp_role user = SUPER_ADMIN then Inr req
          else if jp_org_id user \<noteq> rq_params req ''org_id''
          then throw (ForbiddenError ''Access denied to this organisation'' ''ORG_ACCESS_DENIED'')
          else Inr req)"

definition validateApiKeyPermission :: "permission \<Rightarrow> request \<Rightarrow> request result" where
  "validateApiKeyPermission required req =
     (case rq_apiKey req of
        None \<Rightarrow> throw (ForbiddenError ''API key context missing'' ''INSUFFICIENT_PERMISSIONS'')
      | Some kc \<Rightarrow>
          if required \<notin> set (vk_permissions kc)
          then throw (ForbiddenError ''API key does not have required permission'' ''INSUFFICIENT_PERMISSIONS'')
          else Inr req)"

section \<open>Bodies\<close>

text \<open>An issue of a schema: the path to the value, and the message.\<close>

type_synonym zod_issue = "string list \<times> string"

definition join_path :: "string list \<Rightarrow> string" where
  "join_path p = (case p of [] \<Rightarrow> '''' | x # xs \<Rightarrow> x @ concat (map (\<lambda>y. CHR ''.'' # y) xs))"

definition validateBody :: "(json \<Rightarrow> zod_issue list + 'b) \<Rightarrow> json \<Rightarrow> 'b result" where
  "validateBody schema body =
     (case schema body of
        Inl issues \<Rightarrow>
          throw (ValidationError ''Request validation failed'' ''VALIDATION_ERROR''
            (Some (map (\<lambda>(path, message). FieldMessage (join_path path) message) issues)))
      | Inr data \<Rightarrow> Inr data)"

section \<open>Rate limits\<close>

record rate_limit =
  rl_windowMs :: int
  rl_max :: int
  rl_error :: app_error

definition ipRateLimiter :: rate_limit where
  "ipRateLimiter =
     \<lparr>rl_windowMs = 60 * 1000, rl_max = 20,
      rl_error = RateLimitError ''Too many requests from this IP'' ''RATE_LIMIT_EXCEEDED'' (Some 60)\<rparr>"

definition apiKeySustainedLimiter :: rate_limit where
  "apiKeySustainedLimiter =
     \<lparr>rl_windowMs = 60 * 1000, rl_max = 300,
      rl_error = RateLimitError ''API key rate limit exceeded (300/min)'' ''RATE_LIMIT_EXCEEDED'' (Some 60)\<rparr>"

definition apiKeyBurstLimiter :: rate_limit where
  "apiKeyBurstLimiter =
     \<lparr>rl_windowMs = 1000, rl_max = 50,
      rl_error = RateLimitError ''API key burst limit exceeded (50/sec)'' ''RATE_LIMIT_EXCEEDED'' (Some 1)\<rparr>"

text \<open>The key under which a request is counted; \<open>ip\<close> is the library's key for its address.\<close>

definition apiKeyKeyGenerator :: "string \<Rightarrow> request \<Rightarrow> string" where
  "apiKeyKeyGenerator ip req = (case rq_apiKey req of Some kc \<Rightarrow> vk_key_id kc | None \<Rightarrow> ''ip:'' @ ip)"

definition rate_limited :: "rate_limit \<Rightarrow> int \<Rightarrow> request \<Rightarrow> request result" where
  "rate_limited lim hits req = (if rl_max lim < hits then throw (rl_error lim) else Inr req)"

section \<open>Request identifiers\<close>

definition requestId :: "uuid \<Rightarrow> request \<Rightarrow> string" where
  "requestId new_uuid req =
     (if truthy (rq_header req ''x-request-id'') then the (rq_header req ''x-request-id'') else new_uuid)"

section \<open>Lemmas\<close>

lemma authenticate_InrD:
  assumes "authenticate L e now d req = Inr req'"
  obtains payload u where "jwt_verify L (env_JWT_SECRET e) (the (rq_session_cookie req)) now = Some payload"
    "u \<in> set (users d)" "u_user_id u = jp_user_id payload" "u_status u = UserACTIVE"
    "req' = req\<lparr>rq_user := Some (session_payload u)\<rparr>"
    "truthy (u_org_id u) \<longrightarrow> org_suspended (findOrgById d (u_org_id u)) \<longrightarrow> allowed_when_suspended req"
proof -
  obtain payload where payload: "jwt_verify L (env_JWT_SECRET e) (the (rq_session_cookie req)) now = Some payload"
    using assms by (auto simp: authenticate_def split: if_splits option.splits)
  obtain u where u: "findUserById d (jp_user_id payload) = Some u"
    using assms payload by (auto simp: authenticate_def split: if_splits option.splits)
  then have "u \<in> set (users d)" "u_user_id u = jp_user_id payload"
    by (auto simp: findUserById_def dest!: find_row_SomeD)
  with payload show ?thesis
    by (rule that) (use assms payload u in \<open>auto simp: authenticate_def split: if_splits\<close>)
qed

lemma authorize_InrD:
  "authorize roles req = Inr req' \<Longrightarrow> req' = req \<and> (\<exists>u. rq_user req = Some u \<and> jp_role u \<in> set roles)"
  by (auto simp: authorize_def split: option.splits if_splits)

lemma rate_limited_InrD: "rate_limited lim hits req = Inr req' \<Longrightarrow> req' = req \<and> hits \<le> rl_max lim"
  by (auto simp: rate_limited_def split: if_splits)

lemma requireApiKey_InrD:
  assumes "requireApiKey L cx b req s = (Inr req', s')"
  obtains kc where "validateApiKey L cx b (js_trim (the (rq_header req API_KEY_HEADER))) s = (Inr kc, s')"
    "req' = req\<lparr>rq_apiKey := Some kc\<rparr>"
  using assms that by (auto simp: requireApiKey_def split: if_splits prod.splits sum.splits)

lemma permission_InrD:
  "validateApiKeyPermission p req = Inr req' \<Longrightarrow>
     req' = req \<and> (\<exists>kc. rq_apiKey req = Some kc \<and> p \<in> set (vk_permissions kc))"
  by (auto simp: validateApiKeyPermission_def split: option.splits if_splits)

end
