(* ===== verification/EventRoutes.thy ===== *)
theory EventRoutes
  imports Query Http
begin

text \<open>
  \<open>controllers/event\<close> and \<open>routes/event/event.routes.ts\<close>: ingesting an event with an API key,
  and reading events with a session cookie or an API key. Each route is the chain of its middlewares, with its
  controller at the end.
\<close>

section \<open>Ingestion\<close>

definition MAX_IDEMPOTENCY_KEY_LENGTH :: nat where "MAX_IDEMPOTENCY_KEY_LENGTH = 255"

definition idempotency_key :: "request \<Rightarrow> string option" where
  "idempotency_key req =
     (let raw = rq_header req ''x-idempotency-key'' in if filled raw then Some (js_trim (the raw)) else None)"

definition createEventHandler ::
    "(string \<Rightarrow> millis option) \<Rightarrow> ctx \<Rightarrow> bool \<Rightarrow> create_event_body \<Rightarrow> request \<Rightarrow> ingest_result response op" where
  "createEventHandler host cx hasService body req s =
     (case rq_apiKey req of
        None \<Rightarrow> (throw (AuthError ''API key required'' ''API_KEY_REQUIRED''), s)
      | Some kc \<Rightarrow>
          let k = idempotency_key req in
          if truthy k \<and> length (the k) > MAX_IDEMPOTENCY_KEY_LENGTH
          then (throw (ValidationError ''Idempotency key too long'' ''VALIDATION_ERROR''
                  (Some [FieldMessage ''x-idempotency-key'' ''must be at most 255 characters''])), s)
          else (case ingest host cx hasService
              \<lparr>in_org_id = vk_org_id kc, in_api_key_id = vk_key_id kc, in_user_id = vk_user_id kc,
               in_payload = body, in_idempotency_key = k\<rparr> s of
              (Inl err, s') \<Rightarrow> (Inl err, s')
            | (Inr r, s') \<Rightarrow> (Inr (respond 202 r), s')))"

section \<open>Who sees which events\<close>

record scope =
  sc_org_id :: uuid
  sc_user_id_filter :: "uuid option"
  sc_email_filter :: "string option"

definition NO_ORG :: thrown where
  "NO_ORG = App (ForbiddenError ''User is not assigned to an organisation'' ''NO_ORG'')"

definition key_scope :: "permission \<Rightarrow> request \<Rightarrow> scope result" where
  "key_scope required req =
     (case rq_apiKey req of
        None \<Rightarrow> Inl AUTH_REQUIRED
      | Some kc \<Rightarrow>
          if required \<notin> set (vk_permissions kc)
          then throw (ForbiddenError ''API key does not have required permission'' ''INSUFFICIENT_PERMISSIONS'')
          else Inr \<lparr>sc_org_id = vk_org_id kc, sc_user_id_filter = None, sc_email_filter = None\<rparr>)"

definition resolveListScope :: "request \<Rightarrow> scope result" where
  "resolveListScope req =
     (case rq_user req of
        None \<Rightarrow> key_scope EVENTS_READ req
      | Some user \<Rightarrow>
          if \<not> truthy (jp_org_id user) then Inl NO_ORG
          else if jp_role user = MEMBER
          then Inr \<lparr>sc_org_id = the (jp_org_id user), sc_user_id_filter = Some (jp_user_id user),
                    sc_email_filter = None\<rparr>
          else Inr \<lparr>sc_org_id = the (jp_org_id user), sc_user_id_filter = None,
                    sc_email_filter = (if truthy (rq_query req ''email'') then rq_query req ''email'' else None)\<rparr>)"

definition resolveDetailScope :: "permission \<Rightarrow> request \<Rightarrow> scope result" where
  "resolveDetailScope required req =
     (case rq_user req of
        None \<Rightarrow> key_scope required req
      | Some user \<Rightarrow>
          if \<not> truthy (jp_org_id user) then Inl NO_ORG
          else Inr \<lparr>sc_org_id = the (jp_org_id user),
                    sc_user_id_filter = (if jp_role user = MEMBER then Some (jp_user_id user) else None),
                    sc_email_filter = None\<rparr>)"

section \<open>The parameters of a listing\<close>

definition invalid :: "string \<Rightarrow> 'a result" where
  "invalid message = throw (ValidationError message ''VALIDATION_ERROR'' None)"

definition public_status_of :: "string \<Rightarrow> event_status option" where
  "public_status_of s =
     (if s = ''processing'' then Some PROCESSING else if s = ''anchoring'' then Some ANCHORING
      else if s = ''anchored'' then Some ANCHORED else if s = ''failed'' then Some ANCHOR_FAILED else None)"

text \<open>The message has a dash that is outside the characters of the model; it is written as a hyphen.\<close>

definition invalid_status :: "'a result" where
  "invalid_status =
     invalid ''invalid status filter - must be one of: processing, anchoring, anchored, failed''"

definition status_filter :: "string option \<Rightarrow> event_status list option result" where
  "status_filter param =
     (case param of
        None \<Rightarrow> Inr None
      | Some text \<Rightarrow>
          let values = filter (\<lambda>v. v \<noteq> []) (map js_trim (js_split CHR '','' text)) in
          if \<exists>v \<in> set values. public_status_of v = None then invalid_status
          else Inr (if values \<noteq> [] then Some (map (\<lambda>v. the (public_status_of v)) values) else None))"

definition date_filter :: "(string \<Rightarrow> millis option) \<Rightarrow> string \<Rightarrow> string option \<Rightarrow> millis option result" where
  "date_filter host name param =
     (if \<not> truthy param then Inr None
      else case date_parse host (the param) of
        None \<Rightarrow> invalid (name @ '' must be a valid ISO 8601 date'')
      | Some t \<Rightarrow> Inr (Some t))"

definition PAGE_SIZE_MAX :: int where "PAGE_SIZE_MAX = 100"

definition or_default :: "string \<Rightarrow> string option \<Rightarrow> string" where
  "or_default dflt so = (case so of None \<Rightarrow> dflt | Some t \<Rightarrow> t)"

text \<open>The listing asked for, with the user filter of the scope still to be put in.\<close>

definition parseListQuery :: "(string \<Rightarrow> millis option) \<Rightarrow> uuid \<Rightarrow> request \<Rightarrow> list_events_input result" where
  "parseListQuery host orgId req =
     (let page = parseInt10 (or_default ''1'' (rq_query req ''page''));
          page_size = parseInt10 (or_default ''20'' (rq_query req ''page_size''));
          sortParam = or_default ''created_at:desc'' (rq_query req ''sort'')
      in if page = None \<or> the page < 1 then invalid ''page must be a positive integer''
         else if page_size = None \<or> the page_size < 1 \<or> the page_size > PAGE_SIZE_MAX
         then invalid ''page_size must be between 1 and 100''
         else if sortParam \<noteq> ''created_at:asc'' \<and> sortParam \<noteq> ''created_at:desc''
         then invalid ''sort must be created_at:asc or created_at:desc''
         else case status_filter (rq_query req ''status'') of
           Inl err \<Rightarrow> Inl err
         | Inr statusFilter \<Rightarrow>
             (case date_filter host ''from'' (rq_query req ''from'') of
                Inl err \<Rightarrow> Inl err
              | Inr from_date \<Rightarrow>
                  (case date_filter host ''to'' (rq_query req ''to'') of
                     Inl err \<Rightarrow> Inl err
                   | Inr to_date \<Rightarrow>
                       Inr \<lparr>li_org_id = orgId, li_user_id = None, li_page = the page,
                            li_page_size = the page_size, li_sort_asc = endsWith sortParam ''asc'',
                            li_status = statusFilter, li_from = from_date, li_to = to_date,
                            li_workflow_id = rq_query req ''workflow_id'',
                            li_model_id = rq_query req ''model_id''\<rparr>)))"

section \<open>Reading\<close>

text \<open>\<open>None\<close> when the address asked for belongs to no active user of the organisation (\<open>__no_match__\<close>).\<close>

definition resolveUserId :: "store \<Rightarrow> scope \<Rightarrow> uuid option option" where
  "resolveUserId d sc =
     (if truthy (sc_email_filter sc)
      then map_option (\<lambda>u. Some (u_user_id u)) (findUserByEmailAndOrg d (the (sc_email_filter sc)) (sc_org_id sc))
      else Some (sc_user_id_filter sc))"

definition listEventsHandler ::
    "(string \<Rightarrow> millis option) \<Rightarrow> store \<Rightarrow> request \<Rightarrow> list_events_result response result" where
  "listEventsHandler host d req =
     (case resolveListScope req of
        Inl err \<Rightarrow> Inl err
      | Inr sc \<Rightarrow>
          (case parseListQuery host (sc_org_id sc) req of
             Inl err \<Rightarrow> Inl err
           | Inr query \<Rightarrow>
               (case resolveUserId d sc of
                  None \<Rightarrow>
                    Inr (respond 200 \<lparr>le_data = [], le_page = li_page query, le_page_size = li_page_size query,
                                      le_total = 0, le_has_next = False\<rparr>)
                | Some userId \<Rightarrow> Inr (respond 200 (queryList d (query\<lparr>li_user_id := userId\<rparr>))))))"

definition event_id_param :: "request \<Rightarrow> uuid" where
  "event_id_param req = or_default '''' (rq_params req ''event_id'')"

definition getEventHandler :: "libs \<Rightarrow> env \<Rightarrow> store \<Rightarrow> request \<Rightarrow> event_detail response result" where
  "getEventHandler L e d req =
     (case resolveDetailScope EVENTS_READ req of
        Inl err \<Rightarrow> Inl err
      | Inr sc \<Rightarrow>
          map_sum id (respond 200) (getById L e d (event_id_param req) (sc_org_id sc) (sc_user_id_filter sc)))"

definition getVerificationHandler :: "store \<Rightarrow> request \<Rightarrow> verification_data response result" where
  "getVerificationHandler d req =
     (case resolveDetailScope VERIFICATION_READ req of
        Inl err \<Rightarrow> Inl err
      | Inr sc \<Rightarrow>
          map_sum id (respond 200) (getVerification d (event_id_param req) (sc_org_id sc) (sc_user_id_filter sc)))"

section \<open>Routes\<close>

text \<open>The numbers of requests seen in the two windows of the API key limits.\<close>

type_synonym key_hits = "int \<times> int"

definition key_limits :: "key_hits \<Rightarrow> request \<Rightarrow> request result" where
  "key_limits hits req =
     (case rate_limited apiKeyBurstLimiter (fst hits) req of
        Inl err \<Rightarrow> Inl err
      | Inr req' \<Rightarrow> rate_limited apiKeySustainedLimiter (snd hits) req')"

definition postEvents ::
    "libs \<Rightarrow> (string \<Rightarrow> millis option) \<Rightarrow> ctx \<Rightarrow> bool \<Rightarrow> bool \<Rightarrow> key_hits \<Rightarrow>
     (json \<Rightarrow> zod_issue list + create_event_body) \<Rightarrow> json \<Rightarrow> request \<Rightarrow> ingest_result response op" where
  "postEvents L host cx touched hasService hits schema body req s =
     (case requireApiKey L cx touched req s of
        (Inl err, s1) \<Rightarrow> (Inl err, s1)
      | (Inr req1, s1) \<Rightarrow>
          (case validateApiKeyPermission EVENTS_WRITE req1 of
             Inl err \<Rightarrow> (Inl err, s1)
           | Inr req2 \<Rightarrow>
               (case key_limits hits req2 of
                  Inl err \<Rightarrow> (Inl err, s1)
                | Inr req3 \<Rightarrow>
                    (case validateBody schema body of
                       Inl err \<Rightarrow> (Inl err, s1)
                     | Inr data \<Rightarrow> createEventHandler host cx hasService data req3 s1))))"

text \<open>The three reading routes share their middlewares.\<close>

definition reading ::
    "libs \<Rightarrow> env \<Rightarrow> ctx \<Rightarrow> bool \<Rightarrow> key_hits \<Rightarrow> (store \<Rightarrow> request \<Rightarrow> 'a response result) \<Rightarrow> request \<Rightarrow> 'a response op" where
  "reading L e cx touched hits handler req s =
     (case authenticateFlexible L e cx touched req s of
        (Inl err, s1) \<Rightarrow> (Inl err, s1)
      | (Inr req1, s1) \<Rightarrow>
          (case key_limits hits req1 of
             Inl err \<Rightarrow> (Inl err, s1)
           | Inr req2 \<Rightarrow> (handler (db s1) req2, s1)))"

definition getEvents ::
    "libs \<Rightarrow> env \<Rightarrow> (string \<Rightarrow> millis option) \<Rightarrow> ctx \<Rightarrow> bool \<Rightarrow> key_hits \<Rightarrow> request \<Rightarrow> list_events_result response op" where
  "getEvents L e host cx touched hits = reading L e cx touched hits (listEventsHandler host)"

definition getEvent :: "libs \<Rightarrow> env \<Rightarrow> ctx \<Rightarrow> bool \<Rightarrow> key_hits \<Rightarrow> request \<Rightarrow> event_detail response op" where
  "getEvent L e cx touched hits = reading L e cx touched hits (getEventHandler L e)"

definition getEventVerification ::
    "libs \<Rightarrow> env \<Rightarrow> ctx \<Rightarrow> bool \<Rightarrow> key_hits \<Rightarrow> request \<Rightarrow> verification_data response op" where
  "getEventVerification L e cx touched hits = reading L e cx touched hits getVerificationHandler"

end
