(* ===== verification/AccountRoutes.thy ===== *)
theory AccountRoutes
  imports Http Refresh PasswordReset Organisations Mfa
begin

text \<open>
  \<open>controllers/auth\<close>, \<open>controllers/organisation\<close>, \<open>controllers/api-key\<close>, \<open>controllers/invitation\<close>
  and their routes: the handlers around the account services, the cookies that carry a
  session, and who may manage the API keys of an organisation.
\<close>

section \<open>Session cookies\<close>

definition SESSION_MAX_AGE_MS :: int where "SESSION_MAX_AGE_MS = 86400 * 1000"
definition REFRESH_MAX_AGE_MS :: int where "REFRESH_MAX_AGE_MS = 604800 * 1000"

definition IS_PRODUCTION :: "env \<Rightarrow> bool" where
  "IS_PRODUCTION e \<longleftrightarrow> env_NODE_ENV e = Some ''production''"

definition session_cookies :: "bool \<Rightarrow> same_site \<Rightarrow> session \<Rightarrow> cookie list" where
  "session_cookies secure site sn =
     [\<lparr>cookie_name = ''hashira_session'', cookie_value = sessionToken sn, cookie_httpOnly = True,
       cookie_secure = secure, cookie_sameSite = site, cookie_maxAge = SESSION_MAX_AGE_MS\<rparr>,
      \<lparr>cookie_name = ''hashira_refresh'', cookie_value = refreshToken sn, cookie_httpOnly = True,
       cookie_secure = secure, cookie_sameSite = site, cookie_maxAge = REFRESH_MAX_AGE_MS\<rparr>]"

definition with_session :: "env \<Rightarrow> session \<Rightarrow> 'a response \<Rightarrow> 'a response" where
  "with_session e sn r = r\<lparr>rs_cookies := session_cookies (IS_PRODUCTION e) Strict sn\<rparr>"

text \<open>What a logged in user is told of himself.\<close>

record user_info =
  ui_user_id :: uuid
  ui_email :: string
  ui_role :: user_role

definition user_info_of :: "jwt_payload \<Rightarrow> user_info" where
  "user_info_of p = \<lparr>ui_user_id = jp_user_id p, ui_email = jp_email p, ui_role = jp_role p\<rparr>"

text \<open>Apply a function to the result of an operation.\<close>

definition map_op :: "('a \<Rightarrow> 'b) \<Rightarrow> 'a result \<times> sys \<Rightarrow> 'b result \<times> sys" where
  "map_op f rs = (map_sum id f (fst rs), snd rs)"

section \<open>Authentication handlers\<close>

definition createSessionHandler ::
    "libs \<Rightarrow> env \<Rightarrow> ctx \<Rightarrow> string \<Rightarrow> string \<Rightarrow> string option \<Rightarrow> string response op" where
  "createSessionHandler L e cx email password invitation_token s =
     map_op (\<lambda>_. respond 200 ''otp_required'') (createEmailPasswordSession L e cx email password invitation_token s)"

definition createGoogleSessionHandler ::
    "libs \<Rightarrow> env \<Rightarrow> ctx \<Rightarrow> string \<Rightarrow> string option \<Rightarrow> user_info response op" where
  "createGoogleSessionHandler L e cx google_id_token invitation_token s =
     map_op (\<lambda>(sn, user). with_session e sn (respond 200 (user_info_of user)))
       (createGoogleSession L e cx google_id_token invitation_token s)"

datatype otp_reply = OtpMfaRequired | OtpUser user_info

definition verifyOtpHandler :: "libs \<Rightarrow> env \<Rightarrow> ctx \<Rightarrow> string \<Rightarrow> string \<Rightarrow> otp_reply response op" where
  "verifyOtpHandler L e cx email otp s =
     map_op (\<lambda>result. case result of
         MfaRequired \<Rightarrow> respond 200 OtpMfaRequired
       | Authenticated sn user \<Rightarrow>
           (respond 200 (OtpUser (user_info_of user)))\<lparr>rs_cookies := session_cookies True SameSiteNone sn\<rparr>)
       (verifyOtp L e cx email otp s)"

definition resendOtpHandler :: "libs \<Rightarrow> env \<Rightarrow> ctx \<Rightarrow> string \<Rightarrow> string response op" where
  "resendOtpHandler L e cx email s = map_op (\<lambda>_. respond 200 ''otp_sent'') (resendOtp L e cx email s)"

text \<open>The answer is sent before the service runs, and does not depend on it.\<close>

definition requestPasswordResetHandler :: "libs \<Rightarrow> env \<Rightarrow> ctx \<Rightarrow> string \<Rightarrow> unit response op" where
  "requestPasswordResetHandler L e cx email s = (Inr (respond 204 ()), snd (requestReset L e cx email s))"

definition confirmPasswordResetHandler ::
    "libs \<Rightarrow> ctx \<Rightarrow> string \<Rightarrow> string \<Rightarrow> string \<Rightarrow> unit response op" where
  "confirmPasswordResetHandler L cx email otp new_password s =
     map_op (respond 204) (confirmReset L cx email otp new_password s)"

definition logoutHandler :: "libs \<Rightarrow> request \<Rightarrow> string response op" where
  "logoutHandler L req s =
     (Inr ((respond 200 ''logout successful'')\<lparr>rs_cleared := [''hashira_session'', ''hashira_refresh'']\<rparr>),
      logout L (rq_refresh_cookie req) s)"

definition refreshHandler :: "libs \<Rightarrow> env \<Rightarrow> ctx \<Rightarrow> request \<Rightarrow> bool response op" where
  "refreshHandler L e cx req s =
     (if \<not> truthy (rq_refresh_cookie req)
      then (throw (AuthError ''Refresh token missing'' ''UNAUTHORIZED''), s)
      else map_op (\<lambda>sn. with_session e sn (respond 200 True))
             (rotateRefreshToken L e cx (the (rq_refresh_cookie req)) s))"

text \<open>\<open>req.user!\<close> is no check: without a user, reading its fields throws.\<close>

definition no_user :: thrown where
  "no_user = Native ''Cannot read properties of undefined'' None"

record me =
  me_user_id :: uuid
  me_org_id :: "uuid option"
  me_email :: string
  me_role :: user_role
  me_org_name :: "string option"
  me_org_status :: "org_status option"

definition getMeHandler :: "store \<Rightarrow> request \<Rightarrow> me response result" where
  "getMeHandler d req =
     (case rq_user req of
        None \<Rightarrow> Inl no_user
      | Some u \<Rightarrow>
          let org = (if truthy (jp_org_id u) then findOrgById d (jp_org_id u) else None)
          in Inr (respond 200
               \<lparr>me_user_id = jp_user_id u, me_org_id = jp_org_id u, me_email = jp_email u, me_role = jp_role u,
                me_org_name = map_option o_name org, me_org_status = map_option o_status org\<rparr>))"

section \<open>Second factor\<close>

definition mfaSetupHandler ::
    "libs \<Rightarrow> totp_libs \<Rightarrow> env \<Rightarrow> ctx \<Rightarrow> request \<Rightarrow> mfa_setup_result response op" where
  "mfaSetupHandler L M e cx req s =
     (case rq_user req of
        None \<Rightarrow> (Inl no_user, s)
      | Some u \<Rightarrow> map_op (respond 200) (setupMfa L M e cx (jp_user_id u) s))"

definition mfaConfirmHandler ::
    "libs \<Rightarrow> totp_libs \<Rightarrow> env \<Rightarrow> ctx \<Rightarrow> string \<Rightarrow> request \<Rightarrow> bool response op" where
  "mfaConfirmHandler L M e cx totp_code req s =
     (case rq_user req of
        None \<Rightarrow> (Inl no_user, s)
      | Some u \<Rightarrow> map_op (\<lambda>_. respond 200 True) (confirmMfa L M e cx (jp_user_id u) totp_code s))"

definition mfaVerifyHandler ::
    "libs \<Rightarrow> totp_libs \<Rightarrow> env \<Rightarrow> ctx \<Rightarrow> string \<Rightarrow> string \<Rightarrow> user_info response op" where
  "mfaVerifyHandler L M e cx email totp_code s =
     map_op (\<lambda>(sn, user). with_session e sn (respond 200 (user_info_of user)))
       (verifyMfaAtLogin L M e cx email totp_code s)"

definition mfaDisableHandler ::
    "libs \<Rightarrow> totp_libs \<Rightarrow> env \<Rightarrow> ctx \<Rightarrow> string \<Rightarrow> request \<Rightarrow> bool response op" where
  "mfaDisableHandler L M e cx totp_code req s =
     (case rq_user req of
        None \<Rightarrow> (Inl no_user, s)
      | Some u \<Rightarrow> map_op (\<lambda>_. respond 200 False) (disableMfa L M e cx (jp_user_id u) totp_code s))"

section \<open>Organisations and invitations\<close>

record org_reply =
  or_org_id :: uuid
  or_org_name :: string
  or_status :: org_status
  or_stripe_checkout_url :: string
  or_created_at :: millis

definition createOrganisationHandler ::
    "libs \<Rightarrow> env \<Rightarrow> ctx \<Rightarrow> create_org_body \<Rightarrow> org_reply response op" where
  "createOrganisationHandler L e cx body s =
     map_op (\<lambda>r. with_session e (cr_session r) (respond 201
         \<lparr>or_org_id = o_org_id (cr_org r), or_org_name = o_name (cr_org r), or_status = o_status (cr_org r),
          or_stripe_checkout_url = cr_stripeCheckoutUrl r, or_created_at = o_created_at (cr_org r)\<rparr>))
       (createOrg L e cx body s)"

record invitation_reply =
  ir_org_name :: "string option"
  ir_role :: user_role
  ir_expires_at :: millis

definition DEV_INVITE_TOKEN :: string where "DEV_INVITE_TOKEN = ''1234''"

text \<open>The development answer; \<open>started\<close> is when the module was loaded.\<close>

definition DEV_INVITE_RESPONSE :: "millis \<Rightarrow> invitation_reply" where
  "DEV_INVITE_RESPONSE started =
     \<lparr>ir_org_name = Some ''Dev Test Org'', ir_role = MEMBER,
      ir_expires_at = started + 7 * 24 * 60 * 60 * 1000\<rparr>"

definition validateInvitationHandler ::
    "libs \<Rightarrow> env \<Rightarrow> millis \<Rightarrow> millis \<Rightarrow> store \<Rightarrow> request \<Rightarrow> invitation_reply response result" where
  "validateInvitationHandler L e started now d req =
     (let token = rq_query req ''token'' in
      if \<not> truthy token
      then throw (ValidationError ''token query parameter is required'' ''VALIDATION_ERROR'' None)
      else if skip_ses e \<and> token = Some DEV_INVITE_TOKEN then Inr (respond 200 (DEV_INVITE_RESPONSE started))
      else case findInvitationByTokenHash now d (hashSHA256 L (the token)) of
        None \<Rightarrow> throw (GoneError ''This invitation is invalid or has expired'' ''GONE'')
      | Some i \<Rightarrow>
          Inr (respond 200
            \<lparr>ir_org_name = map_option o_name (findOrgById d (Some (inv_org_id i))), ir_role = inv_role i,
             ir_expires_at = inv_expires_at i\<rparr>))"

section \<open>API keys\<close>

definition resolveOrgId :: "request \<Rightarrow> uuid result" where
  "resolveOrgId req =
     (case rq_user req of
        None \<Rightarrow> throw (ForbiddenError ''User is not assigned to an organisation'' ''NO_ORG'')
      | Some u \<Rightarrow>
          if truthy (jp_org_id u) then Inr (the (jp_org_id u))
          else throw (ForbiddenError ''User is not assigned to an organisation'' ''NO_ORG''))"

record create_key_body =
  kb_permissions :: "permission list"
  kb_email :: "string option"
  kb_name :: "string option"

definition createKeyHandler :: "libs \<Rightarrow> ctx \<Rightarrow> create_key_body \<Rightarrow> request \<Rightarrow> created_api_key response op" where
  "createKeyHandler L cx body req s =
     (case resolveOrgId req of
        Inl err \<Rightarrow> (Inl err, s)
      | Inr orgId \<Rightarrow>
          map_op (respond 201) (createApiKey L cx
            \<lparr>ci_org_id = orgId, ci_email = kb_email body, ci_permissions = Some (kb_permissions body),
             ci_name = kb_name body\<rparr> s))"

definition listKeysHandler :: "store \<Rightarrow> request \<Rightarrow> api_key_summary list response result" where
  "listKeysHandler d req = map_sum id (\<lambda>orgId. respond 200 (listKeys d orgId)) (resolveOrgId req)"

definition revokeKeyHandler :: "request \<Rightarrow> (uuid \<times> string) response op" where
  "revokeKeyHandler req s =
     (case resolveOrgId req of
        Inl err \<Rightarrow> (Inl err, s)
      | Inr orgId \<Rightarrow>
          let keyId = (case rq_params req ''key_id'' of None \<Rightarrow> '''' | Some i \<Rightarrow> i)
          in map_op (\<lambda>_. respond 200 (keyId, ''revoked'')) (revokeKey keyId orgId s))"

section \<open>Routes\<close>

text \<open>The middlewares in front of the three routes for API keys.\<close>

definition admin_gate :: "libs \<Rightarrow> env \<Rightarrow> millis \<Rightarrow> int \<Rightarrow> store \<Rightarrow> request \<Rightarrow> request result" where
  "admin_gate L e now hits d req =
     (case authenticate L e now d req of
        Inl err \<Rightarrow> Inl err
      | Inr req1 \<Rightarrow>
          (case authorize [ADMIN, SUPER_ADMIN] req1 of
             Inl err \<Rightarrow> Inl err
           | Inr req2 \<Rightarrow> rate_limited ipRateLimiter hits req2))"

definition postApiKeys ::
    "libs \<Rightarrow> env \<Rightarrow> ctx \<Rightarrow> int \<Rightarrow> (json \<Rightarrow> zod_issue list + create_key_body) \<Rightarrow> json \<Rightarrow> request \<Rightarrow>
     created_api_key response op" where
  "postApiKeys L e cx hits schema body req s =
     (case admin_gate L e (cx_now cx) hits (db s) req of
        Inl err \<Rightarrow> (Inl err, s)
      | Inr req1 \<Rightarrow>
          (case validateBody schema body of
             Inl err \<Rightarrow> (Inl err, s)
           | Inr data \<Rightarrow> createKeyHandler L cx data req1 s))"

definition getApiKeys :: "libs \<Rightarrow> env \<Rightarrow> ctx \<Rightarrow> int \<Rightarrow> request \<Rightarrow> api_key_summary list response op" where
  "getApiKeys L e cx hits req s =
     (case admin_gate L e (cx_now cx) hits (db s) req of
        Inl err \<Rightarrow> (Inl err, s)
      | Inr req1 \<Rightarrow> (listKeysHandler (db s) req1, s))"

definition deleteApiKey :: "libs \<Rightarrow> env \<Rightarrow> ctx \<Rightarrow> int \<Rightarrow> request \<Rightarrow> (uuid \<times> string) response op" where
  "deleteApiKey L e cx hits req s =
     (case admin_gate L e (cx_now cx) hits (db s) req of
        Inl err \<Rightarrow> (Inl err, s)
      | Inr req1 \<Rightarrow> revokeKeyHandler req1 s)"

definition getMe :: "libs \<Rightarrow> env \<Rightarrow> millis \<Rightarrow> request \<Rightarrow> me response op" where
  "getMe L e now req s =
     (case authenticate L e now (db s) req of
        Inl err \<Rightarrow> (Inl err, s)
      | Inr req1 \<Rightarrow> (getMeHandler (db s) req1, s))"

definition postLogout :: "libs \<Rightarrow> env \<Rightarrow> millis \<Rightarrow> request \<Rightarrow> string response op" where
  "postLogout L e now req s =
     (case authenticate L e now (db s) req of
        Inl err \<Rightarrow> (Inl err, s)
      | Inr req1 \<Rightarrow> logoutHandler L req1 s)"

text \<open>A public route: the limit by address, the body, the handler.\<close>

definition public_route ::
    "int \<Rightarrow> (json \<Rightarrow> zod_issue list + 'b) \<Rightarrow> json \<Rightarrow> request \<Rightarrow> ('b \<Rightarrow> 'a response op) \<Rightarrow> 'a response op" where
  "public_route hits schema body req handler s =
     (case rate_limited ipRateLimiter hits req of
        Inl err \<Rightarrow> (Inl err, s)
      | Inr _ \<Rightarrow>
          (case validateBody schema body of
             Inl err \<Rightarrow> (Inl err, s)
           | Inr data \<Rightarrow> handler data s))"

end
