(* ===== verification/System.thy ===== *)
theory System
  imports EventRoutes AccountRoutes Requests
begin

text \<open>
  The whole program: one step is an operation of the account services, an operation on API
  keys, a step of the event pipeline, or a move of the chain. The parts share the database, and each
  keeps the invariants of the others: the account services never touch an event, a key or a
  job, and events and keys never touch accounts.
\<close>

section \<open>Account services leave events and keys alone\<close>

definition leaves_keys :: "sys \<Rightarrow> sys \<Rightarrow> bool" where
  "leaves_keys s s' \<longleftrightarrow> leaves_events s s' \<and> api_keys (db s') = api_keys (db s)"

definition same_rows :: "store \<Rightarrow> store \<Rightarrow> bool" where
  "same_rows d d' \<longleftrightarrow> events d' = events d \<and> api_keys d' = api_keys d"

lemma same_rows_writes:
  "same_rows d (markOtpTokenUsed d i)" "same_rows d (incrementOtpAttempts d i)"
  "same_rows d (markRefreshTokenUsedByHash d h)" "same_rows d (applyPasswordReset d i j h)"
  "same_rows d (d\<lparr>users := us\<rparr>)" "same_rows d (spend_refresh d r)"
  by (simp_all add: same_rows_def markOtpTokenUsed_def incrementOtpAttempts_def
      markRefreshTokenUsedByHash_def applyPasswordReset_def spend_refresh_def)

lemma same_rows_inserts:
  "insertOtpToken now i d eh oh x = Inr d' \<Longrightarrow> same_rows d d'"
  "insertRefreshToken now i d u h x = Inr d' \<Longrightarrow> same_rows d d'"
  "insertPasswordResetToken now i d u h x = Inr d' \<Longrightarrow> same_rows d d'"
  "acceptInvitationAndCreateUser now i d inv0 ud = Inr (u', d') \<Longrightarrow> same_rows d d'"
  "createOrgWithAdmin now i j d input = Inr (gu, d') \<Longrightarrow> same_rows d d'"
  by (auto simp: same_rows_def insertOtpToken_def insertRefreshToken_def insertPasswordResetToken_def
      acceptInvitationAndCreateUser_def createOrgWithAdmin_def map_sum_def Let_def split: sum.splits)

lemma leaves_timers: "leaves_keys s (fire_timers now s)"
proof -
  have "same_rows d (foldl (\<lambda>d t. activateOrgById now d (snd t)) d ts)" for d and ts :: "(millis \<times> uuid) list"
    by (induction ts arbitrary: d) (simp_all add: same_rows_def activateOrgById_def)
  then show ?thesis
    by (simp add: fire_timers_def leaves_keys_def leaves_events_def same_rows_def)
qed

interpretation keys_frame: account_frame e same_rows leaves_keys
proof (unfold_locales, goal_cases)
  case (3 s1 s2 s3)
  then show ?case by (auto simp: leaves_keys_def leaves_events_def)
next
  case (9 s now)
  show ?case by (rule leaves_timers)
qed (auto simp: leaves_keys_def leaves_events_def same_rows_def schedule_activation_def restart_def
    resetConfirmAttempts_def resetFailedAttempts_def simp: same_rows_writes [unfolded same_rows_def]
    dest: same_rows_inserts [unfolded same_rows_def])

lemma account_step_leaves: "account_step L M e s s' \<Longrightarrow> leaves_keys s s'"
  by (rule keys_frame.step_frame)

section \<open>Events and keys leave accounts alone\<close>

definition same_accounts :: "store \<Rightarrow> store \<Rightarrow> bool" where
  "same_accounts d d' \<longleftrightarrow> (\<exists>evs ks. d' = d\<lparr>events := evs, api_keys := ks\<rparr>)"

lemma same_accounts_refl [simp]: "same_accounts d d"
  unfolding same_accounts_def by (rule exI [of _ "events d"], rule exI [of _ "api_keys d"]) simp

lemma same_accountsI: "same_accounts d (d\<lparr>events := evs\<rparr>)" "same_accounts d (d\<lparr>api_keys := ks\<rparr>)"
  unfolding same_accounts_def
  by (rule exI [of _ evs], rule exI [of _ "api_keys d"], simp) (rule exI [of _ "events d"], rule exI [of _ ks], simp)

lemma advances_same_accounts:
  assumes "same_accounts d d'" and "store_ok d \<Longrightarrow> unique_rows event_constraints (events d')"
    and "store_ok d \<Longrightarrow> unique_rows api_key_constraints (api_keys d')"
  shows "advances d d'"
proof -
  obtain evs ks where d': "d' = d\<lparr>events := evs, api_keys := ks\<rparr>" using assms(1) by (auto simp: same_accounts_def)
  show ?thesis
    by (rule advances_accounts) (use assms(2,3) in \<open>auto simp: d' store_inv_def store_ok_def rows_advance_refl
        members_ok_def countActiveUsersByOrg_def\<close>)
qed

lemma unique_events_update: "unique_rows event_constraints (events d) \<Longrightarrow>
    (\<And>ev. ev_event_id (f ev) = ev_event_id ev \<and> ev_org_id (f ev) = ev_org_id ev \<and>
      ev_idempotency_key (f ev) = ev_idempotency_key ev) \<Longrightarrow>
    unique_rows event_constraints (events (update_event d i g f))"
  by (auto simp: event_constraints_def intro!: unique_rows_update)

lemma advances_update_event:
  assumes "\<And>ev. ev_event_id (f ev) = ev_event_id ev \<and> ev_org_id (f ev) = ev_org_id ev \<and>
      ev_idempotency_key (f ev) = ev_idempotency_key ev"
  shows "advances d (update_event d i g f)"
proof (rule advances_same_accounts)
  show "same_accounts d (update_event d i g f)" by (simp add: update_event_def same_accountsI)
  show "unique_rows event_constraints (events (update_event d i g f))" if "store_ok d"
    using that unique_events_update [OF _ assms] by (simp add: store_ok_def)
  show "unique_rows api_key_constraints (api_keys (update_event d i g f))" if "store_ok d"
    using that by (simp add: store_ok_def update_event_def)
qed

lemma advances_create_event:
  assumes "createEvent now i d input = Inr (ev, d')"
  shows "advances d d'"
  by (rule advances_same_accounts)
    (use createEvent_SomeD(1,19) [OF assms] in \<open>auto simp: same_accountsI store_ok_def intro: insert_row_unique\<close>)

lemma advances_ingest: "advances (db s) (db (snd (ingest host cx b input s)))"
  by (auto simp: ingest_def ingest_insert_def intro: advances_create_event split: option.split sum.split)

lemma advances_process: "advances (db s) (db (snd (process_event L e host pc pe s)))"
  by (auto simp: process_event_def updateEventToAnchoring_def Let_def intro!: advances_update_event
      split: sum.splits option.splits)

lemma advances_job: "advances (db (snd ws)) (db (snd (process_job C chainId e ac ws)))"
proof (cases "queue (snd ws)")
  case (Cons job jobs)
  show ?thesis
  proof (cases rule: anchorEvent_cases [of C job e "fst ws" chainId ac "(snd ws)\<lparr>queue := jobs\<rparr>"])
    case anchored
    show ?thesis by (simp add: process_job_def Cons anchored(3) advances_update_event)
  next
    case failed
    show ?thesis by (simp add: process_job_def Cons failed advances_update_event)
  qed
qed (simp add: process_job_def)

lemma advances_pipeline:
  assumes "pipeline_step L e host C moves chainId ws ws'"
  shows "advances (db (snd ws)) (db (snd ws'))"
  using assms
proof cases
  case (step_process s xs pe ys pc w)
  then show ?thesis using advances_process [of "s\<lparr>dispatched := xs @ ys\<rparr>" L e host pc pe] by simp
qed (simp_all add: advances_ingest advances_job)

lemma advances_update_key:
  "(\<And>k. ak_key_id (f k) = ak_key_id k \<and> ak_key_hash (f k) = ak_key_hash k) \<Longrightarrow>
     advances d (d\<lparr>api_keys := update_where P f (api_keys d)\<rparr>)"
  by (rule advances_same_accounts)
    (auto simp: same_accountsI store_ok_def api_key_constraints_def intro!: unique_rows_update)

lemma advances_touch: "advances d (touchLastUsed now d i)"
  by (simp add: touchLastUsed_def advances_update_key)

lemma advances_revoke: "advances d (revokeApiKey d i g)"
  by (simp add: revokeApiKey_def advances_update_key)

lemma advances_key_row: "createApiKey_row now i d input = Inr (k, d') \<Longrightarrow> advances d d'"
  by (rule advances_same_accounts)
    (auto simp: createApiKey_row_def map_sum_def Let_def same_accountsI store_ok_def intro: insert_row_unique
      split: sum.splits)

lemma advances_keys:
  "advances (db s) (db (snd (validateApiKey L cx b key s)))"
  "advances (db s) (db (snd (createApiKey L cx input s)))"
  "advances (db s) (db (snd (revokeKey i g s)))"
  by (auto simp: validateApiKey_def createApiKey_def revokeKey_def advances_touch advances_revoke Let_def
      intro: advances_key_row split: option.split sum.split)

section \<open>Keys leave events alone, events leave keys alone\<close>

lemma keys_leave_events:
  "leaves_events s (snd (validateApiKey L cx b key s))" "leaves_events s (snd (createApiKey L cx input s))"
  "leaves_events s (snd (revokeKey i g s))"
  by (auto simp: leaves_events_def validateApiKey_def touchLastUsed_def createApiKey_def createApiKey_row_def
      revokeKey_def revokeApiKey_def map_sum_def Let_def split: option.splits sum.splits)

definition only_events :: "sys \<Rightarrow> sys \<Rightarrow> bool" where
  "only_events s s' \<longleftrightarrow> db s' = (db s)\<lparr>events := events (db s')\<rparr> \<and> timers s' = timers s"

lemma only_events_refl: "only_events s s"
  by (simp add: only_events_def)

lemma pipeline_only_events:
  assumes "pipeline_step L e host C moves chainId ws ws'"
  shows "only_events (snd ws) (snd ws')"
proof -
  have job: "only_events (snd ws) (snd (process_job C chainId e ac ws))" for ac ws
  proof (cases "queue (snd ws)")
    case (Cons job jobs)
    show ?thesis
      by (cases rule: anchorEvent_cases [of C job e "fst ws" chainId ac "(snd ws)\<lparr>queue := jobs\<rparr>"])
        (simp_all add: process_job_def Cons update_event_def only_events_def)
  qed (simp add: process_job_def only_events_def)
  have ingest: "only_events s (snd (ingest host cx b input s))" for host cx b input s
    by (auto simp: ingest_def ingest_insert_def createEvent_def map_sum_def Let_def only_events_def
        split: option.splits sum.splits)
  have process: "only_events s (snd (process_event L e host pc pe (s\<lparr>dispatched := pes\<rparr>)))" for pc pe s pes
    by (auto simp: process_event_def updateEventToAnchoring_def update_event_def Let_def only_events_def
        split: sum.splits option.splits)
  show ?thesis
    using assms by cases (simp_all only: job ingest process snd_conv only_events_refl)
qed

lemma pipeline_keys:
  assumes "pipeline_step L e host C moves chainId ws ws'"
  shows "api_keys (db (snd ws')) = api_keys (db (snd ws))"
proof -
  have "api_keys (db (snd ws')) = api_keys ((db (snd ws))\<lparr>events := events (db (snd ws'))\<rparr>)"
    using pipeline_only_events [OF assms] unfolding only_events_def by (simp only:)
  then show ?thesis by simp
qed

section \<open>Steps of the program\<close>

inductive program_step ::
    "libs \<Rightarrow> totp_libs \<Rightarrow> env \<Rightarrow> (string \<Rightarrow> millis option) \<Rightarrow> 'w chain_client \<Rightarrow> ('w \<Rightarrow> 'w \<Rightarrow> bool) \<Rightarrow> int \<Rightarrow>
     'w \<times> sys \<Rightarrow> 'w \<times> sys \<Rightarrow> bool"
  for L M e host C moves chainId
where
  prog_account: "account_step L M e s s' \<Longrightarrow> program_step L M e host C moves chainId (w, s) (w, s')"
| prog_validate: "program_step L M e host C moves chainId (w, s) (w, snd (validateApiKey L cx b key s))"
| prog_create_key: "program_step L M e host C moves chainId (w, s) (w, snd (createApiKey L cx input s))"
| prog_revoke_key: "program_step L M e host C moves chainId (w, s) (w, snd (revokeKey i g s))"
| prog_pipeline: "pipeline_step L e host C moves chainId ws ws' \<Longrightarrow>
    program_step L M e host C moves chainId ws ws'"

text \<open>How the database of the program may change.\<close>

definition program_later :: "sys \<Rightarrow> sys \<Rightarrow> bool" where
  "program_later s s' \<longleftrightarrow> advances (db s) (db s') \<and> keys_later (api_keys (db s)) (api_keys (db s')) \<and>
     events_later (events (db s)) (events (db s'))"

lemma program_later_refl [simp]: "program_later s s"
  by (simp add: program_later_def)

lemma program_later_trans: "program_later a b \<Longrightarrow> program_later b c \<Longrightarrow> program_later a c"
  unfolding program_later_def using advances_trans keys_later_trans events_later_trans by blast

definition program_inv :: "libs \<Rightarrow> env \<Rightarrow> (string \<Rightarrow> millis option) \<Rightarrow> 'w chain_view \<Rightarrow> int \<Rightarrow> 'w \<times> sys \<Rightarrow> bool" where
  "program_inv L e host V chainId ws \<longleftrightarrow>
     store_inv (db (snd ws)) \<and> pipeline_inv L e host (snd ws) \<and> chain_inv V chainId ws"

lemma leaves_chain: "leaves_events s s' \<Longrightarrow> chain_inv V chainId (w, s) \<Longrightarrow> chain_inv V chainId (w, s')"
  by (simp add: leaves_events_def chain_inv_def)

text \<open>The part of it that is about events.\<close>

definition events_inv :: "libs \<Rightarrow> env \<Rightarrow> (string \<Rightarrow> millis option) \<Rightarrow> 'w chain_view \<Rightarrow> int \<Rightarrow> 'w \<times> sys \<Rightarrow> bool" where
  "events_inv L e host V chainId ws \<longleftrightarrow> pipeline_inv L e host (snd ws) \<and> chain_inv V chainId ws"

lemma program_events_inv:
  "program_inv L e host V chainId ws \<longleftrightarrow> store_inv (db (snd ws)) \<and> events_inv L e host V chainId ws"
  by (simp add: program_inv_def events_inv_def)

lemma events_inv_leaves:
  "leaves_events s s' \<Longrightarrow> events_inv L e host V chainId (w, s) \<Longrightarrow> events_inv L e host V chainId (w, s')"
  unfolding events_inv_def using leaves_inv leaves_chain by (metis snd_conv)

lemma program_step_advances:
  assumes "program_step L M e host C moves chainId ws ws'"
  shows "advances (db (snd ws)) (db (snd ws'))"
  using assms by cases (auto intro: account_step_advances advances_keys advances_pipeline)

lemma program_step_keys:
  assumes "program_step L M e host C moves chainId ws ws'"
  shows "keys_later (api_keys (db (snd ws))) (api_keys (db (snd ws')))"
  using assms
proof cases
  case (prog_account s s' w)
  then show ?thesis using account_step_leaves [OF prog_account(3)] by (simp add: leaves_keys_def)
next
  case prog_pipeline
  then show ?thesis using pipeline_keys [OF prog_pipeline] by simp
qed (simp_all add: validate_later create_later revoke_later)

lemma program_step_event_rows:
  assumes "program_step L M e host C moves chainId ws ws'" and "pipeline_inv L e host (snd ws)"
  shows "events_later (events (db (snd ws))) (events (db (snd ws')))"
  using assms(1)
proof cases
  case (prog_account s s' w)
  then show ?thesis using account_step_leaves [OF prog_account(3)] by (simp add: leaves_keys_def leaves_events_def)
next
  case prog_pipeline
  show ?thesis by (rule step_later [OF prog_pipeline assms(2)])
qed (use keys_leave_events in \<open>simp_all add: leaves_events_def\<close>)

lemma program_step_later:
  assumes "program_step L M e host C moves chainId ws ws'" and "pipeline_inv L e host (snd ws)"
  shows "program_later (snd ws) (snd ws')"
  using program_step_advances [OF assms(1)] program_step_keys [OF assms(1)] program_step_event_rows [OF assms]
  by (simp add: program_later_def)

lemma program_step_events:
  assumes "program_step L M e host C moves chainId ws ws'" and "gcm_correct L" and "chain_law C moves V"
    and "events_inv L e host V chainId ws"
  shows "events_inv L e host V chainId ws'"
  using assms(1)
proof cases
  case (prog_account s s' w)
  then show ?thesis
    using events_inv_leaves [of s s' L e host V chainId w] account_step_leaves [OF prog_account(3)] assms(4)
    by (simp add: leaves_keys_def)
next
  case prog_pipeline
  then show ?thesis
    using step_inv [OF prog_pipeline assms(2)] step_chain_inv [OF prog_pipeline _ assms(3)] assms(4)
    by (simp add: events_inv_def)
next
  case prog_validate
  then show ?thesis using events_inv_leaves [OF keys_leave_events(1)] assms(4) by simp
next
  case prog_create_key
  then show ?thesis using events_inv_leaves [OF keys_leave_events(2)] assms(4) by simp
next
  case prog_revoke_key
  then show ?thesis using events_inv_leaves [OF keys_leave_events(3)] assms(4) by simp
qed

lemma program_step_inv:
  assumes "program_step L M e host C moves chainId ws ws'" and "gcm_correct L" and "chain_law C moves V"
    and "program_inv L e host V chainId ws"
  shows "program_inv L e host V chainId ws'"
  using program_step_events [OF assms(1-3)] advancesD(1) [OF program_step_advances [OF assms(1)]] assms(4)
  by (simp add: program_events_inv)

lemma program_steps:
  assumes "(program_step L M e host C moves chainId)\<^sup>*\<^sup>* ws ws'" and "gcm_correct L" and "chain_law C moves V"
    and "program_inv L e host V chainId ws"
  shows "program_inv L e host V chainId ws' \<and> program_later (snd ws) (snd ws')"
  using assms(1)
proof (induction rule: rtranclp_induct)
  case base
  show ?case using assms(4) by simp
next
  case (step y z)
  then have "program_inv L e host V chainId z" using program_step_inv assms(2,3) by blast
  moreover have "program_later (snd y) (snd z)"
    using program_step_later [OF step(2)] step(3) by (simp add: program_inv_def)
  ultimately show ?case using step(3) program_later_trans by blast
qed

lemma initial_program_inv: "program_inv L e host V chainId (w, initial_sys)"
  using store_inv_empty
  by (simp add: program_inv_def initial_sys_def pipeline_inv_def chain_inv_def empty_store_def unique_rows_def
      event_constraints_def)

end
