(* ===== verification/Concurrency.thy ===== *)
theory Concurrency
  imports Requests System
begin

text \<open>
  The server: any number of requests whose statements interleave with each other and with every other step of the
  program. What every interleaving keeps of the accounts is \<open>tables_later\<close>: the unique constraints, and that tokens,
  codes and invitations once spent stay spent; of events it keeps their whole invariant (\<open>events_inv\<close>) and history, of keys
  that they only move forward. The limits of users and of attempts are checked before they are used, and are not among it.
\<close>

section \<open>Rows between two statements\<close>

context one_time_tokens
begin

text \<open>A row that was read stays in the table under its identifier.\<close>

lemma row_kept:
  assumes "evolves d d'" and "ok d" and "\<And>r. key (mark r) = key r" and "row_of d h = Some r"
  shows "\<exists>r'. row_of d' h = Some r' \<and> key r' = key r"
  using assms(1,2,4)
proof (induction rule: evolves.induct)
  case (evolves_frame d d' d'')
  then show ?case by (auto simp: frame_def)
next
  case (evolves_spend d d' k r1)
  then have "ok d'" using evolves_ok by blast
  with evolves_spend show ?case by (auto simp: row_spend assms(3))
next
  case (evolves_issue d d' a k d'')
  then obtain r' where r': "row_of d' h = Some r'" "key r' = key r" by blast
  have "ok d'" using evolves_issue evolves_ok by blast
  moreover have "k \<noteq> h" using evolves_issue.hyps(2) issue_taken [OF r'(1), of a] by auto
  ultimately show ?case using evolves_issue.hyps(2) r' by (simp add: row_issue)
qed blast

end

definition accounts_later :: "sys \<Rightarrow> sys \<Rightarrow> bool" where
  "accounts_later s s' \<longleftrightarrow> tables_later (db s) (db s')"

abbreviation constraints_ok :: "sys \<Rightarrow> bool" where
  "constraints_ok s \<equiv> store_ok (db s)"

interpretation accounts: interference constraints_ok accounts_later
  by unfold_locales (auto simp: accounts_later_def intro: tables_later_trans, simp add: tables_later_def)

lemma advances_tables: "advances d d' \<Longrightarrow> tables_later d d'"
  by (simp add: advances_def)

lemma advances_later: "advances (db s) (db s') \<Longrightarrow> accounts_later s s'"
  by (simp add: advances_def accounts_later_def)

definition refresh_known :: "string \<Rightarrow> refresh_token \<Rightarrow> sys \<Rightarrow> bool" where
  "refresh_known h r s \<longleftrightarrow> (\<exists>r'. refresh_row (db s) h = Some r' \<and> rt_id r' = rt_id r)"

definition reset_known :: "string \<Rightarrow> password_reset_token \<Rightarrow> sys \<Rightarrow> bool" where
  "reset_known h t s \<longleftrightarrow> (\<exists>t'. reset_row (db s) h = Some t' \<and> prt_token_id t' = prt_token_id t)"

lemma known_later:
  assumes "constraints_ok s" and "accounts_later s s'"
  shows "refresh_known h r s \<Longrightarrow> refresh_known h r s'" "reset_known h t s \<Longrightarrow> reset_known h t s'"
proof -
  have ev: "refresh.evolves (db s) (db s')" "reset.evolves (db s) (db s')"
    using assms by (simp_all add: accounts_later_def tables_later_def)
  show "refresh_known h r s \<Longrightarrow> refresh_known h r s'"
    using refresh.row_kept [OF ev(1) assms(1), of rt_id h] by (auto simp: refresh_known_def)
  show "reset_known h t s \<Longrightarrow> reset_known h t s'"
    using reset.row_kept [OF ev(2) assms(1), of prt_token_id h] by (auto simp: reset_known_def)
qed

lemma found_known:
  assumes "constraints_ok s"
  shows "findRefreshTokenByHash now (db s) h = Some r \<Longrightarrow> refresh_known h r s"
    and "findPasswordResetToken now (db s) h = Some t \<Longrightarrow> reset_known h t s"
  using assms by (auto simp: refresh_known_def reset_known_def refresh.lookup_row reset.lookup_row
      split: option.splits if_splits)

section \<open>Writes that do not look again\<close>

lemma tables_increment: "tables_later d (incrementOtpAttempts d i)"
  by (auto simp: tables_later_def incrementOtpAttempts_def store_ok_def otp_constraints_def otp_later_def
      intro!: refresh_unchanged reset_unchanged rows_advance_update rows_advance_refl unique_rows_update)

lemma tables_accept:
  assumes "acceptInvitationAndCreateUser now i d nv ud = Inr (u, d')"
  shows "tables_later d d'"
proof -
  obtain us where us: "insert_row user_constraints u (users d) = Inr us"
    and d': "d' = d\<lparr>users := us, invitations := update_where (\<lambda>x. inv_invitation_id x = inv_invitation_id nv)
       (\<lambda>x. x\<lparr>inv_status := ACCEPTED\<rparr>) (invitations d)\<rparr>"
    using assms by (rule accept_cases)
  have ok: "store_ok d'" if "store_ok d"
    using that insert_row_unique [OF _ us]
    by (auto simp: d' store_ok_def invitation_constraints_def intro!: unique_rows_update)
  have "rows_advance invitation_later (invitations d) (invitations d')"
    by (auto simp: d' invitation_later_def intro!: rows_advance_update)
  moreover have "refresh_tokens d' = refresh_tokens d" "reset_tokens d' = reset_tokens d" "otp_tokens d' = otp_tokens d"
    by (simp_all add: d')
  ultimately show ?thesis
    using ok by (auto simp: tables_later_def rows_advance_refl intro: refresh_unchanged reset_unchanged)
qed

lemma commit_later:
  assumes "refresh_known h existing s"
  shows "accounts_later s (snd (rotate_commit L e cx (existing, user) s))"
proof -
  obtain r where r: "refresh_row (db s) h = Some r" "rt_id r = rt_id existing"
    using assms by (auto simp: refresh_known_def)
  have same: "rotate_commit L e cx (existing, user) s = rotate_commit L e cx (r, user) s"
    by (simp add: rotate_commit_def spend_refresh_def r(2))
  obtain ts where ts: "db (snd (rotate_commit L e cx (r, user) s)) = (db s)\<lparr>refresh_tokens := ts\<rparr>"
    using rotate_commit_db by blast
  have "refresh.evolves (db s) (db (snd (rotate_commit L e cx (r, user) s)))"
    by (rule rotate_commit_evolves [of s h]) (simp add: r(1))
  then have "advances (db s) (db (snd (rotate_commit L e cx (r, user) s)))"
    unfolding ts by (rule advances_refresh_only)
  then show ?thesis unfolding same by (rule advances_later)
qed

lemma apply_later:
  assumes "reset_known h t s"
  shows "accounts_later s (s\<lparr>db := applyPasswordReset (db s) i (prt_token_id t) pw\<rparr>)"
proof -
  obtain r where r: "reset_row (db s) h = Some r" "prt_token_id r = prt_token_id t"
    using assms by (auto simp: reset_known_def)
  have "advances (db s) (applyPasswordReset (db s) i (prt_token_id t) pw)"
    by (rule advances_apply_reset_at [OF r(1) r(2)])
  then show ?thesis by (intro advances_later) simp
qed

lemma ingest_insert_later: "accounts_later s (snd (ingest_insert host cx b input s))"
proof -
  have "advances d d'" if "createEvent now i d input = Inr (ev, d')" for now i d input ev d'
    using advances_create_event [OF that] .
  then show ?thesis
    by (intro advances_later) (auto simp: ingest_insert_def split: option.split sum.split)
qed

section \<open>Every request is safe\<close>

abbreviation harmless :: "'a async \<Rightarrow> sys \<Rightarrow> bool" where
  "harmless \<equiv> safe accounts_later"

lemma harmless_query: "harmless (query q) s"
  by (rule accounts.guarded_query) simp

lemma harmless_atomic: "(\<And>s. accounts_later s (snd (f s))) \<Longrightarrow> harmless (atomic f) s"
  by (rule accounts.guarded_atomic) simp_all

lemma harmless_change: "(\<And>s. accounts_later s (f s)) \<Longrightarrow> harmless (change f) s"
  unfolding change_def by (rule harmless_atomic) simp

lemma harmless_write: "(\<And>d a d'. w d = Inr (a, d') \<Longrightarrow> tables_later d d') \<Longrightarrow> harmless (write_db w) s"
  unfolding write_db_def by (rule harmless_atomic) (auto simp: accounts_later_def split: sum.split)

lemma harmless_then:
  "harmless p s \<Longrightarrow> (\<And>a s'. accounts_later s s' \<Longrightarrow> harmless (k a) s') \<Longrightarrow> harmless (then_do p k) s"
  by (rule accounts.guarded_then)

lemma harmless_option:
  "(x = None \<Longrightarrow> harmless p s) \<Longrightarrow> (\<And>a. x = Some a \<Longrightarrow> harmless (q a) s) \<Longrightarrow> harmless (case x of None \<Rightarrow> p | Some a \<Rightarrow> q a) s"
  by (cases x) simp_all

lemma harmless_if: "(b \<Longrightarrow> harmless p s) \<Longrightarrow> (\<not> b \<Longrightarrow> harmless q s) \<Longrightarrow> harmless (if b then p else q) s"
  by simp

lemma harmless_Return: "harmless (Return r) s"
  by (rule guarded_Return) simp

lemma later_maps [simp]:
  "accounts_later s (s\<lparr>emailFailedAttempts := m\<rparr>)" "accounts_later s (s\<lparr>confirmFailedAttempts := m\<rparr>)"
  "accounts_later s (s\<lparr>outbox := b\<rparr>)" "accounts_later s (schedule_activation e cx i s)" "accounts_later s s"
  by (simp_all add: accounts_later_def)

lemmas harmless_steps = harmless_query harmless_Return harmless_option harmless_if harmless_then

lemma harmless_issue_otp: "harmless (issue_otp_async L e cx i email) s"
  unfolding issue_otp_async_def Let_def
  by (intro harmless_then harmless_write harmless_atomic)
    (auto dest!: unit_write_Inr intro!: advances_tables advances_insert_otp simp: sendOtpEmail_def split: option.split)

lemma harmless_issue_session: "harmless (issue_session_async L e cx i u p) s"
  unfolding issue_session_async_def Let_def
  by (intro harmless_steps harmless_write) (auto dest!: unit_write_Inr intro!: advances_tables advances_insert_refresh)

lemma harmless_gate: "harmless (gate_async L cx t) s"
  unfolding gate_async_def by (intro harmless_steps)

lemma harmless_accept: "harmless (write_db (\<lambda>d. acceptInvitationAndCreateUser now i d nv ud)) s"
  by (rule harmless_write) (rule tables_accept)

lemma harmless_session: "harmless (session_async L e cx email pw t) s"
  unfolding session_async_def register_async_def login_async_def compare_async_def Let_def
  by (intro harmless_steps harmless_gate harmless_accept harmless_issue_otp harmless_change harmless_atomic)
    (simp_all add: admit_login_def split: sum.split)

lemma harmless_google: "harmless (google_async L e cx tok t) s"
  unfolding google_async_def google_user_async_def google_register_async_def google_session_async_def
  by (intro harmless_steps harmless_gate harmless_accept harmless_issue_session harmless_write)
    (auto dest!: unit_write_Inr intro!: advances_tables advances_google_sub)

lemma harmless_verifyOtp: "harmless (verifyOtp_async L e cx email otp) s"
  unfolding verifyOtp_async_def otp_session_async_def
  by (intro harmless_steps harmless_issue_session harmless_change)
    (auto split: sum.split intro!: harmless_steps harmless_issue_session harmless_change
      simp: accounts_later_def tables_increment advances_mark_otp advances_tables)

lemma harmless_resendOtp: "harmless (resendOtp_async L e cx email) s"
  unfolding resendOtp_async_def
  by (intro harmless_steps harmless_issue_otp harmless_change)
    (simp add: accounts_later_def advances_mark_otp advances_tables)

lemma harmless_requestReset: "harmless (requestReset_async L e cx email) s"
  unfolding requestReset_async_def Let_def
  by (intro harmless_steps harmless_write harmless_atomic)
    (auto dest!: unit_write_Inr intro!: advances_tables advances_insert_reset simp: sendPasswordResetEmail_def
      split: option.split)

text \<open>A request may rely on a row it has read, because the row is stable.\<close>

lemma harmless_rely:
  assumes "constraints_ok s" and "P s"
    and "\<And>s s'. constraints_ok s \<Longrightarrow> accounts_later s s' \<Longrightarrow> P s \<Longrightarrow> P s'" and "\<And>s. P s \<Longrightarrow> accounts_later s (snd (f s))"
  shows "harmless (atomic f) s"
  by (rule accounts.guarded_atomic) (use assms in blast)+

lemma harmless_read:
  assumes "constraints_ok s" and "\<And>s. constraints_ok s \<Longrightarrow> P (q (db s)) s"
    and "\<And>a s s'. constraints_ok s \<Longrightarrow> accounts_later s s' \<Longrightarrow> P a s \<Longrightarrow> P a s'"
    and "\<And>a s. constraints_ok s \<Longrightarrow> P a s \<Longrightarrow> harmless (k a) s"
  shows "harmless (then_do (query q) k) s"
proof (rule accounts.guarded_then)
  show "guarded accounts_later P (query q) s"
    by (rule accounts.guarded_query) (use assms(1-3) accounts.R_inv in blast)
  show "harmless (k a) s'" if "accounts_later s s'" "P a s'" for a s'
    using that assms(1,4) accounts.R_inv by blast
qed

lemma harmless_find_reset:
  assumes "constraints_ok s" and "\<And>s. harmless (k None) s"
    and "\<And>t s. constraints_ok s \<Longrightarrow> reset_known h t s \<Longrightarrow> harmless (k (Some t)) s"
  shows "harmless (then_do (query (\<lambda>d. findPasswordResetToken now d h)) k) s"
  by (rule harmless_read [where P = "\<lambda>a s. \<forall>t. a = Some t \<longrightarrow> reset_known h t s"])
    (use assms(1) found_known(2) known_later(2) in blast, use found_known(2) in blast, use known_later(2) in blast,
      use assms(2,3) in \<open>metis option.exhaust\<close>)

lemma harmless_find_refresh:
  assumes "constraints_ok s" and "\<And>s. harmless (k None) s"
    and "\<And>r s. constraints_ok s \<Longrightarrow> refresh_known h r s \<Longrightarrow> harmless (k (Some r)) s"
  shows "harmless (then_do (query (\<lambda>d. findRefreshTokenByHash now d h)) k) s"
  by (rule harmless_read [where P = "\<lambda>a s. \<forall>r. a = Some r \<longrightarrow> refresh_known h r s"])
    (use assms(1) found_known(1) known_later(1) in blast, use found_known(1) in blast, use known_later(1) in blast,
      use assms(2,3) in \<open>metis option.exhaust\<close>)

lemma harmless_apply:
  assumes "constraints_ok s" and "reset_known h t s"
  shows "harmless (apply_async L cx email pw t) s"
  unfolding apply_async_def change_def
  by (intro harmless_steps harmless_rely [where P = "reset_known h t"])
    (use assms known_later(2) accounts.R_inv in \<open>auto intro!: apply_later\<close>)

lemma harmless_confirmReset:
  assumes "constraints_ok s"
  shows "harmless (confirmReset_async L cx email otp pw) s"
  unfolding confirmReset_async_def Let_def
proof (rule harmless_then)
  show "harmless (atomic (admit_reset cx (toLowerCase email))) s"
    by (rule harmless_atomic) (simp add: admit_reset_def split: sum.split)
qed (rule harmless_find_reset, use assms accounts.R_inv in blast,
  auto intro!: harmless_then harmless_change harmless_Return intro: harmless_apply known_later(2) accounts.R_inv)

lemma harmless_rotate:
  assumes "constraints_ok s"
  shows "harmless (rotate_async L e cx raw) s"
  unfolding rotate_async_def
proof (rule harmless_find_refresh [OF assms, of _ "hashSHA256 L raw"])
  fix r s' assume ok: "constraints_ok s'" and known: "refresh_known (hashSHA256 L raw) r s'"
  have "harmless (atomic (rotate_commit L e cx (r, user))) s''" if "accounts_later s' s''" for user s''
    by (rule harmless_rely [where P = "refresh_known (hashSHA256 L raw) r"])
      (use that ok known known_later(1) accounts.R_inv in \<open>auto intro: commit_later\<close>)
  then show "harmless (case Some r of
         None \<Rightarrow> fail_with (AuthError ''Refresh token is missing, expired, or already used'' ''UNAUTHORIZED'')
       | Some existing \<Rightarrow>
           then_do (query (\<lambda>d. findUserById d (rt_user_id existing))) (\<lambda>found.
             case found of
               None \<Rightarrow> fail_with (AuthError ''User not found'' ''UNAUTHORIZED'')
             | Some user \<Rightarrow> atomic (rotate_commit L e cx (existing, user)))) s'"
    by (simp, intro harmless_steps)
qed (simp add: harmless_Return)

lemma harmless_createOrg: "harmless (createOrg_async L e cx body) s"
  unfolding createOrg_async_def Let_def case_prod_beta
  by (intro harmless_steps harmless_issue_session harmless_change harmless_write)
    (auto intro: advances_tables advances_create_org)

lemma harmless_ingest: "harmless (ingest_async host cx b input) s"
  unfolding ingest_async_def by (intro harmless_steps harmless_atomic ingest_insert_later)

lemma harmless_validateKey: "harmless (validateKey_async L cx touched key) s"
  unfolding validateKey_async_def Let_def
  by (intro harmless_steps harmless_change) (simp add: accounts_later_def advances_tables advances_touch)

lemma harmless_createKey: "harmless (createKey_async L cx input) s"
  unfolding createKey_async_def key_owner_async_def Let_def
  by (intro harmless_steps harmless_write) (rule advances_tables, rule advances_key_row)

lemma harmless_revokeKey: "harmless (revokeKey_async i g) s"
  unfolding revokeKey_async_def
  by (intro harmless_steps harmless_change) (simp add: accounts_later_def advances_tables advances_revoke)

lemma harmless_logout: "harmless (change (logout L cookie)) s"
  by (rule harmless_change) (rule advances_later [OF advances_logout])

section \<open>The server\<close>

datatype answer =
    Done
  | NewSession session
  | GoogleSession session jwt_payload
  | OtpAnswer otp_verify_result
  | OrgAnswer create_org_result
  | IngestAnswer ingest_result
  | KeyAnswer validated_api_key
  | KeyCreated created_api_key

text \<open>A call of a service, with what the world answers while it runs.\<close>

datatype call =
    CreateSession ctx string string "string option"
  | CreateGoogleSession ctx string "string option"
  | VerifyOtp ctx string string
  | ResendOtp ctx string
  | RequestReset ctx string
  | ConfirmReset ctx string string string
  | RotateRefresh ctx string
  | LogOut "string option"
  | CreateOrg ctx create_org_body
  | IngestEvent ctx bool ingest_input
  | ValidateKey ctx bool string
  | CreateKey ctx create_api_key_input
  | RevokeKey uuid uuid

definition answering :: "('a \<Rightarrow> answer) \<Rightarrow> 'a async \<Rightarrow> answer async" where
  "answering f p = then_do p (\<lambda>a. give (f a))"

fun serve_call :: "libs \<Rightarrow> env \<Rightarrow> (string \<Rightarrow> millis option) \<Rightarrow> call \<Rightarrow> answer async" where
  "serve_call L e host (CreateSession cx email pw t) = answering (\<lambda>_. Done) (session_async L e cx email pw t)"
| "serve_call L e host (CreateGoogleSession cx tok t) = answering (case_prod GoogleSession) (google_async L e cx tok t)"
| "serve_call L e host (VerifyOtp cx email otp) = answering OtpAnswer (verifyOtp_async L e cx email otp)"
| "serve_call L e host (ResendOtp cx email) = answering (\<lambda>_. Done) (resendOtp_async L e cx email)"
| "serve_call L e host (RequestReset cx email) = answering (\<lambda>_. Done) (requestReset_async L e cx email)"
| "serve_call L e host (ConfirmReset cx email otp pw) = answering (\<lambda>_. Done) (confirmReset_async L cx email otp pw)"
| "serve_call L e host (RotateRefresh cx raw) = answering NewSession (rotate_async L e cx raw)"
| "serve_call L e host (LogOut cookie) = answering (\<lambda>_. Done) (change (logout L cookie))"
| "serve_call L e host (CreateOrg cx body) = answering OrgAnswer (createOrg_async L e cx body)"
| "serve_call L e host (IngestEvent cx b input) = answering IngestAnswer (ingest_async host cx b input)"
| "serve_call L e host (ValidateKey cx b key) = answering KeyAnswer (validateKey_async L cx b key)"
| "serve_call L e host (CreateKey cx input) = answering KeyCreated (createKey_async L cx input)"
| "serve_call L e host (RevokeKey i g) = answering (\<lambda>_. Done) (revokeKey_async i g)"

text \<open>The same call as one operation.\<close>

fun call_op :: "libs \<Rightarrow> env \<Rightarrow> (string \<Rightarrow> millis option) \<Rightarrow> call \<Rightarrow> answer op" where
  "call_op L e host (CreateSession cx email pw t) s = map_op (\<lambda>_. Done) (createEmailPasswordSession L e cx email pw t s)"
| "call_op L e host (CreateGoogleSession cx tok t) s = map_op (case_prod GoogleSession) (createGoogleSession L e cx tok t s)"
| "call_op L e host (VerifyOtp cx email otp) s = map_op OtpAnswer (verifyOtp L e cx email otp s)"
| "call_op L e host (ResendOtp cx email) s = map_op (\<lambda>_. Done) (resendOtp L e cx email s)"
| "call_op L e host (RequestReset cx email) s = map_op (\<lambda>_. Done) (requestReset L e cx email s)"
| "call_op L e host (ConfirmReset cx email otp pw) s = map_op (\<lambda>_. Done) (confirmReset L cx email otp pw s)"
| "call_op L e host (RotateRefresh cx raw) s = map_op NewSession (rotateRefreshToken L e cx raw s)"
| "call_op L e host (LogOut cookie) s = (Inr Done, logout L cookie s)"
| "call_op L e host (CreateOrg cx body) s = map_op OrgAnswer (createOrg L e cx body s)"
| "call_op L e host (IngestEvent cx b input) s = map_op IngestAnswer (ingest host cx b input s)"
| "call_op L e host (ValidateKey cx b key) s = map_op KeyAnswer (validateApiKey L cx b key s)"
| "call_op L e host (CreateKey cx input) s = map_op KeyCreated (createApiKey L cx input s)"
| "call_op L e host (RevokeKey i g) s = map_op (\<lambda>_. Done) (revokeKey i g s)"

text \<open>
  The server: calls arrive and have their turns; between them anything else of the program happens, whatever the
  chain is like; the process restarts.
\<close>

definition serves ::
    "libs \<Rightarrow> totp_libs \<Rightarrow> env \<Rightarrow> (string \<Rightarrow> millis option) \<Rightarrow> 'w chain_client \<Rightarrow> ('w \<Rightarrow> 'w \<Rightarrow> bool) \<Rightarrow> int \<Rightarrow>
     answer async list \<times> 'w \<times> sys \<Rightarrow> answer async list \<times> 'w \<times> sys \<Rightarrow> bool" where
  "serves L M e host C moves chainId =
     serving (\<lambda>p. \<exists>c. p = serve_call L e host c) (program_step L M e host C moves chainId) restart"

text \<open>A server on which no request waits, with an empty database.\<close>

abbreviation idle_server :: "'w \<Rightarrow> answer async list \<times> 'w \<times> sys" where
  "idle_server w \<equiv> ([], w, initial_sys)"

lemma serves_program: "(program_step L M e host C moves chainId)\<^sup>*\<^sup>* ws ws' \<Longrightarrow>
    (serves L M e host C moves chainId)\<^sup>*\<^sup>* (ps, ws) (ps, ws')"
proof (induction rule: rtranclp_induct)
  case (step y z)
  have "serves L M e host C moves chainId (ps, y) (ps, z)"
    using step(2) unfolding serves_def by (cases y, cases z) (auto intro: serve_outside)
  with step(3) show ?case by (rule rtranclp.rtrancl_into_rtrancl)
qed simp

lemma serves_turns:
  "turn\<^sup>*\<^sup>* (ps, s) (ps', s') \<Longrightarrow> (serves L M e host C moves chainId)\<^sup>*\<^sup>* (ps, w, s) (ps', w, s')"
proof (induction rule: rtranclp_induct2)
  case (step ps1 s1 ps2 s2)
  then show ?case unfolding serves_def by (meson rtranclp.rtrancl_into_rtrancl serve_turn)
qed simp

lemma run_answering: "run_async (answering f p) s = map_op f (run_async p s)"
  by (simp add: answering_def map_op_def split: prod.split sum.split)

lemma run_call: "run_async (serve_call L e host c) s = call_op L e host c s"
  by (cases c) (simp_all add: run_answering run_session run_google run_verifyOtp run_resendOtp run_requestReset
      run_confirmReset run_rotate run_createOrg run_ingest run_validateKey run_createKey run_revokeKey map_op_def)

lemma harmless_answering: "harmless p s \<Longrightarrow> harmless (answering f p) s"
  unfolding answering_def by (intro harmless_then harmless_Return)

lemma harmless_call: "constraints_ok s \<Longrightarrow> harmless (serve_call L e host c) s"
  by (cases c) (simp_all add: harmless_answering harmless_session harmless_google harmless_verifyOtp harmless_resendOtp
      harmless_requestReset harmless_confirmReset harmless_rotate harmless_logout harmless_createOrg harmless_ingest
      harmless_validateKey harmless_createKey harmless_revokeKey)

text \<open>A call that arrives and is not interrupted.\<close>

lemma serves_alone:
  "(serves L M e host C moves chainId)\<^sup>*\<^sup>* (ps, w, s)
     (ps @ [Return (fst (call_op L e host c s))], w, snd (call_op L e host c s))"
proof -
  have "serves L M e host C moves chainId (ps, w, s) (ps @ [serve_call L e host c], w, s)"
    unfolding serves_def by (rule serve_arrival) blast
  moreover have "(serves L M e host C moves chainId)\<^sup>*\<^sup>* (ps @ [serve_call L e host c], w, s)
      (ps @ [Return (fst (call_op L e host c s))], w, snd (call_op L e host c s))"
    using serves_turns [OF run_turns [of ps "serve_call L e host c" s]] by (simp add: run_call)
  ultimately show ?thesis by (rule converse_rtranclp_into_rtranclp)
qed

section \<open>The tables of tokens, codes and invitations\<close>

lemma program_step_tables:
  assumes "program_step L M e host C moves chainId (w, s) (w', s')"
  shows "accounts_later s s'"
  using assms
  by cases (auto intro: advances_later account_step_advances advances_keys dest!: advances_pipeline)

lemma serves_later:
  assumes "(serves L M e host C moves chainId)\<^sup>*\<^sup>* (ps, w, s) (ps', w', s')" and "\<forall>p \<in> set ps. harmless p s"
    and "constraints_ok s"
  shows "accounts_later s s' \<and> (\<forall>p \<in> set ps'. harmless p s')"
  using assms(1) unfolding serves_def
  by (rule accounts.serving_steps) (use assms(2,3) program_step_tables in \<open>auto intro: harmless_call simp: accounts_later_def\<close>)

section \<open>Events\<close>

text \<open>A statement of a call leaves events alone and moves keys forward, or inserts an event.\<close>

definition statement :: "(string \<Rightarrow> millis option) \<Rightarrow> sys \<Rightarrow> sys \<Rightarrow> bool" where
  "statement host s s' \<longleftrightarrow> key_statement s s' \<or> (\<exists>cx b input. s' = snd (ingest_insert host cx b input s))"

lemma leaves_key_statement: "leaves_keys s s' \<Longrightarrow> key_statement s s'"
  by (simp add: leaves_keys_def key_statement_def)

lemma each_answering: "each Q p \<Longrightarrow> each Q (answering f p)"
  unfolding answering_def by (intro each_then each_Return)

lemma each_ingest: "each (statement host) (ingest_async host cx b input)"
  unfolding ingest_async_def
  by (intro each_steps each_atomic each_mono [OF keys_frame.each_query]) (auto simp: statement_def leaves_key_statement)

lemma each_account: "each leaves_keys p \<Longrightarrow> each (statement host) (answering f p)"
  by (rule each_answering) (erule each_mono, simp add: statement_def leaves_key_statement)

lemma each_key: "each key_statement p \<Longrightarrow> each (statement host) (answering f p)"
  by (rule each_answering) (erule each_mono, simp add: statement_def)

lemma each_call: "each (statement host) (serve_call L e host c)"
  by (cases c) (simp_all add: each_answering each_account each_ingest keys_frame.each_session keys_frame.each_google
      keys_frame.each_verifyOtp keys_frame.each_resendOtp keys_frame.each_requestReset keys_frame.each_confirmReset
      keys_frame.each_rotate keys_frame.each_logout keys_frame.each_createOrg each_key each_validateKey
      each_createKey each_revokeKey)

text \<open>A server whose waiting requests are made of such statements takes such steps, and steps of the program.\<close>

definition calls_wait :: "(string \<Rightarrow> millis option) \<Rightarrow> answer async list \<Rightarrow> bool" where
  "calls_wait host ps \<longleftrightarrow> (\<forall>p \<in> set ps. each (statement host) p)"

lemma calls_wait_Nil [simp]: "calls_wait host []"
  by (simp add: calls_wait_def)

lemma quiet_statement: "statement host s s" "statement host s (restart s)"
  by (simp_all add: statement_def leaves_key_statement keys_frame.frame_restart)

lemma serves_step:
  assumes "serves L M e host C moves chainId (ps, ws) (ps', ws')" and "calls_wait host ps"
  shows "calls_wait host ps'"
    and "program_step L M e host C moves chainId ws ws' \<or> fst ws' = fst ws \<and> statement host (snd ws) (snd ws')"
  using assms(1) unfolding serves_def
proof (atomize (full), cases)
  case (serve_arrival p w s)
  then show "calls_wait host ps' \<and> (program_step L M e host C moves chainId ws ws' \<or>
      fst ws' = fst ws \<and> statement host (snd ws) (snd ws'))"
    using assms(2) each_call quiet_statement by (auto simp: calls_wait_def)
next
  case (serve_turn s s' w)
  then show "calls_wait host ps' \<and> (program_step L M e host C moves chainId ws ws' \<or>
      fst ws' = fst ws \<and> statement host (snd ws) (snd ws'))"
    using each_turn [OF serve_turn(3), of "statement host"] assms(2) by (simp add: calls_wait_def)
next
  case serve_outside
  then show "calls_wait host ps' \<and> (program_step L M e host C moves chainId ws ws' \<or>
      fst ws' = fst ws \<and> statement host (snd ws) (snd ws'))"
    using assms(2) by simp
next
  case serve_restart
  then show "calls_wait host ps' \<and> (program_step L M e host C moves chainId ws ws' \<or>
      fst ws' = fst ws \<and> statement host (snd ws) (snd ws'))"
    using quiet_statement by simp
qed

lemma statement_events:
  "statement host s s' \<Longrightarrow> events_inv L e host V chainId (w, s) \<Longrightarrow> events_inv L e host V chainId (w, s')"
  using events_inv_leaves inv_ingest_insert insert_keeps_anchored
  by (fastforce simp: statement_def key_statement_def events_inv_def chain_inv_def)

lemma statement_later: "statement host s s' \<Longrightarrow> events_later (events (db s)) (events (db s'))"
  by (auto simp: statement_def key_statement_def leaves_events_def later_insert)

lemma serves_step_events:
  assumes "serves L M e host C moves chainId (ps, ws) (ps', ws')" and "calls_wait host ps"
    and "gcm_correct L" and "chain_law C moves V" and "events_inv L e host V chainId ws"
  shows "events_inv L e host V chainId ws'" and "events_later (events (db (snd ws))) (events (db (snd ws')))"
  using serves_step(2) [OF assms(1,2)]
proof (atomize (full), elim disjE conjE)
  assume step: "program_step L M e host C moves chainId ws ws'"
  have "pipeline_inv L e host (snd ws)" using assms(5) by (simp add: events_inv_def)
  then show "events_inv L e host V chainId ws' \<and> events_later (events (db (snd ws))) (events (db (snd ws')))"
    using program_step_events [OF step assms(3-5)] program_step_event_rows [OF step] by blast
next
  assume "fst ws' = fst ws" "statement host (snd ws) (snd ws')"
  then show "events_inv L e host V chainId ws' \<and> events_later (events (db (snd ws))) (events (db (snd ws')))"
    using statement_events [of host "snd ws" "snd ws'" L e V chainId "fst ws"] statement_later assms(5)
    by (metis prod.collapse)
qed

lemma serves_events:
  assumes "(serves L M e host C moves chainId)\<^sup>*\<^sup>* (ps, ws) (ps', ws')" and "calls_wait host ps"
    and "gcm_correct L" and "chain_law C moves V" and "events_inv L e host V chainId ws"
  shows "calls_wait host ps'" and "events_inv L e host V chainId ws'"
    and "events_later (events (db (snd ws))) (events (db (snd ws')))"
proof -
  have "calls_wait host ps' \<and> events_inv L e host V chainId ws' \<and>
      events_later (events (db (snd ws))) (events (db (snd ws')))"
    using assms(1)
  proof (induction rule: rtranclp_induct2)
    case (step ps1 ws1 ps2 ws2)
    then show ?case
      using serves_step(1) [OF step(2)] serves_step_events [OF step(2) _ assms(3,4)] events_later_trans by blast
  qed (use assms in simp)
  then show "calls_wait host ps'" "events_inv L e host V chainId ws'"
    "events_later (events (db (snd ws))) (events (db (snd ws')))" by blast+
qed

section \<open>Keys\<close>

lemma statement_keys: "statement host s s' \<Longrightarrow> keys_later (api_keys (db s)) (api_keys (db s'))"
  by (auto simp: statement_def key_statement_def ingest_insert_def dest!: createEvent_SomeD(1) split: option.split sum.split)

lemma serves_keys:
  assumes "(serves L M e host C moves chainId)\<^sup>*\<^sup>* (ps, ws) (ps', ws')" and "calls_wait host ps"
  shows "calls_wait host ps' \<and> keys_later (api_keys (db (snd ws))) (api_keys (db (snd ws')))"
  using assms(1)
proof (induction rule: rtranclp_induct2)
  case (step ps1 ws1 ps2 ws2)
  then have "keys_later (api_keys (db (snd ws1))) (api_keys (db (snd ws2)))"
    using serves_step(2) [OF step(2)] program_step_keys statement_keys by fastforce
  then show ?case using step serves_step(1) [OF step(2)] keys_later_trans by blast
qed (use assms(2) in simp)

section \<open>Accounts between two requests of interest\<close>

lemma served_ok:
  assumes "store_ok (db s0)" and "(serves L M e host C moves chainId)\<^sup>*\<^sup>* ([], w0, s0) (ps, w, s)"
  shows "store_ok (db s)" and "\<forall>p \<in> set ps. harmless p s" and "calls_wait host ps"
  using serves_later [OF assms(2) _ assms(1)] accounts.R_inv [OF assms(1)] serves_keys [OF assms(2)] by simp_all

lemma served_on:
  assumes "store_ok (db s)" and "\<forall>p \<in> set ps. harmless p s" and "accounts_later s s1"
    and "(serves L M e host C moves chainId)\<^sup>*\<^sup>* (ps, w, s1) (ps', w', s2)"
  shows "store_ok (db s1)" and "store_ok (db s2)" and "tables_later (db s1) (db s2)"
proof -
  show ok: "store_ok (db s1)" using accounts.R_inv assms(1,3) by blast
  have "\<forall>p \<in> set ps. harmless p s1" using assms(2) accounts.guarded_later [OF _ assms(3)] by blast
  then have "accounts_later s1 s2" using serves_later [OF assms(4) _ ok] by blast
  then show "store_ok (db s2)" "tables_later (db s1) (db s2)"
    using accounts.R_inv ok by (blast, simp add: accounts_later_def)
qed

lemma idle_server_inv: "events_inv L e host V chainId (w, initial_sys)"
  using initial_program_inv [of L e host V chainId w] by (simp add: program_events_inv)

end
