(* ===== verification/Demo.thy ===== *)
theory Demo
  imports Accounts
begin

text \<open>
  Concrete inputs for the witnesses: the stand-in library functions of \<open>Libs\<close>, a development
  environment, and the states a short run of the program goes through.
\<close>

definition demo_env :: env where
  "demo_env =
     \<lparr>env_SKIP_SES = Some ''true'', env_NODE_ENV = Some ''test'', env_JWT_SECRET = ''secret'',
      env_EVENT_ENCRYPTION_KEY = Some (replicate 43 CHR ''A'' @ ''=''), env_TOTP_ENCRYPTION_KEY = None,
      env_ANCHOR_MAX_RETRIES = None, env_KMS_SIGNING_KEY_ID = None, env_FRONTEND_URL = None\<rparr>"

definition demo_libs :: libs where
  "demo_libs = toy_libs\<lparr>sha256 := take 16\<rparr>"

definition demo_ctx :: "nat \<Rightarrow> millis \<Rightarrow> ctx" where
  "demo_ctx n t =
     \<lparr>cx_now = t, cx_id = (\<lambda>k. [digit_char n, CHR ''-'', digit_char k]), cx_randomInt = 100000,
      cx_bytes = [of_nat n], cx_iv = replicate 12 (of_nat n), cx_salt = [], cx_mail = None,
      cx_google = (\<lambda>t. None), cx_checkout = Inr None\<rparr>"

definition demo_body :: create_org_body where
  "demo_body =
     \<lparr>cb_org_name = ''acme'', cb_admin_email = Some ''a@x.io'', cb_password = Some ''password'',
      cb_google_id_token = None\<rparr>"

text \<open>One organisation with its administrator, signed up at time 0.\<close>

definition demo_sys :: sys where
  "demo_sys = snd (createOrg demo_libs demo_env (demo_ctx 1 0) demo_body initial_sys)"

definition demo_raw :: string where
  "demo_raw = generateRefreshToken [1]"

lemma demo_reachable: "(account_step demo_libs M demo_env)\<^sup>*\<^sup>* initial_sys demo_sys"
  unfolding demo_sys_def by (rule r_into_rtranclp) (rule step_createOrg)

lemma demo_inv: "store_inv (db demo_sys)"
  using account_steps_advance [OF demo_reachable] store_inv_empty advancesD(1) by (fastforce simp: initial_sys_def)

definition demo_session :: session where
  "demo_session =
     (case rotateRefreshToken demo_libs demo_env (demo_ctx 2 1) demo_raw demo_sys of
        (Inr sn, _) \<Rightarrow> sn | (Inl _, _) \<Rightarrow> \<lparr>sessionToken = [], refreshToken = []\<rparr>)"

definition demo_sys2 :: sys where
  "demo_sys2 = snd (rotateRefreshToken demo_libs demo_env (demo_ctx 2 1) demo_raw demo_sys)"

text \<open>The administrator logs in with the password, and then with the code that was mailed.\<close>

definition demo_login :: sys where
  "demo_login =
     snd (createEmailPasswordSession demo_libs demo_env (demo_ctx 2 1) ''a@x.io'' ''password'' None demo_sys)"

definition demo_verified :: "otp_verify_result result \<times> sys" where
  "demo_verified = verifyOtp demo_libs demo_env (demo_ctx 3 2) ''a@x.io'' ''123456'' demo_login"

definition demo_user :: user where
  "demo_user = (case findUserByEmail (db demo_sys) ''a@x.io'' of Some u \<Rightarrow> u | None \<Rightarrow> undefined)"

definition demo_token :: otp_token where
  "demo_token = (case findLatestOtpToken 2 (db demo_login) (hashSHA256 demo_libs ''a@x.io'') of
     Some t \<Rightarrow> t | None \<Rightarrow> undefined)"

lemma demo_login_inv: "store_inv (db demo_login)"
  unfolding demo_login_def by (rule advancesD(1) [OF advances_createSession demo_inv])

end
