(* ===== verification/EventDemo.thy ===== *)
theory EventDemo
  imports Concurrency Demo
begin

text \<open>
  Concrete inputs for the witnesses about events, API keys and the chain: a chain that mines at once, and
  the states of a run that signs an organisation up, creates a key, ingests an event and anchors it.
\<close>

section \<open>A chain\<close>

type_synonym toy_chain = "(string \<times> string \<times> string) list"

definition toy_receipt :: tx_receipt where
  "toy_receipt = \<lparr>rc_blockNumber = 7, rc_reverted = False\<rparr>"

definition toy_client :: "toy_chain chain_client" where
  "toy_client =
     \<lparr>cc_writeContract = (\<lambda>h i w. (Inr (''0xt'' @ h), w @ [(''0xt'' @ h, h, i)])),
      cc_waitForReceipt = (\<lambda>tx w.
        if list_ex (\<lambda>t. fst t = tx) w then (Inr toy_receipt, w) else (Inl (Native ''unknown'' None), w))\<rparr>"

definition toy_view :: "toy_chain chain_view" where
  "toy_view =
     \<lparr>cv_submitted = (\<lambda>w tx h i. (tx, h, i) \<in> set w),
      cv_mined = (\<lambda>w tx r. tx \<in> fst ` set w \<and> r = toy_receipt)\<rparr>"

lemma toy_chain_law: "chain_law toy_client (=) toy_view"
  by (auto simp: chain_law_def remembers_def toy_client_def toy_view_def list_ex_iff image_iff split: if_splits)

lemma demo_gcm: "gcm_correct demo_libs"
  using toy_libs_laws(2) by (simp add: gcm_correct_def demo_libs_def)

section \<open>A run\<close>

definition no_host :: "string \<Rightarrow> millis option" where
  "no_host s = None"

definition demo_M :: totp_libs where
  "demo_M =
     \<lparr>totp_generateSecret = (\<lambda>bs. ''secret''), totp_generateURI = (\<lambda>l t. t),
      totp_verify = (\<lambda>c t n. Inr True), qr_toDataURL = (\<lambda>u. Inr u)\<rparr>"

abbreviation demo_step :: "toy_chain \<times> sys \<Rightarrow> toy_chain \<times> sys \<Rightarrow> bool" where
  "demo_step \<equiv> program_step demo_libs demo_M demo_env no_host toy_client (=) 84532"

definition demo_active :: sys where
  "demo_active = fire_timers 6000 demo_sys"

definition demo_key_input :: create_api_key_input where
  "demo_key_input = \<lparr>ci_org_id = ''1-0'', ci_email = Some ''a@x.io'',
     ci_permissions = Some [EVENTS_WRITE, EVENTS_READ], ci_name = None\<rparr>"

definition demo_keyed :: sys where
  "demo_keyed = snd (createApiKey demo_libs (demo_ctx 5 6001) demo_key_input demo_active)"

definition demo_key :: string where
  "demo_key = plaintext_key [5]"

definition demo_input :: ingest_input where
  "demo_input =
     \<lparr>in_org_id = ''1-0'', in_api_key_id = ''5-0'', in_user_id = Some ''1-1'',
      in_payload = \<lparr>eb_prompt = ''hi'', eb_output = ''yo'', eb_model_id = ''m'',
        eb_timestamp = ''0001-01-01T00:00:00Z'', eb_workflow_id = None,
        eb_metadata = Some [(''b'', JStr ''x''), (''a'', JNull)]\<rparr>,
      in_idempotency_key = Some ''k1''\<rparr>"

definition demo_ingested :: sys where
  "demo_ingested = snd (ingest no_host (demo_ctx 6 6002) True demo_input demo_keyed)"

definition demo_pc :: process_ctx where
  "demo_pc = \<lparr>pc_iv_prompt = replicate 12 1, pc_iv_output = replicate 12 2, pc_queue_error = None\<rparr>"

definition demo_pe :: processable_event where
  "demo_pe = hd (dispatched demo_ingested)"

definition demo_processed :: sys where
  "demo_processed = snd (process_event demo_libs demo_env no_host demo_pc demo_pe (demo_ingested\<lparr>dispatched := []\<rparr>))"

definition demo_ac :: anchor_ctx where
  "demo_ac = \<lparr>ac_now = 6010, ac_update_error = None\<rparr>"

definition demo_anchored :: "toy_chain \<times> sys" where
  "demo_anchored = process_job toy_client 84532 demo_env demo_ac ([], demo_processed)"

lemma demo_dispatched: "dispatched demo_ingested = [] @ demo_pe # []"
  by code_simp

lemma demo_ivs: "length (pc_iv_prompt demo_pc) = IV_LENGTH" "length (pc_iv_output demo_pc) = IV_LENGTH"
  by (simp_all add: demo_pc_def IV_LENGTH_def)

lemma demo_steps_keyed: "demo_step\<^sup>*\<^sup>* ([], initial_sys) ([], demo_keyed)"
proof -
  have "demo_step\<^sup>*\<^sup>* ([], initial_sys) ([], demo_sys)"
    unfolding demo_sys_def by (intro r_into_rtranclp prog_account step_createOrg)
  also have "demo_step ([], demo_sys) ([], demo_active)"
    unfolding demo_active_def by (intro prog_account step_timers)
  also have "demo_step ([], demo_active) ([], demo_keyed)"
    unfolding demo_keyed_def by (rule prog_create_key)
  finally show ?thesis .
qed

lemma demo_steps_ingest: "demo_step\<^sup>*\<^sup>* ([], demo_keyed) ([], demo_ingested)"
  unfolding demo_ingested_def by (intro r_into_rtranclp prog_pipeline step_ingest)

lemma demo_steps_anchor: "demo_step\<^sup>*\<^sup>* ([], demo_ingested) demo_anchored"
proof -
  have "demo_step\<^sup>*\<^sup>* ([], demo_ingested) ([], demo_processed)"
    unfolding demo_processed_def
    using step_process [OF demo_dispatched demo_ivs, of demo_libs demo_env no_host toy_client "(=)" 84532 "[]"]
    by (intro r_into_rtranclp prog_pipeline) simp
  also have "demo_step ([], demo_processed) demo_anchored"
    unfolding demo_anchored_def by (intro prog_pipeline step_job)
  finally show ?thesis .
qed

text \<open>The same runs on a server.\<close>

abbreviation demo_serves :: "answer async list \<times> toy_chain \<times> sys \<Rightarrow> answer async list \<times> toy_chain \<times> sys \<Rightarrow> bool" where
  "demo_serves \<equiv> serves demo_libs demo_M demo_env no_host toy_client (=) 84532"

lemma demo_serves_keyed: "demo_serves\<^sup>*\<^sup>* (idle_server []) ([], [], demo_keyed)"
  by (rule serves_program [OF demo_steps_keyed])

lemma demo_serves_ingested: "demo_serves\<^sup>*\<^sup>* (idle_server []) ([], [], demo_ingested)"
  by (rule serves_program [OF rtranclp_trans [OF demo_steps_keyed demo_steps_ingest]])

lemma demo_serves_anchor: "demo_serves\<^sup>*\<^sup>* ([], [], demo_ingested) ([], fst demo_anchored, snd demo_anchored)"
  using serves_program [OF demo_steps_anchor] by simp

lemma demo_serves_all: "demo_serves\<^sup>*\<^sup>* (idle_server []) ([], fst demo_anchored, snd demo_anchored)"
  by (rule rtranclp_trans [OF demo_serves_ingested demo_serves_anchor])

lemma demo_reach_keyed: "program_inv demo_libs demo_env no_host toy_view 84532 ([], demo_keyed)"
  using program_steps [OF demo_steps_keyed demo_gcm toy_chain_law initial_program_inv] by simp

lemma demo_keyed_ok: "store_ok (db demo_keyed)"
  using demo_reach_keyed by (simp add: program_inv_def store_inv_def)

lemma demo_reach_ingested: "program_inv demo_libs demo_env no_host toy_view 84532 ([], demo_ingested)"
  using program_steps [OF demo_steps_ingest demo_gcm toy_chain_law demo_reach_keyed] by simp

lemma demo_steps_all: "demo_step\<^sup>*\<^sup>* ([], initial_sys) demo_anchored"
  by (rule rtranclp_trans [OF rtranclp_trans [OF demo_steps_keyed demo_steps_ingest] demo_steps_anchor])

text \<open>The event at the end of the run, and its texts.\<close>

definition demo_event :: event where
  "demo_event =
     \<lparr>ev_event_id = ''6-0'', ev_org_id = ''1-0'', ev_user_id = Some ''1-1'', ev_api_key_id = Some ''5-0'',
      ev_idempotency_key = Some ''k1'', ev_prompt = ''AQEBAQEBAQEBAQEBAAAAAAAAAAAAAAAAAAAAAGhp'',
      ev_output = ''AgICAgICAgICAgICAAAAAAAAAAAAAAAAAAAAAHlv'', ev_model_id = ''m'', ev_workflow_id = None,
      ev_metadata = Some [(''b'', JStr ''x''), (''a'', JNull)], ev_timestamp = - 62135596800000,
      ev_received_at = 6002, ev_canonical_hash = Some ''7b226d65746164617461223a7b226122'',
      ev_status = ANCHORED, ev_tx_hash = Some ''0xt0x7b226d65746164617461223a7b226122'',
      ev_block_number = Some ''7'', ev_chain_id = Some 84532, ev_anchored_at = Some 6010,
      ev_anchor_error = None, ev_created_at = 6002\<rparr>"

lemma demo_anchored_events: "events (db (snd demo_anchored)) = [demo_event]"
  by code_simp

lemma demo_decrypts:
  "decrypt demo_libs demo_env ''AQEBAQEBAQEBAQEBAAAAAAAAAAAAAAAAAAAAAGhp'' = Inr ''hi''"
  "decrypt demo_libs demo_env ''AgICAgICAgICAgICAAAAAAAAAAAAAAAAAAAAAHlv'' = Inr ''yo''"
  by code_simp+

lemma demo_verification: "\<exists>vd. getVerification (db (snd demo_anchored)) ''6-0'' ''1-0'' None = Inr vd"
  by (simp add: getVerification_def findVisible_def findEventById_def demo_anchored_events demo_event_def truthy_def Let_def)

lemma demo_detail: "\<exists>dt. getById demo_libs demo_env (db (snd demo_anchored)) ''6-0'' ''1-0'' None = Inr dt"
  by (simp add: getById_def toDetail_def findVisible_def findEventById_def demo_anchored_events demo_event_def
      demo_decrypts truthy_def)

end
