(* ===== verification/EventProperties.thy ===== *)
theory EventProperties
  imports EventDemo
begin

text \<open>
  The properties of events in the whole program: what holds of every event in every reachable
  state, that a verified event is the one on the chain, how an event may change, and that an
  idempotency key creates one event.
\<close>

section \<open>Reachable states\<close>

text \<open>
  States a server reaches from an idle one with an empty database: any number of requests whose statements interleave
  with each other, with callbacks, the worker, timers, restarts and the chain.
\<close>

lemma served_inv:
  assumes "(serves L M e host C moves chainId)\<^sup>*\<^sup>* (idle_server w0) (ps, ws)"
    and "gcm_correct L" and "chain_law C moves V"
  shows "events_inv L e host V chainId ws" and "calls_wait host ps"
  using serves_events [OF assms(1) _ assms(2,3) idle_server_inv] by simp_all

text \<open>Any client of a chain nobody looks at keeps the laws that do not speak of the chain.\<close>

definition blind_view :: "'w chain_view" where
  "blind_view = \<lparr>cv_submitted = (\<lambda>w tx h i. True), cv_mined = (\<lambda>w tx r. True)\<rparr>"

lemma blind_law: "chain_law C moves blind_view"
  by (simp add: chain_law_def remembers_def blind_view_def)



section \<open>What is on the chain\<close>

lemma getVerification_InrD:
  assumes "getVerification d i g u = Inr vd"
  obtains ev where "findVisible d i g u = Inr ev" "ev_status ev = ANCHORED" "ev_event_id ev = vd_event_id vd"
    "ev_canonical_hash ev = Some (vd_canonical_hash vd)" "ev_tx_hash ev = Some (vd_tx_hash vd)"
    "ev_block_number ev = Some (vd_block_number vd)" "ev_chain_id ev = Some (vd_chain_id vd)"
  using assms that
  by (auto simp: getVerification_def Let_def truthy_def split: sum.splits if_splits option.splits)

text \<open>
  C1. Verification data is true, and it is about the content that is shown. When the program,
  in any state a server reaches, however its requests interleave, gives out the verification data of an event and its detail, then the chain
  has a mined transaction, with the given hash and block, that submitted for this event the hash of
  the canonical form of the very content in the detail.
\<close>

theorem verified_content_on_chain:
  assumes "(serves L M e host C moves chainId)\<^sup>*\<^sup>* (idle_server w0) (ps, w, s)"
    and "gcm_correct L" and "chain_law C moves V"
    and "getVerification (db s) i g u = Inr vd" and "getById L e (db s) i g u' = Inr dt"
  shows "\<exists>str r. canonicalise host
        \<lparr>ce_prompt = dt_prompt dt, ce_output = dt_output dt, ce_model_id = dt_model_id dt,
         ce_timestamp = toISOString (dt_timestamp dt), ce_workflow_id = dt_workflow_id dt,
         ce_metadata = dt_metadata dt\<rparr> = Inr str \<and>
      vd_canonical_hash vd = canonical_hash L str \<and> vd_chain_id vd = chainId \<and>
      vd_block_number vd = show_nat (rc_blockNumber r) \<and> cv_mined V w (vd_tx_hash vd) r \<and>
      cv_submitted V w (vd_tx_hash vd) (''0x'' @ canonical_hash L str) (encodeEventId i)"
proof -
  have inv: "pipeline_inv L e host s" and chain: "chain_inv V chainId (w, s)"
    using served_inv(1) [OF assms(1-3)] by (simp_all add: events_inv_def)
  obtain ev where v: "findVisible (db s) i g u = Inr ev" "ev_status ev = ANCHORED"
    "ev_canonical_hash ev = Some (vd_canonical_hash vd)" "ev_tx_hash ev = Some (vd_tx_hash vd)"
    "ev_block_number ev = Some (vd_block_number vd)" "ev_chain_id ev = Some (vd_chain_id vd)"
    using getVerification_InrD [OF assms(4)] by metis
  obtain ev2 p out where d: "findVisible (db s) i g u' = Inr ev2" "decrypt L e (ev_prompt ev2) = Inr p"
    "decrypt L e (ev_output ev2) = Inr out" "dt_prompt dt = p" "dt_output dt = out"
    "dt_model_id dt = ev_model_id ev2" "dt_workflow_id dt = ev_workflow_id ev2" "dt_metadata dt = ev_metadata ev2"
    "dt_timestamp dt = ev_timestamp ev2"
    using getById_InrD [OF assms(5)] by metis
  note v1 = findVisible_InrD(1,2) [OF v(1)] and d1 = findVisible_InrD(1,2) [OF d(1)]
  have "distinct (map ev_event_id (events (db s)))" using event_ids inv by (simp add: pipeline_inv_def)
  then have same: "ev2 = ev" using distinct_map_eqD d1 v1 by metis
  have "sealed L e host ev" using inv v(2) v1(1) by (simp add: pipeline_inv_def)
  moreover have "on_chain V chainId w ev" using chain v(2) v1(1) by (simp add: chain_inv_def)
  ultimately show ?thesis
    using v d v1(2) unfolding same sealed_def on_chain_def row_content_def
    by (auto split: sum.splits)
qed

lemma verified_content_on_chain_witness:
  "\<exists>vd dt str r. getVerification (db (snd demo_anchored)) ''6-0'' ''1-0'' None = Inr vd \<and>
     getById demo_libs demo_env (db (snd demo_anchored)) ''6-0'' ''1-0'' None = Inr dt \<and>
     vd_canonical_hash vd = canonical_hash demo_libs str \<and>
     cv_mined toy_view (fst demo_anchored) (vd_tx_hash vd) r"
proof -
  obtain vd dt where v: "getVerification (db (snd demo_anchored)) ''6-0'' ''1-0'' None = Inr vd"
    and d: "getById demo_libs demo_env (db (snd demo_anchored)) ''6-0'' ''1-0'' None = Inr dt"
    using demo_verification demo_detail by blast
  from verified_content_on_chain [OF demo_serves_all demo_gcm toy_chain_law v d] v d show ?thesis by blast
qed

section \<open>How events change\<close>



section \<open>Idempotency keys\<close>

lemma ingest_find_row:
  assumes "unique_rows event_constraints (events d)" and "ev \<in> set (events d)"
    and "ev_org_id ev = in_org_id input" and "ev_idempotency_key ev = in_idempotency_key input"
    and "truthy (in_idempotency_key input)"
  shows "ingest_find input d = Some \<lparr>ir_event_id = ev_event_id ev, ir_status = ev_status ev,
    ir_received_at = ev_received_at ev, ir_idempotent_replay = True\<rparr>"
proof -
  obtain k where k: "in_idempotency_key input = Some k" using assms(5) by (auto simp: truthy_def split: option.splits)
  have "find_row (\<lambda>e. ev_org_id e = in_org_id input \<and> ev_idempotency_key e = Some k) (events d) = Some ev"
  proof (rule find_row_unique)
    fix r assume "r \<in> set (events d)" "ev_org_id r = in_org_id input \<and> ev_idempotency_key r = Some k"
    then show "r = ev"
      using unique_rowsD [OF assms(1), of "(\<lambda>e. map_option (\<lambda>k. [ev_org_id e, k]) (ev_idempotency_key e),
          ''events_org_idempotency_uniq'')" r ev] assms(2-4) k
      by (simp add: event_constraints_def)
  qed (use assms k in simp_all)
  with k assms(5) show ?thesis by (simp add: ingest_find_def findEventByIdempotencyKey_def)
qed

text \<open>After an ingestion with a key, its event is there.\<close>

lemma ingest_row:
  assumes "ingest host cx b input s = (Inr r, s')" and "truthy (in_idempotency_key input)"
  shows "\<exists>ev \<in> set (events (db s')). ev_org_id ev = in_org_id input \<and>
    ev_idempotency_key ev = in_idempotency_key input \<and> ev_event_id ev = ir_event_id r \<and>
    ev_received_at ev = ir_received_at r"
proof (cases "ingest_find input (db s)")
  case None
  then have "ingest_insert host cx b input s = (Inr r, s')" using assms(1) by (simp add: ingest_def)
  then obtain t ev d where c: "createEvent (cx_now cx) (cx_id cx 0) (db s) (event_row_input input t) = Inr (ev, d)"
    and r: "r = \<lparr>ir_event_id = ev_event_id ev, ir_status = ev_status ev, ir_received_at = ev_received_at ev,
          ir_idempotent_replay = False\<rparr>" and s': "db s' = d"
    by (rule ingest_insert_cases) auto
  note ev = createEvent_SomeD [OF c]
  show ?thesis by (rule bexI [of _ ev]) (simp_all add: s' r ev event_row_input_def Let_def)
next
  case (Some replay)
  then have "r = replay" "s' = s" using assms(1) by (simp_all add: ingest_def)
  with Some assms(2) show ?thesis
    by (auto simp: ingest_find_def findEventByIdempotencyKey_def truthy_def dest!: find_row_SomeD
        split: if_splits option.splits)
qed

text \<open>
  C23. An idempotency key creates one event: once an organisation has ingested an event with a
  key, every request of it with that key that begins later, whatever it carries and whatever happened or waited in
  between, changes nothing and is answered with the identifier and the time of the first event.
\<close>

theorem ingest_idempotent:
  assumes "(serves L M e host C moves chainId)\<^sup>*\<^sup>* (idle_server w0) (ps, w, s)" and "gcm_correct L"
    and "ingest host cx b input s = (Inr r, s1)"
    and "(serves L M e host C moves chainId)\<^sup>*\<^sup>* (ps, w, s1) (ps', w2, s2)"
    and "in_org_id input' = in_org_id input" and "in_idempotency_key input' = in_idempotency_key input"
    and "truthy (in_idempotency_key input)"
  shows "\<exists>st. ingest host cx' b' input' s2 =
    (Inr \<lparr>ir_event_id = ir_event_id r, ir_status = st, ir_received_at = ir_received_at r,
          ir_idempotent_replay = True\<rparr>, s2)"
proof -
  have "program_step L M e host C moves chainId (w, s) (w, s1)"
    using step_ingest [of L e host C moves chainId w s cx b input] assms(3) by (auto intro: prog_pipeline)
  then have inv1: "events_inv L e host blind_view chainId (w, s1)"
    using program_step_events [OF _ assms(2) blind_law] served_inv(1) [OF assms(1,2) blind_law] by blast
  note run = serves_events(2,3) [OF assms(4) served_inv(2) [OF assms(1,2) blind_law] assms(2) blind_law inv1]
  obtain ev where ev: "ev \<in> set (events (db s1))" "ev_org_id ev = in_org_id input"
    "ev_idempotency_key ev = in_idempotency_key input" "ev_event_id ev = ir_event_id r"
    "ev_received_at ev = ir_received_at r"
    using ingest_row [OF assms(3,7)] by blast
  obtain ev' where ev': "ev' \<in> set (events (db s2))" "event_later ev ev'"
    using run(2) ev(1) by (auto simp: events_later_def)
  have "unique_rows event_constraints (events (db s2))" using run(1) by (simp add: events_inv_def pipeline_inv_def)
  from ingest_find_row [OF this ev'(1), of input'] ev'(2) ev assms(5-7)
  show ?thesis by (simp add: ingest_def event_later_def)
qed

definition demo_result :: ingest_result where
  "demo_result = \<lparr>ir_event_id = ''6-0'', ir_status = PROCESSING, ir_received_at = 6002, ir_idempotent_replay = False\<rparr>"

lemma demo_ingest_ok: "ingest no_host (demo_ctx 6 6002) True demo_input demo_keyed = (Inr demo_result, demo_ingested)"
  by (simp add: demo_ingested_def prod_eq_iff) code_simp

lemma ingest_idempotent_witness:
  "\<exists>st. ingest no_host (demo_ctx 7 9000) True demo_input (snd demo_anchored) =
    (Inr \<lparr>ir_event_id = ''6-0'', ir_status = st, ir_received_at = 6002, ir_idempotent_replay = True\<rparr>, snd demo_anchored)"
proof -
  have "truthy (in_idempotency_key demo_input)" by (simp add: demo_input_def truthy_def)
  from ingest_idempotent [OF demo_serves_keyed demo_gcm demo_ingest_ok demo_serves_anchor refl refl this]
  show ?thesis by (simp add: demo_result_def)
qed

end
