(* ===== verification/AnchorProperties.thy ===== *)
theory AnchorProperties
  imports EventProperties
begin

text \<open>
  The properties of ingestion under concurrency, of anchoring in all its outcomes, and of the way of an
  event from its request to the chain; and what modelling showed about the worker.
\<close>

section \<open>Two requests with one key\<close>

text \<open>
  Ingestion looks for the key first and inserts afterwards. When two requests with the same key
  both find nothing, the database decides: the second insert fails, leaves the state as it is,
  and the request is answered with an internal error instead of the first event.
\<close>

theorem ingest_race:
  assumes "program_inv L e host V chainId (w, s)" and "gcm_correct L" and "chain_law C moves V"
    and "ingest host cx b input s = (Inr r, s1)"
    and "(program_step L M e host C moves chainId)\<^sup>*\<^sup>* (w, s1) (w2, s2)"
    and "in_org_id input' = in_org_id input" and "in_idempotency_key input' = in_idempotency_key input"
    and "truthy (in_idempotency_key input)"
    and "date_parse host (eb_timestamp (in_payload input')) \<noteq> None"
    and "cx_id cx' 0 \<notin> ev_event_id ` set (events (db s2))"
  shows "ingest_insert host cx' b' input' s2 = (Inl (unique_violation ''events_org_idempotency_uniq''), s2) \<and>
    res_status (errorHandler p (unique_violation ''events_org_idempotency_uniq'')) = 500"
proof -
  have "program_step L M e host C moves chainId (w, s) (w, s1)"
    using step_ingest [of L e host C moves chainId w s cx b input] assms(4) by (auto intro: prog_pipeline)
  then have inv1: "program_inv L e host V chainId (w, s1)"
    using program_step_inv [OF _ assms(2,3,1)] by blast
  obtain ev where ev: "ev \<in> set (events (db s1))" "ev_org_id ev = in_org_id input"
    "ev_idempotency_key ev = in_idempotency_key input"
    using ingest_row [OF assms(4,8)] by blast
  obtain ev' where ev': "ev' \<in> set (events (db s2))" "event_later ev ev'"
    using program_steps [OF assms(5,2,3) inv1] ev(1) by (auto simp: program_later_def events_later_def)
  obtain t where t: "date_parse host (eb_timestamp (in_payload input')) = Some t" using assms(9) by blast
  obtain k where k: "in_idempotency_key input = Some k" using assms(8) by (auto simp: truthy_def split: option.splits)
  have taken: "Some [in_org_id input, k] \<in>
      (\<lambda>ev. map_option (\<lambda>k. [ev_org_id ev, k]) (ev_idempotency_key ev)) ` set (events (db s2))"
    by (rule image_eqI [OF _ ev'(1)]) (use ev' ev k in \<open>simp add: event_later_def\<close>)
  have free: "Some [cx_id cx' 0] \<notin> (\<lambda>ev. Some [ev_event_id ev]) ` set (events (db s2))"
    using assms(10) by auto
  show ?thesis
    using taken free assms(6,7) k
    by (simp add: ingest_insert_def t createEvent_def event_row_input_def Let_def insert_row_def
        event_constraints_def violates_def unique_violation_def errorHandler_def)
qed

lemma ingest_race_witness:
  "ingest_insert no_host (demo_ctx 7 9000) True demo_input (snd demo_anchored) =
    (Inl (unique_violation ''events_org_idempotency_uniq''), snd demo_anchored)"
proof -
  have run: "demo_step\<^sup>*\<^sup>* ([], demo_ingested) (fst demo_anchored, snd demo_anchored)" using demo_steps_anchor by simp
  have key: "truthy (in_idempotency_key demo_input)" by (simp add: demo_input_def truthy_def)
  have date: "date_parse no_host (eb_timestamp (in_payload demo_input)) \<noteq> None" by code_simp
  have fresh: "cx_id (demo_ctx 7 9000) 0 \<notin> ev_event_id ` set (events (db (snd demo_anchored)))"
  proof -
    have "cx_id (demo_ctx 7 9000) 0 = ''7-0''" by code_simp
    then show ?thesis by (simp add: demo_anchored_events demo_event_def)
  qed
  from ingest_race [OF demo_reach_keyed demo_gcm toy_chain_law demo_ingest_ok run refl refl key date fresh]
  show ?thesis by blast
qed

section \<open>The outcomes of a job\<close>

definition anchored_as :: "string \<Rightarrow> nat \<Rightarrow> int \<Rightarrow> millis \<Rightarrow> event \<Rightarrow> event" where
  "anchored_as tx n c t ev =
     ev\<lparr>ev_tx_hash := Some tx, ev_block_number := Some (show_nat n), ev_chain_id := Some c,
        ev_anchored_at := Some t, ev_status := ANCHORED\<rparr>"

definition failed_as :: "string \<Rightarrow> event \<Rightarrow> event" where
  "failed_as m ev = ev\<lparr>ev_status := ANCHOR_FAILED, ev_anchor_error := Some m\<rparr>"

lemma job_updates:
  assumes "pipeline_inv L e host s" and "queue s = job # jobs"
    and "\<And>ev. ev_event_id (f ev) = ev_event_id ev \<and> ev_org_id (f ev) = ev_org_id ev \<and>
      ev_idempotency_key (f ev) = ev_idempotency_key ev"
  shows "\<exists>ev \<in> set (events (db s)). ev_event_id ev = aj_eventId job \<and> ev_status ev = ANCHORING \<and>
    set (events (update_event (db s) (aj_eventId job) (aj_orgId job) f)) = insert (f ev) (set (events (db s)) - {ev})"
proof -
  obtain ev where ev: "ev \<in> set (events (db s))" "ev_event_id ev = aj_eventId job" "ev_org_id ev = aj_orgId job"
    "ev_status ev = ANCHORING"
    using job_event [OF assms(1,2)] by metis
  have "unique_rows event_constraints (events (db s))" using assms(1) by (simp add: pipeline_inv_def)
  from update_one_event(2) [OF this ev(1) assms(3)] ev show ?thesis by auto
qed


definition demo_job :: anchor_job where
  "demo_job = \<lparr>aj_eventId = ''6-0'', aj_orgId = ''1-0'', aj_canonicalHash = ''7b226d65746164617461223a7b226122''\<rparr>"

lemma demo_queue: "queue demo_processed = [demo_job]"
  by code_simp

lemma demo_processed_inv: "pipeline_inv demo_libs demo_env no_host demo_processed"
  using inv_process [OF _ demo_dispatched demo_gcm demo_ivs] demo_reach_ingested
  by (simp add: program_inv_def demo_processed_def)


section \<open>The way of an event\<close>

text \<open>A job whose transaction is mined anchors its event.\<close>

lemma job_anchors:
  assumes inv: "pipeline_inv L e host s" and q: "queue s = [job]"
    and env: "DEFAULT_MAX_ATTEMPTS e = Some n" "0 < n" and noerr: "ac_update_error ac = None"
    and sent: "cc_writeContract C (''0x'' @ aj_canonicalHash job) (encodeEventId (aj_eventId job)) w = (Inr tx, w1)"
    and got: "cc_waitForReceipt C tx w1 = (Inr rc, w2)"
  shows "\<exists>ev. ev \<in> set (events (db (snd (process_job C chainId e ac (w, s))))) \<and> ev_event_id ev = aj_eventId job \<and>
    ev_status ev = ANCHORED \<and> ev_canonical_hash ev = Some (aj_canonicalHash job) \<and> ev_tx_hash ev = Some tx \<and>
    ev_block_number ev = Some (show_nat (rc_blockNumber rc))"
proof -
  let ?f = "anchored_as tx (rc_blockNumber rc) chainId (ac_now ac)"
  let ?d = "update_event (db s) (aj_eventId job) (aj_orgId job) ?f"
  obtain ev where ev: "ev \<in> set (events (db s))" "ev_event_id ev = aj_eventId job"
    "ev_canonical_hash ev = Some (aj_canonicalHash job)"
    using job_event [OF inv q] by auto
  have uniq: "unique_rows event_constraints (events (db s))" using inv by (simp add: pipeline_inv_def)
  have "maxAttempts (default_options e) = Some n" using env(1) by (simp add: default_options_def)
  then have run: "snd (process_job C chainId e ac (w, s)) = s\<lparr>queue := [], db := ?d\<rparr>"
    using sent got
    by (simp add: process_job_def q anchorEvent_def encodeCanonicalHash_def noerr Let_def
        backoff_ok [OF _ _ env(2)] updateEventToAnchored_def anchored_as_def [abs_def])
  obtain ev' where ev': "ev' \<in> set (events (db s))" "ev_event_id ev' = aj_eventId job"
    "set (events ?d) = insert (?f ev') (set (events (db s)) - {ev'})"
    using job_updates [OF inv q, of ?f] by (auto simp: anchored_as_def)
  have "ev' = ev" using distinct_map_eqD [OF event_ids [OF uniq] ev'(1) ev(1)] ev(2) ev'(2) by simp
  then have "?f ev \<in> set (events (db (snd (process_job C chainId e ac (w, s)))))"
    using ev'(3) by (simp add: run)
  then show ?thesis using ev(2,3) by (intro exI [of _ "?f ev"]) (simp add: anchored_as_def)
qed

text \<open>
  C6. An event gets to the chain: when a new event is ingested, its callback runs and adds its job, and the
  worker, with nothing else to do, gets through to the chain at the first attempt, then the event is
  anchored with the transaction and block the chain gave, and its hash is that of the content that was sent.
\<close>

theorem event_reaches_chain:
  assumes srv: "(serves L M e host C moves chainId)\<^sup>*\<^sup>* (idle_server w0) (ps, w, s)" and gcm: "gcm_correct L"
    and ing: "ingest_insert host cx True input s = (Inr r, s1)" and idle: "queue s = []"
    and pe: "dispatched s1 = xs @ [pe]"
    and iv: "length (pc_iv_prompt pc) = IV_LENGTH" "length (pc_iv_output pc) = IV_LENGTH"
    and proc: "process_event L e host pc pe (s1\<lparr>dispatched := xs\<rparr>) = (Inr h, s2)"
    and env: "DEFAULT_MAX_ATTEMPTS e = Some n" "0 < n" and noerr: "ac_update_error ac = None"
    and sent: "cc_writeContract C (''0x'' @ h) (encodeEventId (ir_event_id r)) w = (Inr tx, w1)"
    and got: "cc_waitForReceipt C tx w1 = (Inr rc, w2)"
  shows "\<exists>t str ev. date_parse host (eb_timestamp (in_payload input)) = Some t \<and>
    canonicalise host
      \<lparr>ce_prompt = eb_prompt (in_payload input), ce_output = eb_output (in_payload input),
       ce_model_id = eb_model_id (in_payload input), ce_timestamp = toISOString t,
       ce_workflow_id = eb_workflow_id (in_payload input), ce_metadata = eb_metadata (in_payload input)\<rparr> = Inr str \<and>
    ev \<in> set (events (db (snd (process_job C chainId e ac (w, s2))))) \<and> ev_event_id ev = ir_event_id r \<and>
    ev_status ev = ANCHORED \<and> ev_canonical_hash ev = Some (canonical_hash L str) \<and> ev_tx_hash ev = Some tx \<and>
    ev_block_number ev = Some (show_nat (rc_blockNumber rc))"
proof -
  obtain t ev0 d where t: "date_parse host (eb_timestamp (in_payload input)) = Some t"
    and c: "createEvent (cx_now cx) (cx_id cx 0) (db s) (event_row_input input t) = Inr (ev0, d)"
    and r: "ir_event_id r = ev_event_id ev0"
    and s1: "s1 = s\<lparr>db := d, dispatched := dispatched s @ [processable (in_payload input) ev0]\<rparr>"
    by (rule ingest_insert_cases [OF ing]) auto
  note ev0 = createEvent_SomeD [OF c]
  have pe': "pe = processable (in_payload input) ev0" using pe s1 by simp
  have inv1: "pipeline_inv L e host s1"
    using inv_ingest_insert [of L e host s cx True input] served_inv(1) [OF srv gcm blind_law] ing
    by (simp add: events_inv_def)
  have inv2: "pipeline_inv L e host s2"
    using inv_process [OF inv1, of xs pe "[]" pc] pe gcm iv proc by simp
  let ?job = "\<lparr>aj_eventId = ev_event_id ev0, aj_orgId = ev_org_id ev0, aj_canonicalHash = h\<rparr>"
  obtain str where str: "canonicalise host (pe_content pe) = Inr str" "h = canonical_hash L str"
    and q: "queue s2 = [?job]"
    by (rule process_event_cases [OF proc]) (use idle s1 pe' in \<open>auto simp: processable_def\<close>)
  have content: "pe_content pe =
      \<lparr>ce_prompt = eb_prompt (in_payload input), ce_output = eb_output (in_payload input),
       ce_model_id = eb_model_id (in_payload input), ce_timestamp = toISOString t,
       ce_workflow_id = eb_workflow_id (in_payload input), ce_metadata = eb_metadata (in_payload input)\<rparr>"
    by (simp add: pe' processable_def ev0 event_row_input_def Let_def)
  show ?thesis
    using job_anchors [OF inv2 q env noerr _ got, where chainId = chainId and w = w] sent t str content r by auto
qed

lemma demo_process_ok:
  "\<exists>h. process_event demo_libs demo_env no_host demo_pc demo_pe (demo_ingested\<lparr>dispatched := []\<rparr>) = (Inr h, demo_processed)"
proof -
  have "\<not> isl (fst (process_event demo_libs demo_env no_host demo_pc demo_pe (demo_ingested\<lparr>dispatched := []\<rparr>)))"
    by code_simp
  then obtain h where "fst (process_event demo_libs demo_env no_host demo_pc demo_pe (demo_ingested\<lparr>dispatched := []\<rparr>)) = Inr h"
    by (cases "fst (process_event demo_libs demo_env no_host demo_pc demo_pe (demo_ingested\<lparr>dispatched := []\<rparr>))") auto
  then show ?thesis by (simp add: demo_processed_def prod_eq_iff)
qed

lemma event_reaches_chain_witness:
  "\<exists>ev \<in> set (events (db (snd demo_anchored))). ev_event_id ev = ''6-0'' \<and> ev_status ev = ANCHORED"
proof -
  obtain h where h: "process_event demo_libs demo_env no_host demo_pc demo_pe (demo_ingested\<lparr>dispatched := []\<rparr>) =
      (Inr h, demo_processed)"
    using demo_process_ok by blast
  have find: "ingest_find demo_input (db demo_keyed) = None" and idle: "queue demo_keyed = []" by code_simp+
  then have ing: "ingest_insert no_host (demo_ctx 6 6002) True demo_input demo_keyed = (Inr demo_result, demo_ingested)"
    using demo_ingest_ok by (simp add: ingest_def)
  have att: "DEFAULT_MAX_ATTEMPTS demo_env = Some 3" by code_simp
  have calls: "cc_writeContract toy_client (''0x'' @ h) (encodeEventId (ir_event_id demo_result)) [] =
      (Inr (''0xt'' @ ''0x'' @ h), [(''0xt'' @ ''0x'' @ h, ''0x'' @ h, encodeEventId (ir_event_id demo_result))])"
    and wait: "cc_waitForReceipt toy_client (''0xt'' @ ''0x'' @ h)
        [(''0xt'' @ ''0x'' @ h, ''0x'' @ h, encodeEventId (ir_event_id demo_result))] =
      (Inr toy_receipt, [(''0xt'' @ ''0x'' @ h, ''0x'' @ h, encodeEventId (ir_event_id demo_result))])"
    by (simp_all add: toy_client_def)
  have "ac_update_error demo_ac = None" "(0::int) < 3" by (simp_all add: demo_ac_def)
  from event_reaches_chain [OF demo_serves_keyed demo_gcm ing idle demo_dispatched demo_ivs h att this(2,1) calls wait]
  show ?thesis unfolding demo_anchored_def demo_result_def ingest_result.select_convs by blast
qed

section \<open>What the worker misses\<close>

text \<open>
  A receipt says whether the transaction was reverted, and the worker does not look: an event whose
  transaction the contract refused is anchored.
\<close>

definition reverting_client :: "toy_chain chain_client" where
  "reverting_client = toy_client\<lparr>cc_waitForReceipt := (\<lambda>tx w. (Inr \<lparr>rc_blockNumber = 7, rc_reverted = True\<rparr>, w))\<rparr>"

lemma reverted_is_anchored:
  assumes "DEFAULT_MAX_ATTEMPTS e = Some n" and "0 < n" and "ac_update_error ac = None"
  shows "fst (anchorEvent reverting_client chainId e ac job (w, s)) = Inr ()"
  using assms
  by (simp add: anchorEvent_def Let_def reverting_client_def toy_client_def withExponentialBackoff_def
      default_options_def backoff_loop.simps)

text \<open>
  A failing write of the outcome after the transaction was mined makes the event failed, although it is on
  the chain.
\<close>

lemma mined_but_failed:
  assumes "DEFAULT_MAX_ATTEMPTS e = Some n" and "0 < n" and "ac_update_error ac = Some err"
    and "cc_writeContract C (''0x'' @ aj_canonicalHash job) (encodeEventId (aj_eventId job)) w = (Inr tx, w1)"
    and "cc_waitForReceipt C tx w1 = (Inr r, w2)"
  shows "anchorEvent C chainId e ac job (w, s) =
    (Inl err, w2, s\<lparr>db := updateEventToAnchorFailed (db s) (aj_eventId job) (aj_orgId job) (error_text err)\<rparr>)"
proof -
  have att: "maxAttempts (default_options e) = Some n" using assms(1) by (simp add: default_options_def)
  show ?thesis
    using assms(3-5)
    by (simp add: anchorEvent_def encodeCanonicalHash_def Let_def anchor_failed_def backoff_ok [OF _ att assms(2)])
qed

text \<open>A job that is delivered again makes an anchored event failed, when the contract knows its hash already.\<close>

lemma redelivered_job_fails:
  assumes "DEFAULT_MAX_ATTEMPTS e = Some n" and "0 < n"
    and "cc_writeContract C (''0x'' @ aj_canonicalHash job) (encodeEventId (aj_eventId job)) w =
      (Inl (Native ''AlreadyAnchored'' None), w1)"
  shows "snd (snd (anchorEvent C chainId e ac job (w, s))) =
    s\<lparr>db := updateEventToAnchorFailed (db s) (aj_eventId job) (aj_orgId job) ''AlreadyAnchored''\<rparr>"
proof -
  have att: "maxAttempts (default_options e) = Some n" "checkRetryable (default_options e) = isRetryableError"
    using assms(1) by (simp_all add: default_options_def)
  have "\<not> isRetryableError (Native ''AlreadyAnchored'' None)" by code_simp
  then show ?thesis
    using assms(3)
    by (simp add: anchorEvent_def encodeCanonicalHash_def Let_def anchor_failed_def
        backoff_fail_fast [OF _ att(1) assms(2)] att(2))
qed

text \<open>
  When adding the job fails, the event is written as anchoring before, and nothing is in the queue that
  would end that.
\<close>

lemma lost_job:
  assumes "pc_queue_error pc = Some err" and "process_event L e host pc pe s = (Inl err, s')"
    and "canonicalise host (pe_content pe) = Inr str"
    and "encrypt L e (pc_iv_prompt pc) (ce_prompt (pe_content pe)) = Inr p"
    and "encrypt L e (pc_iv_output pc) (ce_output (pe_content pe)) = Inr out"
  shows "queue s' = queue s \<and> dispatched s' = dispatched s \<and>
    (\<forall>ev \<in> set (events (db s')). ev_event_id ev = pe_event_id pe \<and> ev_org_id ev = pe_org_id pe \<longrightarrow>
       ev_status ev = ANCHORING)"
  using assms
  by (auto simp: process_event_def updateEventToAnchoring_def set_update_where Let_def)

text \<open>
  Reading an event that was not processed yet decrypts its texts, which are still in the clear: a text that
  does not look like 28 bytes in base64 makes it fail.
\<close>

lemma short_text_not_decrypted:
  assumes "getKey e = Inr key" and "text0 \<noteq> []" and "length (from_base64 text0) < IV_LENGTH + AUTH_TAG_LENGTH"
  shows "\<exists>m c. decrypt L e text0 = Inl (Native m c)"
  using assms by (auto simp: decrypt_def gcm_decipher_def IV_LENGTH_def AUTH_TAG_LENGTH_def Let_def)

lemma processing_detail_fails:
  assumes "getKey e = Inr key" and "findVisible d i g u = Inr ev" and "ev_prompt ev \<noteq> []"
    and "length (from_base64 (ev_prompt ev)) < IV_LENGTH + AUTH_TAG_LENGTH"
  shows "\<exists>err. getById L e d i g u = Inl err \<and> res_status (errorHandler p err) = 500"
proof -
  obtain m c where "decrypt L e (ev_prompt ev) = Inl (Native m c)"
    using short_text_not_decrypted [OF assms(1,3,4)] by blast
  then show ?thesis using assms(2) by (simp add: getById_def toDetail_def errorHandler_def)
qed

end
