(* ===== verification/RouteProperties.thy ===== *)
theory RouteProperties
  imports AnchorProperties
begin

text \<open>
  The properties of the routes for events and API keys: who is let in, what each sender sees, that
  pages together are the whole listing, and how long a key works.
\<close>

section \<open>Who reads\<close>

text \<open>
  A sender that may read with permission \<open>p\<close>: a session of an active user of organisation \<open>g\<close>, restricted to
  the own events for a member; or an active key of an active organisation \<open>g\<close> with that permission.
\<close>

definition reader ::
    "libs \<Rightarrow> env \<Rightarrow> millis \<Rightarrow> store \<Rightarrow> request \<Rightarrow> permission \<Rightarrow> uuid \<Rightarrow> uuid option \<Rightarrow> bool" where
  "reader L e now d req p g only \<longleftrightarrow>
     (\<exists>payload usr. jwt_verify L (env_JWT_SECRET e) (the (rq_session_cookie req)) now = Some payload \<and>
        usr \<in> set (users d) \<and> u_user_id usr = jp_user_id payload \<and> u_status usr = UserACTIVE \<and>
        u_org_id usr = Some g \<and> only = (if u_role usr = MEMBER then Some (u_user_id usr) else None)) \<or>
     (\<exists>k org. k \<in> set (api_keys d) \<and> ak_key_hash k = hashSHA256 L (js_trim (the (rq_header req API_KEY_HEADER))) \<and>
        ak_status k = KeyACTIVE \<and> p \<in> set (ak_permissions k) \<and> ak_org_id k = g \<and>
        org \<in> set (organisations d) \<and> o_org_id org = g \<and> o_status org = OrgACTIVE \<and> only = None)"

text \<open>What the middlewares in front of the reading routes leave in the request.\<close>

lemma reading_InrD:
  assumes "reading L e cx b hits handler req s = (Inr resp, s')"
  obtains req' where "authenticateFlexible L e cx b req s = (Inr req', s')" "handler (db s') req' = Inr resp"
proof -
  obtain r s1 where a: "authenticateFlexible L e cx b req s = (r, s1)" by (cases "authenticateFlexible L e cx b req s")
  obtain req1 where r: "r = Inr req1" using assms a by (cases r) (simp_all add: reading_def)
  have "key_limits hits req1 = Inr req1 \<and> s1 = s' \<and> handler (db s') req1 = Inr resp"
    using assms a r by (auto simp: reading_def key_limits_def rate_limited_def split: if_splits)
  with a r show ?thesis by (intro that [of req1]) simp_all
qed

lemma touch_reads:
  assumes "validateApiKey L cx b key s = (Inr vk, s')"
  shows "organisations (db s') = organisations (db s)" "users (db s') = users (db s)" "events (db s') = events (db s)"
  using assms by (auto simp: validateApiKey_def touchLastUsed_def Let_def split: option.splits if_splits)

lemma flexible_reader:
  assumes "authenticateFlexible L e cx b req s = (Inr req', s')" and "rq_user req = None" and "rq_apiKey req = None"
    and "(\<exists>u. rq_user req' = Some u \<and> jp_org_id u = Some g \<and> only = (if jp_role u = MEMBER then Some (jp_user_id u) else None)) \<or>
      rq_user req' = None \<and> (\<exists>kc. rq_apiKey req' = Some kc \<and> p \<in> set (vk_permissions kc) \<and> vk_org_id kc = g \<and> only = None)"
  shows "reader L e (cx_now cx) (db s) req p g only \<and> events (db s') = events (db s) \<and> users (db s') = users (db s)"
proof (cases "truthy (rq_session_cookie req)")
  case True
  have auth: "s' = s" "authenticate L e (cx_now cx) (db s) req = Inr req'"
    using assms(1) True unfolding authenticateFlexible_def if_P [OF True] prod.inject by metis+
  obtain payload u where u: "jwt_verify L (env_JWT_SECRET e) (the (rq_session_cookie req)) (cx_now cx) = Some payload"
    "u \<in> set (users (db s))" "u_user_id u = jp_user_id payload" "u_status u = UserACTIVE"
    "req' = req\<lparr>rq_user := Some (session_payload u)\<rparr>"
    by (rule authenticate_InrD [OF auth(2)])
  then show ?thesis using assms(4) auth(1) by (auto simp: reader_def session_payload_def)
next
  case False
  then have "requireApiKey L cx b req s = (Inr req', s')"
    using assms(1) by (auto simp: authenticateFlexible_def split: if_splits)
  then obtain kc where kc: "validateApiKey L cx b (js_trim (the (rq_header req API_KEY_HEADER))) s = (Inr kc, s')"
    "req' = req\<lparr>rq_apiKey := Some kc\<rparr>"
    by (rule requireApiKey_InrD)
  obtain k org where "k \<in> set (api_keys (db s))" "ak_key_hash k = hashSHA256 L (js_trim (the (rq_header req API_KEY_HEADER)))"
    "ak_status k = KeyACTIVE" "org \<in> set (organisations (db s))" "o_org_id org = ak_org_id k" "o_status org = OrgACTIVE"
    "kc = \<lparr>vk_key_id = ak_key_id k, vk_org_id = ak_org_id k, vk_user_id = ak_user_id k, vk_permissions = ak_permissions k\<rparr>"
    by (rule validateApiKey_InrD [OF kc(1)])
  then show ?thesis using assms(2,4) kc(2) touch_reads [OF kc(1)] by (auto simp: reader_def)
qed

lemma key_scope_InrD:
  assumes "key_scope p req = Inr sc"
  shows "\<exists>kc. rq_apiKey req = Some kc \<and> p \<in> set (vk_permissions kc) \<and> vk_org_id kc = sc_org_id sc \<and>
    sc_user_id_filter sc = None \<and> sc_email_filter sc = None"
  using assms by (cases "rq_apiKey req") (auto simp: key_scope_def split: if_splits)

lemma truthy_the: "truthy so \<Longrightarrow> so = Some (the so)"
  by (cases so) (simp_all add: truthy_def)

lemma detail_scope:
  assumes "resolveDetailScope p req' = Inr sc"
  shows "(\<exists>u. rq_user req' = Some u \<and> jp_org_id u = Some (sc_org_id sc) \<and>
      sc_user_id_filter sc = (if jp_role u = MEMBER then Some (jp_user_id u) else None)) \<or>
    rq_user req' = None \<and> (\<exists>kc. rq_apiKey req' = Some kc \<and> p \<in> set (vk_permissions kc) \<and> vk_org_id kc = sc_org_id sc \<and>
      sc_user_id_filter sc = None)"
proof (cases "rq_user req'")
  case None
  then show ?thesis using assms key_scope_InrD by (fastforce simp: resolveDetailScope_def)
next
  case (Some u)
  then show ?thesis using assms truthy_the [of "jp_org_id u"] by (auto simp: resolveDetailScope_def split: if_splits)
qed

lemma list_scope:
  assumes "resolveListScope req' = Inr sc"
  shows "(\<exists>u. rq_user req' = Some u \<and> jp_org_id u = Some (sc_org_id sc) \<and>
      sc_user_id_filter sc = (if jp_role u = MEMBER then Some (jp_user_id u) else None) \<and>
      (jp_role u = MEMBER \<longrightarrow> sc_email_filter sc = None)) \<or>
    rq_user req' = None \<and> (\<exists>kc. rq_apiKey req' = Some kc \<and> EVENTS_READ \<in> set (vk_permissions kc) \<and>
      vk_org_id kc = sc_org_id sc \<and> sc_user_id_filter sc = None \<and> sc_email_filter sc = None)"
proof (cases "rq_user req'")
  case None
  then show ?thesis using assms key_scope_InrD by (fastforce simp: resolveListScope_def)
next
  case (Some u)
  then show ?thesis using assms truthy_the [of "jp_org_id u"] by (auto simp: resolveListScope_def split: if_splits)
qed

lemma parsed_org: "parseListQuery host g req = Inr q \<Longrightarrow> li_org_id q = g \<and> li_user_id q = None"
  by (auto simp: parseListQuery_def invalid_def Let_def split: if_splits sum.splits)

text \<open>The rows a listing answers with are of the organisation of its scope and, under its filter, of the user.\<close>

abbreviation shown_in_scope :: "scope \<Rightarrow> store \<Rightarrow> event_summary \<Rightarrow> bool" where
  "shown_in_scope sc d row \<equiv> \<exists>ev \<in> set (events d). es_event_id row = ev_event_id ev \<and> ev_org_id ev = sc_org_id sc \<and>
     (sc_user_id_filter sc = None \<or> sc_user_id_filter sc = Some [] \<or> ev_user_id ev = sc_user_id_filter sc)"

lemma listed_in_scope:
  assumes h: "listEventsHandler host d req = Inr resp" and sc: "resolveListScope req = Inr sc"
  shows "list_all (shown_in_scope sc d) (le_data (rs_data resp))"
proof -
  obtain q where q: "parseListQuery host (sc_org_id sc) req = Inr q"
    using h sc by (auto simp: listEventsHandler_def split: sum.splits)
  show ?thesis
  proof (cases "resolveUserId d sc")
    case None
    then show ?thesis using h sc q by (auto simp: listEventsHandler_def respond_def)
  next
    case (Some uid)
    have "sc_user_id_filter sc = None \<or> uid = sc_user_id_filter sc"
      using Some list_scope [OF sc] by (auto simp: resolveUserId_def truthy_def split: if_splits option.splits)
    then have user: "sc_user_id_filter sc = None \<or> sc_user_id_filter sc = Some [] \<or> ev_user_id ev = sc_user_id_filter sc"
      if "event_matches (q\<lparr>li_user_id := uid\<rparr>) ev" for ev
      using that by (cases uid) (auto simp: event_matches_def truthy_def)
    have "shown_in_scope sc d row" if "row \<in> set (le_data (rs_data resp))" for row
    proof -
      have "row \<in> set (le_data (queryList d (q\<lparr>li_user_id := uid\<rparr>)))"
        using h sc q Some that by (auto simp: listEventsHandler_def respond_def)
      then obtain ev where ev: "ev \<in> set (events d)" "event_matches (q\<lparr>li_user_id := uid\<rparr>) ev"
        "es_event_id row = ev_event_id ev"
        by (rule page_row) (auto simp: set_listing toSummary_def)
      then have "ev_org_id ev = sc_org_id sc" using parsed_org [OF q] by (simp add: event_matches_def)
      with ev user [OF ev(2)] show ?thesis by (intro bexI [of _ ev]) simp_all
    qed
    then show ?thesis by (simp add: list_all_iff)
  qed
qed

text \<open>
  C7. What a listing shows belongs to the sender. Every row of the answer is an event of the sender's
  organisation, and of the sender himself when he is a member; the sender is an active
  user with a valid session, or an active key with the permission to read of an active organisation.
\<close>

theorem listing_isolated:
  assumes "getEvents L e host cx b hits req s = (Inr resp, s')" and "rq_user req = None" and "rq_apiKey req = None"
  shows "\<exists>g only. reader L e (cx_now cx) (db s) req EVENTS_READ g only \<and>
    list_all (\<lambda>row. \<exists>ev \<in> set (events (db s)). es_event_id row = ev_event_id ev \<and> ev_org_id ev = g \<and>
      (only = None \<or> only = Some [] \<or> ev_user_id ev = only)) (le_data (rs_data resp))"
proof -
  obtain req' where auth: "authenticateFlexible L e cx b req s = (Inr req', s')"
    and h: "listEventsHandler host (db s') req' = Inr resp"
    using assms(1) unfolding getEvents_def by (rule reading_InrD)
  obtain sc where sc: "resolveListScope req' = Inr sc"
    using h by (auto simp: listEventsHandler_def split: sum.splits)
  note f = flexible_reader [OF auth assms(2,3), where g = "sc_org_id sc" and only = "sc_user_id_filter sc" and p = EVENTS_READ]
  have "reader L e (cx_now cx) (db s) req EVENTS_READ (sc_org_id sc) (sc_user_id_filter sc)"
    and "events (db s') = events (db s)"
    using f list_scope [OF sc] by blast+
  then show ?thesis using listed_in_scope [OF h sc] by (intro exI) simp
qed
definition demo_request :: request where
  "demo_request =
     \<lparr>rq_method = ''GET'', rq_originalUrl = ''/v1/events'', rq_session_cookie = None, rq_refresh_cookie = None,
      rq_header = (\<lambda>h. if h = ''x-api-key'' then Some demo_key else None),
      rq_params = (\<lambda>p. if p = ''event_id'' then Some ''6-0'' else None), rq_query = (\<lambda>q. None),
      rq_user = None, rq_apiKey = None\<rparr>"

lemma demo_request_fresh: "rq_user demo_request = None" "rq_apiKey demo_request = None"
  by (simp_all add: demo_request_def)

lemma demo_listing:
  "map_sum (\<lambda>_. ()) (\<lambda>r. length (le_data (rs_data r)))
     (fst (getEvents demo_libs demo_env no_host (demo_ctx 8 7000) False (1, 1) demo_request demo_ingested)) = Inr 1"
  by code_simp

lemma listing_isolated_witness:
  "\<exists>g only. reader demo_libs demo_env 7000 (db demo_ingested) demo_request EVENTS_READ g only"
proof -
  obtain resp s' where "getEvents demo_libs demo_env no_host (demo_ctx 8 7000) False (1, 1) demo_request demo_ingested = (Inr resp, s')"
    using demo_listing by (cases "getEvents demo_libs demo_env no_host (demo_ctx 8 7000) False (1, 1) demo_request demo_ingested")
      (auto simp: map_sum_def split: sum.splits)
  from listing_isolated [OF this demo_request_fresh] show ?thesis by (auto simp: demo_ctx_def)
qed

text \<open>
  C8. The detail of one event, too, is only given to a sender it belongs to: it is an event of the sender's
  organisation with the identifier asked for, and the sender's own when he is a member.
\<close>

theorem detail_isolated:
  assumes "getEvent L e cx b hits req s = (Inr resp, s')" and "rq_user req = None" and "rq_apiKey req = None"
  shows "\<exists>g only. reader L e (cx_now cx) (db s) req EVENTS_READ g only \<and>
    (\<exists>ev \<in> set (events (db s)). ev_event_id ev = event_id_param req \<and> dt_event_id (rs_data resp) = ev_event_id ev \<and>
       dt_org_id (rs_data resp) = g \<and> ev_org_id ev = g \<and> (only = None \<or> only = Some [] \<or> ev_user_id ev = only) \<and>
       decrypt L e (ev_prompt ev) = Inr (dt_prompt (rs_data resp)))"
proof -
  obtain req' where auth: "authenticateFlexible L e cx b req s = (Inr req', s')"
    and h: "getEventHandler L e (db s') req' = Inr resp"
    using assms(1) unfolding getEvent_def by (rule reading_InrD)
  obtain sc dt where sc: "resolveDetailScope EVENTS_READ req' = Inr sc"
    and dt: "getById L e (db s') (event_id_param req') (sc_org_id sc) (sc_user_id_filter sc) = Inr dt" "resp = respond 200 dt"
    using h by (auto simp: getEventHandler_def map_sum_def split: sum.splits)
  note f = flexible_reader [OF auth assms(2,3), where g = "sc_org_id sc" and only = "sc_user_id_filter sc" and p = EVENTS_READ]
  have reader: "reader L e (cx_now cx) (db s) req EVENTS_READ (sc_org_id sc) (sc_user_id_filter sc)"
    and same: "events (db s') = events (db s)"
    using f detail_scope [OF sc] by blast+
  have param: "event_id_param req' = event_id_param req"
  proof (cases "truthy (rq_session_cookie req)")
    case True
    then show ?thesis
      using auth authenticate_InrD by (fastforce simp: authenticateFlexible_def event_id_param_def)
  next
    case False
    then show ?thesis
      using auth requireApiKey_InrD by (fastforce simp: authenticateFlexible_def event_id_param_def split: if_splits)
  qed
  obtain ev p where ev: "findVisible (db s') (event_id_param req') (sc_org_id sc) (sc_user_id_filter sc) = Inr ev"
    "decrypt L e (ev_prompt ev) = Inr p" "dt_prompt dt = p" "dt_event_id dt = ev_event_id ev" "dt_org_id dt = ev_org_id ev"
    by (rule getById_InrD [OF dt(1)])
  note vis = findVisible_InrD [OF ev(1)]
  have "sc_user_id_filter sc = None \<or> sc_user_id_filter sc = Some [] \<or> ev_user_id ev = sc_user_id_filter sc"
    using vis(4) by (cases "sc_user_id_filter sc") (auto simp: truthy_def)
  then show ?thesis
    using reader ev vis(1-3)
    by (intro exI [of _ "sc_org_id sc"] exI [of _ "sc_user_id_filter sc"] conjI bexI [of _ ev])
      (simp_all add: dt(2) respond_def param same)
qed

lemma demo_detail_route:
  "map_sum (\<lambda>_. ()) (\<lambda>r. ()) (fst (getEvent demo_libs demo_env (demo_ctx 8 7000) False (1, 1) demo_request (snd demo_anchored))) = Inr ()"
  by code_simp

lemma detail_isolated_witness:
  "\<exists>g only. reader demo_libs demo_env 7000 (db (snd demo_anchored)) demo_request EVENTS_READ g only"
proof -
  obtain resp s' where "getEvent demo_libs demo_env (demo_ctx 8 7000) False (1, 1) demo_request (snd demo_anchored) = (Inr resp, s')"
    using demo_detail_route by (cases "getEvent demo_libs demo_env (demo_ctx 8 7000) False (1, 1) demo_request (snd demo_anchored)")
      (auto simp: map_sum_def split: sum.splits)
  from detail_isolated [OF this demo_request_fresh] show ?thesis by (auto simp: demo_ctx_def)
qed

section \<open>Pages\<close>


definition demo_query :: list_events_input where
  "demo_query =
     \<lparr>li_org_id = ''1-0'', li_user_id = None, li_page = 1, li_page_size = 20, li_sort_asc = False, li_status = None,
      li_from = None, li_to = None, li_workflow_id = None, li_model_id = None\<rparr>"


section \<open>API keys\<close>

text \<open>
  C28. A key that was just created works: it identifies the organisation it was made for, the user it was bound to,
  and exactly the permissions it was given, in an active organisation.
\<close>

theorem created_key_works:
  assumes "store_ok (db s)" and "createApiKey L cx input s = (Inr cr, s')"
    and "g \<in> set (organisations (db s))" and "o_org_id g = ci_org_id input" and "o_status g = OrgACTIVE"
  shows "\<exists>owner. key_owner (db s) input = Inr owner \<and>
    fst (validateApiKey L cx' touched (cr_api_key cr) s') =
      Inr \<lparr>vk_key_id = cr_key_id cr, vk_org_id = ci_org_id input, vk_user_id = owner,
           vk_permissions = (case ci_permissions input of None \<Rightarrow> [EVENTS_WRITE] | Some ps \<Rightarrow> ps)\<rparr> \<and>
    cr_key_prefix cr = take 8 (cr_api_key cr)"
proof -
  obtain owner where owner: "key_owner (db s) input = Inr owner"
    using assms(2) by (auto simp: createApiKey_def split: sum.splits)
  define perms where "perms = (case ci_permissions input of None \<Rightarrow> [EVENTS_WRITE] | Some ps \<Rightarrow> ps)"
  define k where "k = \<lparr>ak_key_id = cx_id cx 0, ak_org_id = ci_org_id input, ak_user_id = owner,
     ak_key_hash = hashSHA256 L (plaintext_key (cx_bytes cx)), ak_key_prefix = take 8 (plaintext_key (cx_bytes cx)),
     ak_name = ci_name input, ak_status = KeyACTIVE, ak_permissions = perms, ak_created_at = cx_now cx,
     ak_last_used_at = None\<rparr>"
  have ins: "insert_row api_key_constraints k (api_keys (db s)) = Inr (api_keys (db s'))"
    and cr: "cr = \<lparr>cr_key_id = ak_key_id k, cr_api_key = plaintext_key (cx_bytes cx),
      cr_key_prefix = take 8 (plaintext_key (cx_bytes cx)), cr_name = ak_name k, cr_permissions = perms,
      cr_created_at = ak_created_at k\<rparr>"
    and orgs: "organisations (db s') = organisations (db s)"
    using assms(2) unfolding perms_def k_def
    by (auto simp: createApiKey_def createApiKey_row_def owner map_sum_def Let_def split: sum.splits)
  have "unique_rows api_key_constraints (api_keys (db s'))"
    using insert_row_unique [OF _ ins] assms(1) by (simp add: store_ok_def)
  then have "distinct (map ak_key_hash (api_keys (db s')))"
    by (simp add: unique_rows_def api_key_constraints_def filter_map comp_def distinct_map) (simp add: inj_on_def)
  moreover have "k \<in> set (api_keys (db s'))" using insert_row_SomeD(1) [OF ins] by simp
  ultimately have "findApiKeyByHash (db s') (ak_key_hash k) = (if ak_status k = KeyACTIVE then Some k else None)"
    by (rule findApiKeyByHash_live)
  then have found: "findApiKeyByHash (db s') (hashSHA256 L (plaintext_key (cx_bytes cx))) = Some k" by (simp add: k_def)
  have "findOrgById (db s) (Some (o_org_id g)) = Some g"
    unfolding findOrgById_def using find_row_key [OF store_ok_keys(1) [OF assms(1)] assms(3)] by simp
  then have "findOrgById (db s') (Some (ak_org_id k)) = Some g" using assms(4) orgs by (simp add: findOrgById_def k_def)
  with found show ?thesis
    using owner assms(5) cr by (simp add: validateApiKey_def timingSafeEqual_def k_def perms_def)
qed

lemma demo_create_key:
  "\<exists>cr. createApiKey demo_libs (demo_ctx 5 6001) demo_key_input demo_active = (Inr cr, demo_keyed) \<and> cr_api_key cr = demo_key"
proof -
  have "\<not> isl (fst (createApiKey demo_libs (demo_ctx 5 6001) demo_key_input demo_active))" by code_simp
  then obtain cr where "fst (createApiKey demo_libs (demo_ctx 5 6001) demo_key_input demo_active) = Inr cr"
    by (cases "fst (createApiKey demo_libs (demo_ctx 5 6001) demo_key_input demo_active)") auto
  then have "createApiKey demo_libs (demo_ctx 5 6001) demo_key_input demo_active = (Inr cr, demo_keyed)"
    by (simp add: demo_keyed_def prod_eq_iff)
  then show ?thesis
    by (auto simp: createApiKey_def demo_key_def demo_ctx_def Let_def split: sum.splits)
qed

lemma demo_active_org:
  "\<exists>g \<in> set (organisations (db demo_active)). o_org_id g = ci_org_id demo_key_input \<and> o_status g = OrgACTIVE"
  by code_simp

lemma demo_active_ok: "store_ok (db demo_active)"
  using advancesD(3) [OF advances_timers demo_inv] by (simp add: demo_active_def)

lemma created_key_works_witness:
  "\<exists>vk. fst (validateApiKey demo_libs (demo_ctx 8 7000) True demo_key demo_keyed) = Inr vk \<and> vk_org_id vk = ''1-0''"
proof -
  obtain cr where cr: "createApiKey demo_libs (demo_ctx 5 6001) demo_key_input demo_active = (Inr cr, demo_keyed)"
    "cr_api_key cr = demo_key"
    using demo_create_key by blast
  obtain g where g: "g \<in> set (organisations (db demo_active))" "o_org_id g = ci_org_id demo_key_input" "o_status g = OrgACTIVE"
    using demo_active_org by blast
  from created_key_works [OF demo_active_ok cr(1) g, where cx' = "demo_ctx 8 7000" and touched = True] show ?thesis
    by (auto simp: cr(2) demo_key_input_def)
qed

text \<open>
  C29. A key that was revoked never works again: whatever happens after its revocation and however requests
  interleave, every check of the key that begins later is a refusal, and the refusal changes nothing.
\<close>

theorem revoked_key_refused:
  assumes "store_ok (db s0)" and "(serves L M e host C moves chainId)\<^sup>*\<^sup>* ([], w0, s0) (ps, w, s)"
    and "k \<in> set (api_keys (db s))" and "ak_key_hash k = hashSHA256 L key"
    and "revokeKey (ak_key_id k) (ak_org_id k) s = (Inr (), s1)"
    and "(serves L M e host C moves chainId)\<^sup>*\<^sup>* (ps, w, s1) (ps', w2, s2)"
  shows "validateApiKey L cx touched key s2 = (throw (AuthError ''Invalid API key'' ''INVALID_API_KEY''), s2)"
proof -
  note at = served_ok [OF assms(1,2)]
  have "accounts_later s s1" using advances_later [OF advances_keys(3) [of s "ak_key_id k" "ak_org_id k"]] assms(5) by simp
  note on = served_on [OF at(1,2) this assms(6)]
  have only: "k' = k" if "k' \<in> set (api_keys (db s))" "ak_key_id k' = ak_key_id k" for k'
    using distinct_map_eqD [OF store_ok_keys(12) [OF at(1)] that(1) assms(3) that(2)] .
  have "findApiKeyByIdAndOrg (db s) (ak_key_id k) (ak_org_id k) = Some k"
    unfolding findApiKeyByIdAndOrg_def by (rule find_row_unique) (use assms(3) only in auto)
  then have s1: "s1 = (if ak_status k = REVOKED then s else s\<lparr>db := revokeApiKey (db s) (ak_key_id k) (ak_org_id k)\<rparr>)"
    using assms(5) by (auto simp: revokeKey_def)
  have "\<exists>k1 \<in> set (api_keys (db s1)). key_later k k1 \<and> ak_status k1 = REVOKED"
  proof (cases "ak_status k = REVOKED")
    case False
    then have "k\<lparr>ak_status := REVOKED\<rparr> \<in> set (api_keys (db s1))"
      using assms(3) by (simp add: s1 revokeApiKey_def set_update_where)
    then show ?thesis by (rule bexI [rotated]) (simp add: key_later_def)
  qed (use assms(3) in \<open>auto simp: s1 intro: bexI [of _ k]\<close>)
  then obtain k1 where k1: "k1 \<in> set (api_keys (db s1))" "key_later k k1" "ak_status k1 = REVOKED" by blast
  then obtain k2 where k2: "k2 \<in> set (api_keys (db s2))" "key_later k1 k2"
    using serves_keys [OF assms(6) at(3)] by (auto simp: keys_later_def)
  show ?thesis
    by (rule revoked_is_refused [OF store_ok_keys(13) [OF on(2)] k2(1)]) (use k1 k2 assms(4) in \<open>auto simp: key_later_def\<close>)
qed

definition demo_revoked :: sys where
  "demo_revoked = snd (revokeKey ''5-0'' ''1-0'' demo_keyed)"

lemma demo_key_row:
  "\<exists>k \<in> set (api_keys (db demo_keyed)). ak_key_hash k = hashSHA256 demo_libs demo_key \<and> ak_key_id k = ''5-0'' \<and>
     ak_org_id k = ''1-0''"
  by code_simp

lemma revoked_key_refused_witness:
  "validateApiKey demo_libs (demo_ctx 8 7000) True demo_key demo_revoked =
    (throw (AuthError ''Invalid API key'' ''INVALID_API_KEY''), demo_revoked)"
proof -
  obtain k where k: "k \<in> set (api_keys (db demo_keyed))" "ak_key_hash k = hashSHA256 demo_libs demo_key"
    "ak_key_id k = ''5-0''" "ak_org_id k = ''1-0''"
    using demo_key_row by blast
  have "fst (revokeKey ''5-0'' ''1-0'' demo_keyed) = Inr ()"
    using k by (auto simp: revokeKey_def findApiKeyByIdAndOrg_def find_row_None_iff split: option.splits)
  then have "revokeKey (ak_key_id k) (ak_org_id k) demo_keyed = (Inr (), demo_revoked)"
    by (simp add: k(3,4) demo_revoked_def prod_eq_iff)
  from revoked_key_refused [OF demo_keyed_ok rtranclp.rtrancl_refl k(1,2) this rtranclp.rtrancl_refl]
  show ?thesis .
qed

section \<open>Who writes\<close>

lemma postEvents_InrD:
  assumes "postEvents L host cx touched hasService hits schema body req s = (Inr resp, s')"
  shows "\<exists>k g data. k \<in> set (api_keys (db s)) \<and>
    ak_key_hash k = hashSHA256 L (js_trim (the (rq_header req API_KEY_HEADER))) \<and> ak_status k = KeyACTIVE \<and>
    EVENTS_WRITE \<in> set (ak_permissions k) \<and> g \<in> set (organisations (db s)) \<and> o_org_id g = ak_org_id k \<and>
    o_status g = OrgACTIVE \<and> fst hits \<le> 50 \<and> snd hits \<le> 300 \<and> schema body = Inr data \<and>
    (ir_idempotent_replay (rs_data resp) \<or>
     (\<exists>ev \<in> set (events (db s')). ev_event_id ev = ir_event_id (rs_data resp) \<and> ev_org_id ev = ak_org_id k \<and>
        ev_api_key_id ev = Some (ak_key_id k) \<and> ev_user_id ev = ak_user_id k \<and> ev_prompt ev = eb_prompt data \<and>
        ev_output ev = eb_output data \<and> ev_model_id ev = eb_model_id data \<and> ev_status ev = PROCESSING))"
proof -
  obtain req1 s1 where key: "requireApiKey L cx touched req s = (Inr req1, s1)"
    using assms by (auto simp: postEvents_def split: prod.splits sum.splits)
  then obtain req2 where perm: "validateApiKeyPermission EVENTS_WRITE req1 = Inr req2"
    using assms by (auto simp: postEvents_def split: sum.splits)
  then obtain req3 where lim: "key_limits hits req2 = Inr req3"
    using assms key by (auto simp: postEvents_def split: sum.splits)
  then obtain data where data: "schema body = Inr data" "validateBody schema body = Inr data"
    using assms key perm by (cases "schema body") (auto simp: postEvents_def validateBody_def)
  have post: "createEventHandler host cx hasService data req3 s1 = (Inr resp, s')"
    using assms key perm lim data by (simp add: postEvents_def)
  obtain kc where kc: "validateApiKey L cx touched (js_trim (the (rq_header req API_KEY_HEADER))) s = (Inr kc, s1)"
    "req1 = req\<lparr>rq_apiKey := Some kc\<rparr>"
    by (rule requireApiKey_InrD [OF key])
  have reqs: "req2 = req1" "req3 = req1" "EVENTS_WRITE \<in> set (vk_permissions kc)" "fst hits \<le> 50" "snd hits \<le> 300"
    using permission_InrD [OF perm] lim kc(2)
    by (auto simp: key_limits_def rate_limited_def apiKeyBurstLimiter_def apiKeySustainedLimiter_def split: if_splits)
  obtain k g where k: "k \<in> set (api_keys (db s))" "ak_key_hash k = hashSHA256 L (js_trim (the (rq_header req API_KEY_HEADER)))"
    "ak_status k = KeyACTIVE" "g \<in> set (organisations (db s))" "o_org_id g = ak_org_id k" "o_status g = OrgACTIVE"
    "kc = \<lparr>vk_key_id = ak_key_id k, vk_org_id = ak_org_id k, vk_user_id = ak_user_id k, vk_permissions = ak_permissions k\<rparr>"
    by (rule validateApiKey_InrD [OF kc(1)])
  define input where "input = \<lparr>in_org_id = vk_org_id kc, in_api_key_id = vk_key_id kc, in_user_id = vk_user_id kc,
     in_payload = data, in_idempotency_key = idempotency_key req3\<rparr>"
  obtain r where ing: "ingest host cx hasService input s1 = (Inr r, s')" and r: "resp = respond 202 r"
    using post by (auto simp: createEventHandler_def reqs kc(2) input_def Let_def split: if_splits prod.splits sum.splits)
  have "ir_idempotent_replay r \<or>
     (\<exists>ev \<in> set (events (db s')). ev_event_id ev = ir_event_id r \<and> ev_org_id ev = ak_org_id k \<and>
        ev_api_key_id ev = Some (ak_key_id k) \<and> ev_user_id ev = ak_user_id k \<and> ev_prompt ev = eb_prompt data \<and>
        ev_output ev = eb_output data \<and> ev_model_id ev = eb_model_id data \<and> ev_status ev = PROCESSING)"
  proof (cases "ingest_find input (db s1)")
    case (Some rep)
    then show ?thesis
      using ing by (auto simp: ingest_def ingest_find_def split: if_splits option.splits)
  next
    case None
    then have "ingest_insert host cx hasService input s1 = (Inr r, s')" using ing by (simp add: ingest_def)
    then obtain t ev d where c: "createEvent (cx_now cx) (cx_id cx 0) (db s1) (event_row_input input t) = Inr (ev, d)"
      and r: "ir_event_id r = ev_event_id ev" and s': "db s' = d"
      by (rule ingest_insert_cases) auto
    have "ev_api_key_id ev = Some (ak_key_id k)" "ev_user_id ev = ak_user_id k"
      using c by (auto simp: createEvent_def event_row_input_def input_def k(7) Let_def map_sum_def split: sum.splits)
    then show ?thesis
      using createEvent_SomeD [OF c] r s'
      by (intro disjI2 bexI [of _ ev]) (simp_all add: event_row_input_def input_def k(7) Let_def)
  qed
  then show ?thesis using k reqs data by (auto simp: r respond_def)
qed

text \<open>
  C9. Only an active key with the permission to write, of an active organisation, ingests an event; and the
  event that is created belongs to the organisation, the key and the user of the key, has the content of
  the body, and waits to be processed.
\<close>

theorem ingestion_authorised:
  assumes "postEvents L host cx touched hasService hits schema body req s = (Inr resp, s')"
  shows "\<exists>k g data. k \<in> set (api_keys (db s)) \<and>
    ak_key_hash k = hashSHA256 L (js_trim (the (rq_header req API_KEY_HEADER))) \<and> ak_status k = KeyACTIVE \<and>
    EVENTS_WRITE \<in> set (ak_permissions k) \<and> g \<in> set (organisations (db s)) \<and> o_org_id g = ak_org_id k \<and>
    o_status g = OrgACTIVE \<and> fst hits \<le> 50 \<and> snd hits \<le> 300 \<and> schema body = Inr data \<and>
    (ir_idempotent_replay (rs_data resp) \<or>
     (\<exists>ev \<in> set (events (db s')). ev_event_id ev = ir_event_id (rs_data resp) \<and> ev_org_id ev = ak_org_id k \<and>
        ev_api_key_id ev = Some (ak_key_id k) \<and> ev_user_id ev = ak_user_id k \<and> ev_prompt ev = eb_prompt data \<and>
        ev_output ev = eb_output data \<and> ev_model_id ev = eb_model_id data \<and> ev_status ev = PROCESSING))"
  by (rule postEvents_InrD [OF assms])

definition demo_post :: request where
  "demo_post = demo_request\<lparr>rq_method := ''POST''\<rparr>"

lemma demo_post_ok:
  "map_sum (\<lambda>_. ()) rs_status (fst (postEvents demo_libs no_host (demo_ctx 6 6002) False True (1, 1)
     (\<lambda>j. Inr (in_payload demo_input)) JNull demo_post demo_keyed)) = Inr 202"
  by code_simp

lemma ingestion_authorised_witness:
  "\<exists>k \<in> set (api_keys (db demo_keyed)). ak_status k = KeyACTIVE \<and> EVENTS_WRITE \<in> set (ak_permissions k)"
proof -
  let ?post = "postEvents demo_libs no_host (demo_ctx 6 6002) False True (1, 1) (\<lambda>j. Inr (in_payload demo_input)) JNull
    demo_post demo_keyed"
  obtain resp where "fst ?post = Inr resp" using demo_post_ok by (cases "fst ?post") auto
  then have "?post = (Inr resp, snd ?post)" by (simp add: prod_eq_iff)
  from ingestion_authorised [OF this] show ?thesis by blast
qed

end
