(* ===== verification/AccountProperties.thy ===== *)
theory AccountProperties
  imports Demo
begin

text \<open>
  The properties of the account services when requests follow each other: what holds in every reachable state, and
  what a login with a one-time code takes and gives.
\<close>

section \<open>Properties\<close>



lemma demo_rotation:
  "rotateRefreshToken demo_libs demo_env (demo_ctx 2 1) demo_raw demo_sys = (Inr demo_session, demo_sys2)"
  by (simp add: demo_session_def demo_sys2_def prod_eq_iff) code_simp

section \<open>One-time codes\<close>

lemma issue_session_SomeD:
  assumes "issue_session L e cx i u p s = (Inr sn, s')"
  shows "insertRefreshToken (cx_now cx) i (db s) u (hashSHA256 L (refreshToken sn)) (cx_now cx + REFRESH_TOKEN_TTL_MS) = Inr (db s')"
    and "s' = s\<lparr>db := db s'\<rparr>" and "refreshToken sn = generateRefreshToken (cx_bytes cx)"
    and "sessionToken sn = signJwt L e (cx_now cx) p"
  using assms by (auto simp: issue_session_def Let_def split: sum.splits)

lemma issued_session_found:
  assumes "store_ok (db s)" and "issue_session L e cx i u p s = (Inr sn, s')"
  shows "findRefreshTokenByHash (cx_now cx) (db s') (hashSHA256 L (refreshToken sn)) =
    Some (new_refresh_token (cx_now cx) i u (hashSHA256 L (refreshToken sn)) (cx_now cx + REFRESH_TOKEN_TTL_MS))"
  using refresh.issued_is_found [OF assms(1), of "(cx_now cx, i, u, cx_now cx + REFRESH_TOKEN_TTL_MS)"
      "hashSHA256 L (refreshToken sn)" "db s'" "cx_now cx"] issue_session_SomeD(1) [OF assms(2)]
  by (simp add: issue_refresh_def fresh_refresh_def refresh_live_def new_refresh_token_def REFRESH_TOKEN_TTL_MS_def)

lemma insertRefreshToken_other:
  "insertRefreshToken now i d u h x = Inr d' \<Longrightarrow> \<exists>ts. d' = d\<lparr>refresh_tokens := ts\<rparr>"
  by (auto simp: insertRefreshToken_def map_sum_def split: sum.splits)

lemma verifyOtp_success:
  assumes "store_ok (db s)" and "verifyOtp L e cx email code s = (Inr res, s')"
  shows "\<exists>t u. findLatestOtpToken (cx_now cx) (db s) (hashSHA256 L (toLowerCase email)) = Some t \<and>
    otp_attempts t < 5 \<and> from_hex (otp_hash t) = from_hex (hashSHA256 L code) \<and>
    findUserByEmail (db s) email = Some u \<and> u_status u = UserACTIVE \<and>
    \<not> org_suspended (findOrgById (db s) (u_org_id u)) \<and>
    list_all (\<lambda>t'. otp_id t' \<noteq> otp_id t \<or> otp_used t') (otp_tokens (db s')) \<and>
    (case res of
       MfaRequired \<Rightarrow> u_mfa_enabled u \<and> refresh_tokens (db s') = refresh_tokens (db s)
     | Authenticated sn p \<Rightarrow>
         \<not> u_mfa_enabled u \<and> p = session_payload u \<and> sessionToken sn = signJwt L e (cx_now cx) p \<and>
         (\<exists>r. findRefreshTokenByHash (cx_now cx) (db s') (hashSHA256 L (refreshToken sn)) = Some r \<and>
              rt_user_id r = u_user_id u \<and> rt_expires_at r = cx_now cx + 7 * 24 * 60 * 60 * 1000))"
proof -
  obtain t where t: "findLatestOtpToken (cx_now cx) (db s) (hashSHA256 L (toLowerCase email)) = Some t"
    using assms(2) by (cases "findLatestOtpToken (cx_now cx) (db s) (hashSHA256 L (toLowerCase email))")
      (simp_all add: verifyOtp_def)
  define s1 where "s1 = s\<lparr>db := markOtpTokenUsed (db s) (otp_id t)\<rparr>"
  have v: "otp_attempts t < 5" "from_hex (otp_hash t) = from_hex (hashSHA256 L code)"
    "otp_session L e cx email s1 = (Inr res, s')"
    using assms(2)
    by (auto simp: verifyOtp_def t timingSafeEqual_def s1_def OTP_ATTEMPT_LIMIT_def split: if_splits)
  have same: "findUserByEmail (db s1) x = findUserByEmail (db s) x"
    "findOrgById (db s1) i = findOrgById (db s) i" "refresh_tokens (db s1) = refresh_tokens (db s)" for x i
    by (simp_all add: s1_def markOtpTokenUsed_def findUserByEmail_def findOrgById_def)
  have ok: "store_ok (db s1)"
    using assms(1) by (auto simp: s1_def markOtpTokenUsed_def store_ok_def otp_constraints_def
        intro!: unique_rows_update)
  have used: "list_all (\<lambda>t'. otp_id t' \<noteq> otp_id t \<or> otp_used t') (otp_tokens (db s1))"
    by (auto simp: s1_def markOtpTokenUsed_def list_all_iff set_update_where)
  obtain u where u: "findUserByEmail (db s) email = Some u" "u_status u = UserACTIVE"
    "\<not> org_suspended (findOrgById (db s) (u_org_id u))"
    using v(3) by (auto simp: otp_session_def same split: option.splits if_splits)
  show ?thesis
  proof (cases res)
    case MfaRequired
    then have "u_mfa_enabled u" "s' = s1"
      using v(3) u by (auto simp: otp_session_def same split: if_splits sum.splits prod.splits)
    then show ?thesis using t v(1,2) u used same(3) MfaRequired by auto
  next
    case (Authenticated sn p)
    then have nomfa: "\<not> u_mfa_enabled u" and p: "p = session_payload u"
      and iss: "issue_session L e cx (cx_id cx 0) (u_user_id u) (session_payload u) s1 = (Inr sn, s')"
      using v(3) u by (auto simp: otp_session_def same split: if_splits sum.splits prod.splits)
    have "otp_tokens (db s') = otp_tokens (db s1)"
      using insertRefreshToken_other [OF issue_session_SomeD(1) [OF iss]] by auto
    then show ?thesis
      using t v(1,2) u used nomfa p Authenticated issue_session_SomeD(4) [OF iss] issued_session_found [OF ok iss]
      by (auto simp: new_refresh_token_def REFRESH_TOKEN_TTL_MS_def)
  qed
qed

text \<open>
  C14. What a login with a one-time code takes and gives. It takes an unused and unexpired code
  stored for the address, tried fewer than five times, with the hash of the given one, and
  an active user with this address whose organisation is not suspended. The code is used up,
  and unless the user has a second factor, the session is the user's: the signed payload is
  the user's identity, and the refresh token is stored, live, for the user and for seven days.
\<close>

theorem verifyOtp_sound:
  assumes "store_ok (db s)" and "verifyOtp L e cx email code s = (Inr res, s')"
  shows "\<exists>t u. findLatestOtpToken (cx_now cx) (db s) (hashSHA256 L (toLowerCase email)) = Some t \<and>
    otp_attempts t < 5 \<and> from_hex (otp_hash t) = from_hex (hashSHA256 L code) \<and>
    findUserByEmail (db s) email = Some u \<and> u_status u = UserACTIVE \<and>
    \<not> org_suspended (findOrgById (db s) (u_org_id u)) \<and>
    list_all (\<lambda>t'. otp_id t' \<noteq> otp_id t \<or> otp_used t') (otp_tokens (db s')) \<and>
    (case res of
       MfaRequired \<Rightarrow> u_mfa_enabled u \<and> refresh_tokens (db s') = refresh_tokens (db s)
     | Authenticated sn p \<Rightarrow>
         \<not> u_mfa_enabled u \<and> p = session_payload u \<and> sessionToken sn = signJwt L e (cx_now cx) p \<and>
         (\<exists>r. findRefreshTokenByHash (cx_now cx) (db s') (hashSHA256 L (refreshToken sn)) = Some r \<and>
              rt_user_id r = u_user_id u \<and> rt_expires_at r = cx_now cx + 7 * 24 * 60 * 60 * 1000))"
  by (rule verifyOtp_success [OF assms])

lemma demo_verified_ok:
  "verifyOtp demo_libs demo_env (demo_ctx 3 2) ''a@x.io'' ''123456'' demo_login =
     (Inr (Authenticated \<lparr>sessionToken = ''1-1'', refreshToken = ''Aw''\<rparr> (session_payload demo_user)), snd demo_verified)"
  by (simp add: demo_verified_def prod_eq_iff) code_simp

lemma verifyOtp_sound_witness:
  "\<exists>t u. findLatestOtpToken 2 (db demo_login) (hashSHA256 demo_libs (toLowerCase ''a@x.io'')) = Some t \<and>
    otp_attempts t < 5 \<and> from_hex (otp_hash t) = from_hex (hashSHA256 demo_libs ''123456'') \<and>
    findUserByEmail (db demo_login) ''a@x.io'' = Some u \<and> u_status u = UserACTIVE"
  using verifyOtp_sound [OF _ demo_verified_ok] demo_login_inv
  by (fastforce simp: store_inv_def demo_ctx_def)

lemma demo_token_found:
  "findLatestOtpToken (cx_now (demo_ctx 3 2)) (db demo_login) (hashSHA256 demo_libs (toLowerCase ''a@x.io'')) = Some demo_token"
  by code_simp

text \<open>The user logs in again: the store then holds two codes, and the new one is found.\<close>

definition demo_again :: sys where
  "demo_again = snd (createEmailPasswordSession demo_libs demo_env (demo_ctx 4 3) ''a@x.io'' ''password'' None (snd demo_verified))"

definition demo_token2 :: otp_token where
  "demo_token2 = (case findLatestOtpToken 4 (db demo_again) (hashSHA256 demo_libs ''a@x.io'') of
     Some t \<Rightarrow> t | None \<Rightarrow> undefined)"

lemma demo_token2_found:
  "findLatestOtpToken 4 (db demo_again) (hashSHA256 demo_libs ''a@x.io'') = Some demo_token2"
  by code_simp

end
