(* ===== verification/SessionProperties.thy ===== *)
theory SessionProperties
  imports RouteProperties AccountProperties
begin

text \<open>
  The properties of sessions and of who may do what: whom a session token authenticates, that a session that was
  issued is accepted, who creates keys, and what the holder of a key reads.
\<close>

section \<open>Session tokens\<close>

text \<open>
  C21. A session token proves who someone is and nothing more: whoever is authenticated is an active user in the
  database now, with the identity the database has now, role and organisation included; and his
  organisation is not suspended, unless he asks for his own data or logs out.
\<close>

theorem authenticated_by_database:
  assumes "store_ok d" and "authenticate L e now d req = Inr req'"
  shows "\<exists>payload u. jwt_verify L (env_JWT_SECRET e) (the (rq_session_cookie req)) now = Some payload \<and>
    findUserById d (jp_user_id payload) = Some u \<and> u_status u = UserACTIVE \<and>
    rq_user req' = Some (session_payload u) \<and>
    (\<forall>g \<in> set (organisations d). u_org_id u = Some (o_org_id g) \<and> o_org_id g \<noteq> [] \<and> o_status g = SUSPENDED \<longrightarrow>
       allowed_when_suspended req)"
proof -
  obtain payload u where u: "jwt_verify L (env_JWT_SECRET e) (the (rq_session_cookie req)) now = Some payload"
    "u \<in> set (users d)" "u_user_id u = jp_user_id payload" "u_status u = UserACTIVE"
    "req' = req\<lparr>rq_user := Some (session_payload u)\<rparr>"
    "truthy (u_org_id u) \<longrightarrow> org_suspended (findOrgById d (u_org_id u)) \<longrightarrow> allowed_when_suspended req"
    by (rule authenticate_InrD [OF assms(2)])
  have found: "findUserById d (jp_user_id payload) = Some u"
    unfolding findUserById_def u(3) [symmetric] by (rule find_row_key [OF store_ok_keys(3) [OF assms(1)] u(2)])
  have "allowed_when_suspended req"
    if g: "g \<in> set (organisations d)" "u_org_id u = Some (o_org_id g)" "o_org_id g \<noteq> []" "o_status g = SUSPENDED" for g
  proof -
    have "findOrgById d (u_org_id u) = Some g"
      using find_row_key [OF store_ok_keys(1) [OF assms(1)] g(1)] by (simp add: findOrgById_def g(2))
    then show ?thesis using u(6) g by (simp add: truthy_def org_suspended_def)
  qed
  with u found show ?thesis by auto
qed

definition demo_session_request :: request where
  "demo_session_request = demo_request\<lparr>rq_session_cookie := Some ''1-1''\<rparr>"

lemma demo_authenticated:
  "\<exists>req'. authenticate demo_libs demo_env 7000 (db demo_active) demo_session_request = Inr req'"
proof -
  have "\<not> isl (authenticate demo_libs demo_env 7000 (db demo_active) demo_session_request)" by code_simp
  then show ?thesis by (cases "authenticate demo_libs demo_env 7000 (db demo_active) demo_session_request") auto
qed

lemma authenticated_by_database_witness:
  "\<exists>u req'. authenticate demo_libs demo_env 7000 (db demo_active) demo_session_request = Inr req' \<and>
     rq_user req' = Some (session_payload u) \<and> u_status u = UserACTIVE"
  using demo_authenticated authenticated_by_database [OF demo_active_ok] by blast

text \<open>What \<open>jsonwebtoken\<close> promises: a token is verified with the identity it was signed for until it expires.\<close>

definition jwt_correct :: "libs \<Rightarrow> bool" where
  "jwt_correct L \<longleftrightarrow> (\<forall>secret p iat exp now. now < exp \<longrightarrow>
     map_option jp_user_id (jwt_verify L secret (jwt_sign L secret p iat exp) now) = Some (jp_user_id p))"

text \<open>
  C22. A session that was issued is accepted: for a day, whatever happened in between and however requests interleaved, the session token of a
  login with a code authenticates its user, as long as he is active and his organisation is not
  suspended, with the role he has then.
\<close>

theorem session_accepted:
  assumes "jwt_correct L" and "verifyOtp L e cx email code s = (Inr (Authenticated sn p), s1)"
    and "store_ok (db s0)" and "(serves L M e host C moves chainId)\<^sup>*\<^sup>* ([], w0, s0) (ps, w, s)"
    and "(serves L M e host C moves chainId)\<^sup>*\<^sup>* (ps, w, s1) (ps', w2, s2)"
    and "u \<in> set (users (db s2))" and "u_user_id u = jp_user_id p" and "u_status u = UserACTIVE"
    and "\<not> org_suspended (findOrgById (db s2) (u_org_id u))"
    and "now < cx_now cx + 24 * 60 * 60 * 1000"
    and "rq_session_cookie req = Some (sessionToken sn)" and "sessionToken sn \<noteq> []"
  shows "authenticate L e now (db s2) req = Inr (req\<lparr>rq_user := Some (session_payload u)\<rparr>)"
proof -
  note at = served_ok [OF assms(3,4)]
  have "accounts_later s s1" using advances_later [OF advances_verifyOtp] assms(2) by (metis snd_conv)
  note on = served_on [OF at(1,2) this assms(5)]
  have "sessionToken sn = signJwt L e (cx_now cx) p"
    using verifyOtp_success [OF at(1) assms(2)] by auto
  then have "map_option jp_user_id (jwt_verify L (env_JWT_SECRET e) (sessionToken sn) now) = Some (jp_user_id p)"
    using assms(1,10) by (simp add: signJwt_def jwt_correct_def)
  then obtain payload where payload: "jwt_verify L (env_JWT_SECRET e) (sessionToken sn) now = Some payload"
    "jp_user_id payload = jp_user_id p" by auto
  have "findUserById (db s2) (jp_user_id payload) = Some u"
    unfolding findUserById_def payload(2) assms(7) [symmetric]
    by (rule find_row_key [OF store_ok_keys(3) [OF on(2)] assms(6)])
  then show ?thesis
    using assms(8,9,11,12) payload(1) by (simp add: authenticate_def truthy_def)
qed

lemma demo_jwt: "jwt_correct demo_libs"
  by (simp add: jwt_correct_def demo_libs_def toy_libs_def)

lemma demo_admin:
  "\<exists>u \<in> set (users (db (snd demo_verified))). u_user_id u = ''1-1'' \<and> u_status u = UserACTIVE \<and>
     \<not> org_suspended (findOrgById (db (snd demo_verified)) (u_org_id u))"
  by code_simp

lemma session_accepted_witness:
  "\<exists>u. authenticate demo_libs demo_env 7000 (db (snd demo_verified)) demo_session_request =
     Inr (demo_session_request\<lparr>rq_user := Some (session_payload u)\<rparr>)"
proof -
  obtain u where u: "u \<in> set (users (db (snd demo_verified)))" "u_user_id u = ''1-1''" "u_status u = UserACTIVE"
    "\<not> org_suspended (findOrgById (db (snd demo_verified)) (u_org_id u))"
    using demo_admin by blast
  have id: "u_user_id u = jp_user_id (session_payload demo_user)"
  proof -
    have "jp_user_id (session_payload demo_user) = ''1-1''" by code_simp
    with u(2) show ?thesis by simp
  qed
  have "(7000::int) < cx_now (demo_ctx 3 2) + 24 * 60 * 60 * 1000" by (simp add: demo_ctx_def)
  moreover have "store_ok (db demo_login)" using demo_login_inv by (simp add: store_inv_def)
  ultimately have "authenticate demo_libs demo_env 7000 (db (snd demo_verified)) demo_session_request =
      Inr (demo_session_request\<lparr>rq_user := Some (session_payload u)\<rparr>)"
    using session_accepted [OF demo_jwt demo_verified_ok _ rtranclp.rtrancl_refl rtranclp.rtrancl_refl u(1) id u(3,4),
        of 7000 demo_session_request] by (simp add: demo_session_request_def)
  then show ?thesis by blast
qed

section \<open>Who manages keys\<close>

text \<open>
  C30. Only an administrator creates a key, and only for his own organisation: the sender of a request that
  succeeds is an active user with that role in the database, and the key that is stored belongs to his organisation; a
  user it is bound to is an active member of it.
\<close>

theorem admin_creates_keys:
  assumes "postApiKeys L e cx hits schema body req s = (Inr resp, s')"
  shows "\<exists>payload u g k. jwt_verify L (env_JWT_SECRET e) (the (rq_session_cookie req)) (cx_now cx) = Some payload \<and>
    u \<in> set (users (db s)) \<and> u_user_id u = jp_user_id payload \<and> u_status u = UserACTIVE \<and> ADMIN \<le> u_role u \<and>
    u_org_id u = Some g \<and> api_keys (db s') = api_keys (db s) @ [k] \<and> ak_org_id k = g \<and> ak_status k = KeyACTIVE \<and>
    ak_key_hash k = hashSHA256 L (cr_api_key (rs_data resp)) \<and>
    (ak_user_id k = None \<or>
     (\<exists>m \<in> set (users (db s)). ak_user_id k = Some (u_user_id m) \<and> u_org_id m = Some g \<and> u_status m = UserACTIVE))"
proof -
  obtain req1 where gate: "admin_gate L e (cx_now cx) hits (db s) req = Inr req1"
    using assms by (auto simp: postApiKeys_def split: sum.splits)
  obtain data where data: "validateBody schema body = Inr data"
    and create: "createKeyHandler L cx data req1 s = (Inr resp, s')"
    using assms gate by (auto simp: postApiKeys_def split: sum.splits)
  obtain req0 where auth: "authenticate L e (cx_now cx) (db s) req = Inr req0"
    and authz: "authorize [ADMIN, SUPER_ADMIN] req0 = Inr req0" and same: "req1 = req0"
    using gate authorize_InrD rate_limited_InrD by (fastforce simp: admin_gate_def split: sum.splits)
  obtain payload u where u: "jwt_verify L (env_JWT_SECRET e) (the (rq_session_cookie req)) (cx_now cx) = Some payload"
    "u \<in> set (users (db s))" "u_user_id u = jp_user_id payload" "u_status u = UserACTIVE"
    "req0 = req\<lparr>rq_user := Some (session_payload u)\<rparr>"
    by (rule authenticate_InrD [OF auth])
  have role: "ADMIN \<le> u_role u"
    using authorize_InrD [OF authz] u(5) by (auto simp: session_payload_def less_eq_user_role_def)
  obtain g where g: "u_org_id u = Some g" "resolveOrgId req1 = Inr g"
    using create u(5) same truthy_the by (fastforce simp: createKeyHandler_def resolveOrgId_def session_payload_def split: if_splits)
  define input where "input = \<lparr>ci_org_id = g, ci_email = kb_email data, ci_permissions = Some (kb_permissions data), ci_name = kb_name data\<rparr>"
  obtain cr where cr: "createApiKey L cx input s = (Inr cr, s')" "resp = respond 201 cr"
    using create g(2) by (cases "createApiKey L cx input s")
      (auto simp: createKeyHandler_def map_op_def input_def map_sum_def split: sum.splits)
  obtain owner where owner: "key_owner (db s) input = Inr owner"
    using cr(1) by (auto simp: createApiKey_def split: sum.splits)
  define k where "k = \<lparr>ak_key_id = cx_id cx 0, ak_org_id = g, ak_user_id = owner,
     ak_key_hash = hashSHA256 L (plaintext_key (cx_bytes cx)), ak_key_prefix = take 8 (plaintext_key (cx_bytes cx)),
     ak_name = kb_name data, ak_status = KeyACTIVE, ak_permissions = kb_permissions data, ak_created_at = cx_now cx,
     ak_last_used_at = None\<rparr>"
  have row: "api_keys (db s') = api_keys (db s) @ [k]" "cr_api_key cr = plaintext_key (cx_bytes cx)"
    using cr(1) unfolding input_def k_def
    by (auto simp: createApiKey_def createApiKey_row_def owner [unfolded input_def] map_sum_def Let_def
        dest!: insert_row_SomeD(1) split: sum.splits)
  have "owner = None \<or> (\<exists>m \<in> set (users (db s)). owner = Some (u_user_id m) \<and> u_org_id m = Some g \<and> u_status m = UserACTIVE)"
    using owner by (auto simp: key_owner_def input_def findUserByEmailAndOrg_def dest!: find_row_SomeD
        split: if_splits option.splits)
  then show ?thesis
    using u(1-4) role g(1) row cr(2)
    by (intro exI [of _ payload] exI [of _ u] exI [of _ g] exI [of _ k]) (auto simp: k_def respond_def)
qed

lemma demo_post_key:
  "map_sum (\<lambda>_. ()) rs_status (fst (postApiKeys demo_libs demo_env (demo_ctx 5 6001) 1
     (\<lambda>j. Inr \<lparr>kb_permissions = [EVENTS_READ], kb_email = Some ''a@x.io'', kb_name = None\<rparr>) JNull
     demo_session_request demo_active)) = Inr 201"
  by code_simp

lemma admin_creates_keys_witness:
  "\<exists>u \<in> set (users (db demo_active)). u_status u = UserACTIVE \<and> ADMIN \<le> u_role u"
proof -
  let ?post = "postApiKeys demo_libs demo_env (demo_ctx 5 6001) 1
    (\<lambda>j. Inr \<lparr>kb_permissions = [EVENTS_READ], kb_email = Some ''a@x.io'', kb_name = None\<rparr>) JNull
    demo_session_request demo_active"
  obtain resp where "fst ?post = Inr resp" using demo_post_key by (cases "fst ?post") auto
  then have "?post = (Inr resp, snd ?post)" by (simp add: prod_eq_iff)
  from admin_creates_keys [OF this] show ?thesis by blast
qed

section \<open>Keys and administrators\<close>

lemma flexible_query:
  assumes "authenticateFlexible L e cx b req s = (Inr req', s')"
  shows "rq_query req' = rq_query req \<and> events (db s') = events (db s) \<and> users (db s') = users (db s)"
proof (cases "truthy (rq_session_cookie req)")
  case True
  then have a: "s' = s" "authenticate L e (cx_now cx) (db s) req = Inr req'"
    using assms unfolding authenticateFlexible_def if_P [OF True] prod.inject by metis+
  obtain u where "req' = req\<lparr>rq_user := Some (session_payload u)\<rparr>"
    by (rule authenticate_InrD [OF a(2)])
  with a(1) show ?thesis by simp
next
  case False
  then have "requireApiKey L cx b req s = (Inr req', s')"
    using assms by (auto simp: authenticateFlexible_def split: if_splits)
  then obtain kc where kc: "validateApiKey L cx b (js_trim (the (rq_header req API_KEY_HEADER))) s = (Inr kc, s')"
    "req' = req\<lparr>rq_apiKey := Some kc\<rparr>"
    by (rule requireApiKey_InrD)
  then show ?thesis using touch_reads [OF kc(1)] by simp
qed

lemma queryList_cong:
  "events d' = events d \<Longrightarrow> users d' = users d \<Longrightarrow> queryList d' q = queryList d q"
  unfolding queryList_def listEvents_def findUsersByIds_def by (simp only:)

lemma listing_of_scope:
  assumes "resolveListScope r = Inr \<lparr>sc_org_id = g, sc_user_id_filter = None, sc_email_filter = None\<rparr>"
    and "resolveListScope r' = Inr \<lparr>sc_org_id = g, sc_user_id_filter = None, sc_email_filter = None\<rparr>"
    and "rq_query r = rq_query r'" and "events d' = events d" and "users d' = users d"
  shows "listEventsHandler host d' r = listEventsHandler host d r'"
proof -
  have "parseListQuery host g r = parseListQuery host g r'"
    unfolding parseListQuery_def assms(3) ..
  then show ?thesis
    by (simp add: listEventsHandler_def assms(1,2) resolveUserId_def truthy_def queryList_cong [OF assms(4,5)] split: sum.split)
qed


lemma demo_admin_side:
  "map_sum (\<lambda>_. ()) (\<lambda>r. case rq_user r of None \<Rightarrow> False | Some u \<Rightarrow> jp_org_id u = Some ''1-0'' \<and> jp_role u \<noteq> MEMBER)
     (fst (authenticateFlexible demo_libs demo_env (demo_ctx 8 7000) False demo_session_request demo_ingested)) = Inr True"
  by code_simp

lemma demo_key_side:
  "map_sum (\<lambda>_. ()) (\<lambda>r. rq_user r = None \<and> (case rq_apiKey r of None \<Rightarrow> False
       | Some kc \<Rightarrow> vk_org_id kc = ''1-0'' \<and> EVENTS_READ \<in> set (vk_permissions kc)))
     (fst (authenticateFlexible demo_libs demo_env (demo_ctx 8 7000) False demo_request demo_ingested)) = Inr True"
  by code_simp


end
