(* ===== verification/Activation.thy ===== *)
theory Activation
  imports SessionProperties
begin

text \<open>
  The life of an organisation: what a sign-up creates, what is left when its payment page cannot be made, when
  it becomes active, and that in production it never does. And the enrolment of a second factor.
\<close>

section \<open>Signing up\<close>

definition signup_user :: "ctx \<Rightarrow> string \<times> string option \<times> string option \<Rightarrow> user" where
  "signup_user cx = (\<lambda>(email, password, google).
     new_user (cx_now cx) (cx_id cx 1)
       \<lparr>ud_email = email, ud_password_hash = password, ud_google_sub = google, ud_org_id = Some (cx_id cx 0),
        ud_role = ADMIN, ud_invited_by = None, ud_status = UserACTIVE, ud_mfa_enabled = False\<rparr>)"

abbreviation signup_org :: "ctx \<Rightarrow> create_org_body \<Rightarrow> organisation" where
  "signup_org cx body \<equiv> new_organisation (cx_now cx) (cx_id cx 0) (cb_org_name body)"

lemma issue_session_result:
  "(\<exists>err. issue_session L e cx i u p s = (Inl err, s)) \<or>
   (\<exists>ts. issue_session L e cx i u p s =
      (Inr \<lparr>sessionToken = signJwt L e (cx_now cx) p, refreshToken = generateRefreshToken (cx_bytes cx)\<rparr>,
       s\<lparr>db := (db s)\<lparr>refresh_tokens := ts\<rparr>\<rparr>))"
  by (auto simp: issue_session_def insertRefreshToken_def Let_def map_sum_def split: sum.split)

lemma signup_rows:
  "(\<exists>err. createOrgWithAdmin (cx_now cx) (cx_id cx 0) (cx_id cx 1) d
      \<lparr>co_orgName = cb_org_name body, co_adminEmail = email, co_passwordHash = pw, co_googleSub = sub\<rparr> = Inl err) \<or>
   createOrgWithAdmin (cx_now cx) (cx_id cx 0) (cx_id cx 1) d
      \<lparr>co_orgName = cb_org_name body, co_adminEmail = email, co_passwordHash = pw, co_googleSub = sub\<rparr> =
     Inr ((signup_org cx body, signup_user cx (email, pw, sub)),
       d\<lparr>organisations := organisations d @ [signup_org cx body],
         users := users d @ [signup_user cx (email, pw, sub)]\<rparr>)"
  by (auto simp: createOrgWithAdmin_def signup_user_def Let_def dest!: insert_row_SomeD(1) split: sum.split)

lemma signup_payload:
  "\<lparr>jp_user_id = u_user_id (signup_user cx (email, pw, sub)), jp_org_id = Some (cx_id cx 0),
     jp_role = u_role (signup_user cx (email, pw, sub)), jp_email = email\<rparr> =
   session_payload (signup_user cx (email, pw, sub))"
  by (simp add: session_payload_def signup_user_def new_user_def)

lemma signup_org_id [simp]: "o_org_id (new_organisation now i name) = i"
  by (simp add: new_organisation_def)

lemma schedule_db: "(schedule_activation e cx i s)\<lparr>db := d\<rparr> = schedule_activation e cx i (s\<lparr>db := d\<rparr>)"
  by (simp add: schedule_activation_def)

text \<open>What a sign-up answers and leaves, once its rows are stored.\<close>

definition signed_up ::
    "libs \<Rightarrow> env \<Rightarrow> ctx \<Rightarrow> create_org_body \<Rightarrow> user \<Rightarrow> sys \<Rightarrow> create_org_result result \<times> sys \<Rightarrow> bool" where
  "signed_up L e cx body u s = (\<lambda>(r, s1). \<exists>d. s1 = schedule_activation e cx (cx_id cx 0) (s\<lparr>db := d\<rparr>) \<and>
     organisations d = organisations (db s) @ [signup_org cx body] \<and> users d = users (db s) @ [u] \<and>
     (\<forall>out. r = Inr out \<longrightarrow> cr_org out = signup_org cx body \<and> cr_user out = session_payload u \<and>
        checkout_url e cx = Inr (cr_stripeCheckoutUrl out) \<and>
        sessionToken (cr_session out) = signJwt L e (cx_now cx) (session_payload u)))"

lemma createOrg_signed_up:
  fixes cx :: ctx and body :: create_org_body and s :: sys and email :: string and pw sub :: "string option"
  defines "u \<equiv> signup_user cx (email, pw, sub)"
  defines "d \<equiv> (db s)\<lparr>organisations := organisations (db s) @ [signup_org cx body], users := users (db s) @ [u]\<rparr>"
  assumes "findOrgByName (db s) (cb_org_name body) = None" and "admin_identity L cx body = Inr (email, pw, sub)"
    and "findUserByEmail (db s) email = None"
    and "createOrgWithAdmin (cx_now cx) (cx_id cx 0) (cx_id cx 1) (db s)
      \<lparr>co_orgName = cb_org_name body, co_adminEmail = email, co_passwordHash = pw, co_googleSub = sub\<rparr> =
      Inr ((signup_org cx body, u), d)"
  shows "signed_up L e cx body u s (createOrg L e cx body s)"
proof -
  let ?s = "schedule_activation e cx (cx_id cx 0) (s\<lparr>db := d\<rparr>)"
  have p: "\<lparr>jp_user_id = u_user_id u, jp_org_id = Some (cx_id cx 0), jp_role = u_role u, jp_email = email\<rparr> = session_payload u"
    unfolding u_def by (rule signup_payload)
  note step = createOrg_def assms(3-6) p Let_def
  show ?thesis
  proof (cases "checkout_url e cx")
    case (Inl err)
    then have "createOrg L e cx body s = (Inl err, ?s)" by (simp add: step del: One_nat_def)
    then show ?thesis by (auto simp: signed_up_def d_def)
  next
    case (Inr url)
    consider err where "issue_session L e cx (cx_id cx 2) (u_user_id u) (session_payload u) ?s = (Inl err, ?s)"
      | sn ts where "issue_session L e cx (cx_id cx 2) (u_user_id u) (session_payload u) ?s =
          (Inr sn, ?s\<lparr>db := (db ?s)\<lparr>refresh_tokens := ts\<rparr>\<rparr>)"
        "sessionToken sn = signJwt L e (cx_now cx) (session_payload u)"
      using issue_session_result [of L e cx "cx_id cx 2" "u_user_id u" "session_payload u" ?s] by fastforce
    then show ?thesis
    proof cases
      case 1
      then have "createOrg L e cx body s = (Inl err, ?s)" using Inr by (simp add: step del: One_nat_def)
      then show ?thesis by (auto simp: signed_up_def d_def)
    next
      case 2
      then have "createOrg L e cx body s = (Inr \<lparr>cr_org = signup_org cx body, cr_stripeCheckoutUrl = url, cr_session = sn,
          cr_user = session_payload u\<rparr>, schedule_activation e cx (cx_id cx 0) (s\<lparr>db := d\<lparr>refresh_tokens := ts\<rparr>\<rparr>))"
        using Inr by (simp add: step schedule_db del: One_nat_def)
      then show ?thesis using 2(2) Inr by (fastforce simp: signed_up_def d_def)
    qed
  qed
qed

text \<open>A sign-up is refused and changes nothing, or leaves the organisation and its administrator.\<close>

lemma createOrg_cases:
  obtains err where "createOrg L e cx body s = (Inl err, s)"
  | email pw sub where "findOrgByName (db s) (cb_org_name body) = None"
    "admin_identity L cx body = Inr (email, pw, sub)" "findUserByEmail (db s) email = None"
    "signed_up L e cx body (signup_user cx (email, pw, sub)) s (createOrg L e cx body s)"
proof -
  consider err where "createOrg L e cx body s = (Inl err, s)"
    | email pw sub where "findOrgByName (db s) (cb_org_name body) = None"
      "admin_identity L cx body = Inr (email, pw, sub)" "findUserByEmail (db s) email = None"
  proof (cases "findOrgByName (db s) (cb_org_name body)")
    case name: None
    show ?thesis
    proof (cases "admin_identity L cx body")
      case ident: (Inr a)
      obtain email pw sub where a: "a = (email, pw, sub)" by (cases a)
      show ?thesis
      proof (cases "findUserByEmail (db s) email")
        case None
        with name ident a show ?thesis by (intro that(2)) simp_all
      qed (rule that(1), simp add: createOrg_def name ident a)
    qed (rule that(1), simp add: createOrg_def name)
  qed (rule that(1), simp add: createOrg_def)
  then show ?thesis
  proof cases
    case (2 email pw sub)
    from signup_rows [of cx "db s" body email pw sub] show ?thesis
    proof (elim disjE exE)
      fix err assume "createOrgWithAdmin (cx_now cx) (cx_id cx 0) (cx_id cx 1) (db s)
        \<lparr>co_orgName = cb_org_name body, co_adminEmail = email, co_passwordHash = pw, co_googleSub = sub\<rparr> = Inl err"
      then show ?thesis using 2 by (intro that(1) [of err]) (simp add: createOrg_def del: One_nat_def)
    qed (rule that(2) [OF 2 createOrg_signed_up [OF 2]])
  qed (rule that(1))
qed

lemma signup_user_simps [simp]:
  "u_user_id (signup_user cx a) = cx_id cx 1" "u_org_id (signup_user cx a) = Some (cx_id cx 0)"
  "u_email (signup_user cx a) = fst a" "u_password_hash (signup_user cx a) = fst (snd a)"
  "u_google_sub (signup_user cx a) = snd (snd a)" "u_role (signup_user cx a) = ADMIN"
  "u_status (signup_user cx a) = UserACTIVE" "u_mfa_enabled (signup_user cx a) = False"
  by (simp_all add: signup_user_def new_user_def split: prod.split)

text \<open>
  A sign-up whose payment page cannot be made, or whose session cannot be stored, fails, but its organisation stays: from then
  on the name is taken, also for the one who just tried.
\<close>

lemma failed_signup_takes_name:
  assumes "createOrg L e cx body s = (Inl err, s1)" and "s1 \<noteq> s"
    and "cb_org_name body' = cb_org_name body"
  shows "createOrg L e cx' body' s1 = (throw (ConflictError ''Organisation name already taken'' ''CONFLICT''), s1)"
proof (cases rule: createOrg_cases [of L e cx body s])
  case (2 email pw sub)
  have "organisations (db s1) = organisations (db s) @ [signup_org cx body]"
    using 2(4) assms(1) by (auto simp: signed_up_def)
  then have "findOrgByName (db s1) (cb_org_name body') \<noteq> None"
    by (auto simp: findOrgByName_def find_row_None_iff assms(3) new_organisation_def)
  then show ?thesis by (simp add: createOrg_def)
qed (use assms in simp)

definition demo_stripe_env :: env where
  "demo_stripe_env = demo_env\<lparr>env_SKIP_SES := None\<rparr>"

definition demo_stripe_ctx :: ctx where
  "demo_stripe_ctx = (demo_ctx 1 0)\<lparr>cx_checkout := Inl (Native ''stripe is down'' None)\<rparr>"

definition demo_stripe_sys :: sys where
  "demo_stripe_sys = snd (createOrg demo_libs demo_stripe_env demo_stripe_ctx demo_body initial_sys)"

lemma failed_signup_retried:
  "createOrg demo_libs demo_stripe_env (demo_ctx 2 1) demo_body demo_stripe_sys =
     (throw (ConflictError ''Organisation name already taken'' ''CONFLICT''), demo_stripe_sys)"
proof -
  have "organisations (db demo_stripe_sys) \<noteq> organisations (db initial_sys)" by code_simp
  then have "demo_stripe_sys \<noteq> initial_sys" by auto
  moreover have "fst (createOrg demo_libs demo_stripe_env demo_stripe_ctx demo_body initial_sys) =
      Inl (Native ''stripe is down'' None)" by code_simp
  then have "createOrg demo_libs demo_stripe_env demo_stripe_ctx demo_body initial_sys =
      (Inl (Native ''stripe is down'' None), demo_stripe_sys)"
    by (simp add: prod_eq_iff demo_stripe_sys_def)
  ultimately show ?thesis by (intro failed_signup_takes_name) simp_all
qed

lemma activate_all:
  assumes "g \<in> set (organisations d)"
    and "o_status g = OrgACTIVE \<or> o_status g = PAYMENT_PENDING \<and> o_org_id g \<in> snd ` set ts"
  shows "\<exists>g' \<in> set (organisations (foldl (\<lambda>d t. activateOrgById now d (snd t)) d ts)).
    o_org_id g' = o_org_id g \<and> o_name g' = o_name g \<and> o_status g' = OrgACTIVE"
  using assms
proof (induction ts arbitrary: d g)
  case (Cons t ts)
  let ?d = "activateOrgById now d (snd t)"
  let ?g = "if o_org_id g = snd t \<and> o_status g = PAYMENT_PENDING
    then g\<lparr>o_status := OrgACTIVE, o_subscription_status := SubACTIVE, o_updated_at := now\<rparr> else g"
  have "?g \<in> set (organisations ?d)"
    using Cons.prems(1) by (auto simp: activateOrgById_def set_update_where)
  moreover have "o_status ?g = OrgACTIVE \<or> o_status ?g = PAYMENT_PENDING \<and> o_org_id ?g \<in> snd ` set ts"
    using Cons.prems(2) by auto
  ultimately have "\<exists>g' \<in> set (organisations (foldl (\<lambda>d t. activateOrgById now d (snd t)) ?d ts)).
      o_org_id g' = o_org_id ?g \<and> o_name g' = o_name ?g \<and> o_status g' = OrgACTIVE"
    by (rule Cons.IH)
  then show ?case by (simp split: if_splits)
qed auto

lemma activated_by_timer:
  assumes "g \<in> set (organisations (db s))" and "o_status g = PAYMENT_PENDING"
    and "(t, o_org_id g) \<in> set (timers s)" and "t \<le> now"
  shows "\<exists>g' \<in> set (organisations (db (fire_timers now s))).
    o_org_id g' = o_org_id g \<and> o_name g' = o_name g \<and> o_status g' = OrgACTIVE"
  unfolding fire_timers_def using assms by (simp, intro activate_all) (force simp: image_iff)+

text \<open>
  C31. What a sign-up gives: a pending organisation and its administrator, nobody else's data changed, a session that
  authenticates the administrator for a day; and outside production the organisation is active once the timer that was set
  has fired.
\<close>

theorem organisation_signup:
  assumes "store_inv (db s)" and "jwt_correct L" and "createOrg L e cx body s = (Inr out, s1)"
  shows "\<exists>u. organisations (db s1) = organisations (db s) @ [cr_org out] \<and> users (db s1) = users (db s) @ [u] \<and>
    o_name (cr_org out) = cb_org_name body \<and> o_status (cr_org out) = PAYMENT_PENDING \<and>
    u_role u = ADMIN \<and> u_status u = UserACTIVE \<and> u_org_id u = Some (o_org_id (cr_org out)) \<and>
    (\<forall>now req. now < cx_now cx + 24 * 60 * 60 * 1000 \<longrightarrow> truthy (rq_session_cookie req) \<longrightarrow>
       rq_session_cookie req = Some (sessionToken (cr_session out)) \<longrightarrow>
       authenticate L e now (db s1) req = Inr (req\<lparr>rq_user := Some (session_payload u)\<rparr>)) \<and>
    (\<forall>now. env_NODE_ENV e \<noteq> Some ''production'' \<longrightarrow> cx_now cx + 5000 \<le> now \<longrightarrow>
       (\<exists>g \<in> set (organisations (db (fire_timers now s1))).
          o_org_id g = o_org_id (cr_org out) \<and> o_name g = cb_org_name body \<and> o_status g = OrgACTIVE))"
proof (cases rule: createOrg_cases [of L e cx body s])
  case (2 email pw sub)
  let ?u = "signup_user cx (email, pw, sub)" and ?g = "signup_org cx body"
  obtain d where d: "s1 = schedule_activation e cx (cx_id cx 0) (s\<lparr>db := d\<rparr>)"
    "organisations d = organisations (db s) @ [?g]" "users d = users (db s) @ [?u]"
    and out: "cr_org out = ?g" "sessionToken (cr_session out) = signJwt L e (cx_now cx) (session_payload ?u)"
    using 2(4) assms(3) by (auto simp: signed_up_def)
  have g: "o_name ?g = cb_org_name body" "o_status ?g = PAYMENT_PENDING" by (simp_all add: new_organisation_def)
  have ok: "store_ok d" using advancesD(3) [OF advances_createOrg assms(1)] assms(3) d(1) by (metis db_schedule db_updates(1) snd_conv)
  have found: "findUserById d (cx_id cx 1) = Some ?u" "findOrgById d (Some (cx_id cx 0)) = Some ?g"
    using find_row_key [OF store_ok_keys(3) [OF ok], of ?u] find_row_key [OF store_ok_keys(1) [OF ok], of ?g]
    by (simp_all add: d(2,3) findUserById_def findOrgById_def)
  have "authenticate L e now (db s1) req = Inr (req\<lparr>rq_user := Some (session_payload ?u)\<rparr>)"
    if req: "now < cx_now cx + 24 * 60 * 60 * 1000" "truthy (rq_session_cookie req)"
      "rq_session_cookie req = Some (sessionToken (cr_session out))" for now req
  proof -
    have "jp_user_id (session_payload ?u) = cx_id cx 1" by (simp add: session_payload_def)
    moreover have "map_option jp_user_id (jwt_verify L (env_JWT_SECRET e) (sessionToken (cr_session out)) now) =
        Some (jp_user_id (session_payload ?u))"
      using assms(2) req(1) by (simp add: out(2) signJwt_def jwt_correct_def)
    ultimately show ?thesis
      using req(2,3) found by (auto simp: authenticate_def d(1) org_suspended_def g(2))
  qed
  moreover have "\<exists>g' \<in> set (organisations (db (fire_timers now s1))).
      o_org_id g' = o_org_id ?g \<and> o_name g' = o_name ?g \<and> o_status g' = OrgACTIVE"
    if "env_NODE_ENV e \<noteq> Some ''production''" "cx_now cx + 5000 \<le> now" for now
    by (rule activated_by_timer [OF _ g(2)]) (use that d(2) in \<open>simp_all add: d(1) schedule_activation_def\<close>)
  ultimately show ?thesis using d out(1) g by (intro exI [of _ ?u] conjI allI impI) simp_all
qed (use assms(3) in simp)

lemma organisation_signup_witness:
  "\<exists>out u. createOrg demo_libs demo_env (demo_ctx 1 0) demo_body initial_sys = (Inr out, demo_sys) \<and>
     users (db demo_sys) = [u] \<and> u_role u = ADMIN \<and>
     authenticate demo_libs demo_env 7000 (db demo_sys) demo_session_request =
       Inr (demo_session_request\<lparr>rq_user := Some (session_payload u)\<rparr>)"
proof -
  have "\<not> isl (fst (createOrg demo_libs demo_env (demo_ctx 1 0) demo_body initial_sys))" by code_simp
  then obtain out where out: "createOrg demo_libs demo_env (demo_ctx 1 0) demo_body initial_sys = (Inr out, demo_sys)"
    by (cases "fst (createOrg demo_libs demo_env (demo_ctx 1 0) demo_body initial_sys)")
      (auto simp: demo_sys_def prod_eq_iff)
  have "map_sum (\<lambda>err. ()) (\<lambda>out. sessionToken (cr_session out))
      (fst (createOrg demo_libs demo_env (demo_ctx 1 0) demo_body initial_sys)) = Inr ''1-1''" by code_simp
  then have token: "rq_session_cookie demo_session_request = Some (sessionToken (cr_session out))"
    by (simp add: out demo_session_request_def del: One_nat_def)
  have "(7000::int) < cx_now (demo_ctx 1 0) + 24 * 60 * 60 * 1000" by (simp add: demo_ctx_def)
  moreover have "truthy (rq_session_cookie demo_session_request)" by (simp add: demo_session_request_def truthy_def)
  moreover have "users (db initial_sys) = []" by (simp add: initial_sys_def empty_store_def)
  moreover have "store_inv (db initial_sys)" using store_inv_empty by (simp add: initial_sys_def)
  ultimately show ?thesis using organisation_signup [OF _ demo_jwt out] token out by fastforce
qed

section \<open>Activation\<close>

text \<open>Organisations are added as pending, and no other organisation becomes anything but pending.\<close>

definition none_activated :: "store \<Rightarrow> store \<Rightarrow> bool" where
  "none_activated d d' \<longleftrightarrow>
     (\<forall>g \<in> set (organisations d'). o_status g \<noteq> PAYMENT_PENDING \<longrightarrow> g \<in> set (organisations d))"

definition no_timers :: "sys \<Rightarrow> sys \<Rightarrow> bool" where
  "no_timers s s' \<longleftrightarrow> (timers s = [] \<longrightarrow> timers s' = [] \<and> none_activated (db s) (db s'))"

lemma no_timers_trans: "no_timers a b \<Longrightarrow> no_timers b c \<Longrightarrow> no_timers a c"
  by (auto simp: no_timers_def none_activated_def)

text \<open>An environment of production, given an arbitrary one.\<close>

definition in_production :: "env \<Rightarrow> env" where
  "in_production e = e\<lparr>env_NODE_ENV := Some ''production''\<rparr>"

interpretation production_frame: account_frame "in_production e" none_activated no_timers
proof (unfold_locales, goal_cases)
  case (3 s1 s2 s3)
  then show ?case by (rule no_timers_trans)
qed (auto simp: no_timers_def none_activated_def schedule_activation_def in_production_def restart_def fire_timers_def
    resetConfirmAttempts_def resetFailedAttempts_def markOtpTokenUsed_def incrementOtpAttempts_def
    markRefreshTokenUsedByHash_def applyPasswordReset_def spend_refresh_def insertOtpToken_def insertRefreshToken_def
    insertPasswordResetToken_def acceptInvitationAndCreateUser_def createOrgWithAdmin_def new_organisation_def
    map_sum_def Let_def dest!: insert_row_SomeD(1) split: sum.splits)

lemma in_production_id: "env_NODE_ENV e = Some ''production'' \<Longrightarrow> in_production e = e"
  by (simp add: in_production_def)

lemma only_events_no_timers: "only_events s s' \<Longrightarrow> no_timers s s'"
proof -
  assume only: "only_events s s'"
  then have "organisations (db s') = organisations ((db s)\<lparr>events := events (db s')\<rparr>)"
    unfolding only_events_def by (simp only:)
  then have "organisations (db s') = organisations (db s)" by simp
  moreover from only have "timers s' = timers s" unfolding only_events_def ..
  ultimately show "no_timers s s'" by (simp add: no_timers_def none_activated_def)
qed

lemma keys_no_timers:
  "no_timers s (snd (validateApiKey L cx b key s))" "no_timers s (snd (createApiKey L cx input s))"
  "no_timers s (snd (revokeKey i g s))"
  by (auto simp: no_timers_def none_activated_def validateApiKey_def touchLastUsed_def createApiKey_def
      createApiKey_row_def revokeKey_def revokeApiKey_def map_sum_def Let_def split: option.splits sum.splits)

lemma production_step:
  assumes "env_NODE_ENV e = Some ''production''" and "program_step L M e host C moves chainId ws ws'"
  shows "no_timers (snd ws) (snd ws')"
  using assms(2)
proof cases
  case (prog_account s s' w)
  show ?thesis
    using production_frame.step_frame [of L M e, unfolded in_production_id [OF assms(1)], OF prog_account(3)]
    by (simp add: prog_account)
next
  case prog_pipeline
  then show ?thesis by (intro only_events_no_timers pipeline_only_events)
qed (simp_all add: keys_no_timers)

lemma production_steps:
  assumes "env_NODE_ENV e = Some ''production''" and "(program_step L M e host C moves chainId)\<^sup>*\<^sup>* ws ws'"
  shows "no_timers (snd ws) (snd ws')"
  using assms(2)
  by (induction rule: rtranclp_induct)
    (auto intro: production_frame.frame_refl no_timers_trans production_step [OF assms(1)])

lemma validateApiKey_refuses:
  assumes "\<forall>g \<in> set (organisations (db s)). o_status g \<noteq> OrgACTIVE"
  shows "\<exists>err. validateApiKey L cx touched key s = (Inl err, s)"
proof (cases "validateApiKey L cx touched key s")
  case (Pair r s')
  show ?thesis
  proof (cases r)
    case (Inl err)
    then show ?thesis using Pair by (auto simp: validateApiKey_def Let_def split: option.splits if_splits)
  next
    case (Inr vk)
    with Pair have "validateApiKey L cx touched key s = (Inr vk, s')" by simp
    then show ?thesis by (rule validateApiKey_InrD) (use assms in blast)
  qed
qed

text \<open>
  C32. In production no organisation ever becomes active: whatever requests are served, an organisation that is not
  pending was so before; and when none was active at the start, every API key is refused for ever.
\<close>

theorem production_activates_nobody:
  assumes "env_NODE_ENV e = Some ''production''" and "timers (snd ws) = []"
    and "(program_step L M e host C moves chainId)\<^sup>*\<^sup>* ws ws'"
  shows "(\<forall>g \<in> set (organisations (db (snd ws'))). o_status g \<noteq> PAYMENT_PENDING \<longrightarrow> g \<in> set (organisations (db (snd ws)))) \<and>
    ((\<forall>g \<in> set (organisations (db (snd ws))). o_status g \<noteq> OrgACTIVE) \<longrightarrow>
     (\<exists>err. validateApiKey L cx touched key (snd ws') = (Inl err, snd ws')))"
proof -
  have "none_activated (db (snd ws)) (db (snd ws'))"
    using production_steps [OF assms(1,3)] assms(2) by (simp add: no_timers_def)
  moreover from this have "(\<forall>g \<in> set (organisations (db (snd ws))). o_status g \<noteq> OrgACTIVE) \<Longrightarrow>
      \<exists>err. validateApiKey L cx touched key (snd ws') = (Inl err, snd ws')"
    by (intro validateApiKey_refuses) (auto simp: none_activated_def)
  ultimately show ?thesis by (simp add: none_activated_def)
qed

definition demo_production :: sys where
  "demo_production = snd (createOrg demo_libs (in_production demo_env) (demo_ctx 1 0) demo_body initial_sys)"

lemma production_activates_nobody_witness:
  "\<exists>g. organisations (db (fire_timers 6000 demo_production)) = [g] \<and> o_name g = ''acme'' \<and> o_status g = PAYMENT_PENDING \<and>
     (\<exists>err. validateApiKey demo_libs (demo_ctx 7 7000) True demo_key (fire_timers 6000 demo_production) =
        (Inl err, fire_timers 6000 demo_production))"
proof -
  let ?step = "program_step demo_libs demo_M (in_production demo_env) no_host toy_client (=) 84532"
  have signup: "?step ([], initial_sys) ([], demo_production)"
    unfolding demo_production_def by (intro prog_account step_createOrg)
  have fire: "?step ([], demo_production) ([], fire_timers 6000 demo_production)"
    by (intro prog_account step_timers)
  note run = converse_rtranclp_into_rtranclp [of ?step, OF signup r_into_rtranclp [of ?step, OF fire]]
  have env: "env_NODE_ENV (in_production demo_env) = Some ''production''" by (simp add: in_production_def)
  have start: "timers (snd ([], initial_sys)) = []" "organisations (db (snd ([], initial_sys))) = []"
    by (simp_all add: initial_sys_def empty_store_def)
  have "map o_name (organisations (db (fire_timers 6000 demo_production))) = [''acme'']" by code_simp
  then obtain g where "organisations (db (fire_timers 6000 demo_production)) = [g]" "o_name g = ''acme''" by auto
  with production_activates_nobody [OF env start(1) run] start(2) show ?thesis by auto
qed

end
