(* ===== verification/SecondFactor.thy ===== *)
theory SecondFactor
  imports EventDemo
begin

text \<open>
  The second factor from its enrolment to its removal: the secret that was shown is the one that is checked, and
  only a code for it switches the factor on or off.
\<close>

definition enrolled :: "libs \<Rightarrow> env \<Rightarrow> string \<Rightarrow> user \<Rightarrow> bool" where
  "enrolled L e secret u \<longleftrightarrow> u_mfa_enabled u \<and> truthy (u_totp_secret u) \<and> u_totp_secret_pending u = None \<and>
     decryptTotp L e (the (u_totp_secret u)) = Inr secret"

abbreviation bad_code :: "'a result" where
  "bad_code \<equiv> throw (AuthError ''Invalid TOTP code'' ''INVALID_TOTP'')"

lemma findUserById_update:
  "(\<And>u. u_user_id (f u) = u_user_id u) \<Longrightarrow>
   findUserById (db (update_user i f s)) i = map_option f (findUserById (db s) i)"
  by (auto simp: findUserById_def update_user_def find_row_update_where intro!: map_option_cong dest: find_row_SomeD)

lemma encryptTotp_nonempty: "encryptTotp L e iv p \<noteq> []"
  by (simp add: encryptTotp_def split: prod.split)

lemma setupMfa_InrD:
  assumes "setupMfa L M e cx i s = (Inr r, s1)"
  shows "s1 = update_user i (\<lambda>u. u\<lparr>u_totp_secret_pending :=
      Some (encryptTotp L e (cx_iv cx) (totp_generateSecret M (cx_bytes cx)))\<rparr>) s"
    and "\<exists>u. findUserById (db s) i = Some u \<and> totp_uri r = totp_generateURI M (u_email u) (totp_generateSecret M (cx_bytes cx))"
  using assms by (auto simp: setupMfa_def getUserOrThrow_def Let_def split: option.splits sum.splits)

text \<open>Confirming a pending secret, and switching the factor off.\<close>

lemma confirmMfa_pending:
  assumes "findUserById (db s) i = Some u" and "u_totp_secret_pending u = Some stored" and "stored \<noteq> []"
    and "decryptTotp L e stored = Inr secret"
  shows "totp_verify M code secret (cx_now cx) = Inr False \<Longrightarrow> confirmMfa L M e cx i code s = (bad_code, s)"
    and "totp_verify M code secret (cx_now cx) = Inr True \<Longrightarrow>
      confirmMfa L M e cx i code s = (Inr (), update_user i
        (\<lambda>u. u\<lparr>u_totp_secret := Some stored, u_totp_secret_pending := None, u_mfa_enabled := True\<rparr>) s)"
  using assms by (simp_all add: confirmMfa_def getUserOrThrow_def checkTotp_def truthy_def)

lemma disableMfa_enrolled:
  assumes "findUserById (db s) i = Some u" and "enrolled L e secret u"
  shows "totp_verify M code secret (cx_now cx) = Inr False \<Longrightarrow> disableMfa L M e cx i code s = (bad_code, s)"
    and "totp_verify M code secret (cx_now cx) = Inr True \<Longrightarrow>
      disableMfa L M e cx i code s = (Inr (), update_user i
        (\<lambda>u. u\<lparr>u_mfa_enabled := False, u_totp_secret := None, u_totp_secret_pending := None\<rparr>) s)"
  using assms by (simp_all add: disableMfa_def getUserOrThrow_def checkTotp_def enrolled_def)

text \<open>While the factor is on, a right one-time code opens no session.\<close>

lemma enrolled_login:
  assumes "findUserByEmail (db s) email = Some u" and "enrolled L e secret u" and "u_status u = UserACTIVE"
    and "\<not> org_suspended (findOrgById (db s) (u_org_id u))"
  shows "otp_session L e cx email s = (Inr MfaRequired, s)"
  using assms by (simp add: otp_session_def enrolled_def)

text \<open>
  A second factor is enrolled and removed: after the setup a wrong code changes nothing and a code that is right for
  the secret that was shown switches it on; then, a wrong code does not switch it off, and a right one does, which leaves
  the user as before, without a pending secret.
\<close>

theorem mfa_round_trip:
  assumes "gcm_correct L" and "cx_iv cx \<noteq> []" and "setupMfa L M e cx i s = (Inr r, s1)"
    and "secret = totp_generateSecret M (cx_bytes cx)"
    and "totp_verify M bad secret (cx_now cx1) = Inr False" and "totp_verify M good secret (cx_now cx1) = Inr True"
  shows "\<exists>u u2 s2. findUserById (db s) i = Some u \<and> totp_uri r = totp_generateURI M (u_email u) secret \<and>
    confirmMfa L M e cx1 i bad s1 = (bad_code, s1) \<and> confirmMfa L M e cx1 i good s1 = (Inr (), s2) \<and>
    findUserById (db s2) i = Some u2 \<and> enrolled L e secret u2 \<and>
    disableMfa L M e cx1 i bad s2 = (bad_code, s2) \<and>
    (\<exists>s3. disableMfa L M e cx1 i good s2 = (Inr (), s3) \<and> findUserById (db s3) i =
       Some (u\<lparr>u_mfa_enabled := False, u_totp_secret := None, u_totp_secret_pending := None\<rparr>))"
proof -
  let ?stored = "encryptTotp L e (cx_iv cx) secret"
  note made = setupMfa_InrD [OF assms(3), folded assms(4)]
  obtain u where u: "findUserById (db s) i = Some u" "totp_uri r = totp_generateURI M (u_email u) secret"
    using made(2) by blast
  have u1: "findUserById (db s1) i = Some (u\<lparr>u_totp_secret_pending := Some ?stored\<rparr>)"
    unfolding made(1) by (simp add: findUserById_update u(1))
  have dec: "decryptTotp L e ?stored = Inr secret" by (rule decryptTotp_encryptTotp [OF assms(1,2)])
  note confirm = confirmMfa_pending [OF u1 _ encryptTotp_nonempty dec, simplified]
  let ?u2 = "u\<lparr>u_totp_secret := Some ?stored, u_totp_secret_pending := None, u_mfa_enabled := True\<rparr>"
  define s2 where "s2 = update_user i
    (\<lambda>u. u\<lparr>u_totp_secret := Some ?stored, u_totp_secret_pending := None, u_mfa_enabled := True\<rparr>) s1"
  have u2: "findUserById (db s2) i = Some ?u2" unfolding s2_def by (simp add: findUserById_update u1)
  have on: "enrolled L e secret ?u2" using dec encryptTotp_nonempty by (simp add: enrolled_def truthy_def)
  have "disableMfa L M e cx1 i bad s2 = (bad_code, s2)"
    by (rule disableMfa_enrolled(1) [OF u2 on assms(5)])
  moreover have "confirmMfa L M e cx1 i bad s1 = (bad_code, s1)" "confirmMfa L M e cx1 i good s1 = (Inr (), s2)"
    using confirm assms(5,6) by (simp_all add: s2_def)
  moreover have "\<exists>s3. disableMfa L M e cx1 i good s2 = (Inr (), s3) \<and> findUserById (db s3) i =
       Some (u\<lparr>u_mfa_enabled := False, u_totp_secret := None, u_totp_secret_pending := None\<rparr>)"
    unfolding disableMfa_enrolled(2) [OF u2 on assms(6)] by (simp add: findUserById_update u2)
  ultimately show ?thesis using u u2 on by blast
qed

definition demo_totp :: totp_libs where
  "demo_totp = demo_M\<lparr>totp_verify := (\<lambda>code secret now. Inr (code = ''424242''))\<rparr>"

lemma mfa_round_trip_witness:
  "\<exists>s2 u2. confirmMfa demo_libs demo_totp demo_env (demo_ctx 3 2) ''1-1'' ''424242''
      (snd (setupMfa demo_libs demo_totp demo_env (demo_ctx 2 1) ''1-1'' demo_sys)) = (Inr (), s2) \<and>
     findUserById (db s2) ''1-1'' = Some u2 \<and> enrolled demo_libs demo_env ''secret'' u2"
proof -
  let ?made = "setupMfa demo_libs demo_totp demo_env (demo_ctx 2 1) ''1-1'' demo_sys"
  have "\<not> isl (fst ?made)" by code_simp
  then obtain r where made: "?made = (Inr r, snd ?made)" by (cases "fst ?made") (auto simp: prod_eq_iff)
  have "''secret'' = totp_generateSecret demo_totp (cx_bytes (demo_ctx 2 1))" "cx_iv (demo_ctx 2 1) \<noteq> []"
    "totp_verify demo_totp ''000000'' ''secret'' (cx_now (demo_ctx 3 2)) = Inr False"
    "totp_verify demo_totp ''424242'' ''secret'' (cx_now (demo_ctx 3 2)) = Inr True"
    by (simp_all add: demo_totp_def demo_M_def demo_ctx_def)
  from mfa_round_trip [OF demo_gcm this(2) made this(1,3,4)] show ?thesis by blast
qed

end
