(* ===== verification/LoginProperties.thy ===== *)
theory LoginProperties
  imports AccountProperties
begin

text \<open>
  What a login and a password reset achieve, and how many guesses an attacker has who waits for each answer.
\<close>

section \<open>Runs of attempts\<close>

text \<open>
  A run of attempts, with anything else the program does in between that leaves the map of failed
  attempts alone (only a login and a restart of the process write it). Each attempt gives its key, its time,
  whether the password was right, and the answer.
\<close>

datatype attempt_act = Try ctx string string | Other "sys \<Rightarrow> sys"

type_synonym answered = "string \<times> millis \<times> bool \<times> unit result"

fun login_run :: "libs \<Rightarrow> env \<Rightarrow> attempt_act list \<Rightarrow> sys \<Rightarrow> answered list" where
  "login_run L e [] s = []"
| "login_run L e (Try cx email password # as) s =
     (let (r, s') = createEmailPasswordSession L e cx email password None s
      in (toLowerCase email, cx_now cx, password_matches L (db s) email password, r) # login_run L e as s')"
| "login_run L e (Other f # as) s = login_run L e as ((f s)\<lparr>emailFailedAttempts := emailFailedAttempts s\<rparr>)"

fun reset_run :: "libs \<Rightarrow> attempt_act list \<Rightarrow> sys \<Rightarrow> string \<Rightarrow> answered list" where
  "reset_run L [] s password = []"
| "reset_run L (Try cx email code # as) s password =
     (let (r, s') = confirmReset L cx email code password s
      in (toLowerCase email, cx_now cx, code_found L (cx_now cx) (db s) email code, r) # reset_run L as s' password)"
| "reset_run L (Other f # as) s password =
     reset_run L as ((f s)\<lparr>confirmFailedAttempts := confirmFailedAttempts s\<rparr>) password"

definition on_key :: "string \<Rightarrow> answered list \<Rightarrow> answered list" where
  "on_key k run = filter (\<lambda>a. fst a = k) run"

definition answered_with :: "unit result \<Rightarrow> answered list \<Rightarrow> nat" where
  "answered_with r run = length (filter (\<lambda>a. snd (snd (snd a)) = r) run)"

definition wrong_in_window :: "millis \<Rightarrow> millis \<Rightarrow> answered list \<Rightarrow> bool" where
  "wrong_in_window t0 window run \<longleftrightarrow> list_all (\<lambda>(_, t, good, _). \<not> good \<and> t0 \<le> t \<and> t \<le> t0 + window) run"

text \<open>A run as the limiter sees it.\<close>

definition seen :: "answered list \<Rightarrow> (millis \<times> string \<times> bool) list" where
  "seen run = map (\<lambda>a. (fst (snd a), fst a, fst (snd (snd a)))) run"

lemmas run_defs = on_key_def answered_with_def wrong_in_window_def

abbreviation wrong_password :: "unit result" where
  "wrong_password \<equiv> throw (AuthError ''Invalid credentials'' ''INVALID_CREDENTIALS'')"

abbreviation wrong_code :: "unit result" where
  "wrong_code \<equiv> throw (GoneError ''Reset code not found or expired'' ''GONE'')"

lemma login_run_passed:
  "list_all (\<lambda>(_, _, good, _). \<not> good) (on_key k (login_run L e as s)) \<Longrightarrow>
   answered_with wrong_password (on_key k (login_run L e as s)) =
     login_limit.passed k (seen (login_run L e as s)) (emailFailedAttempts s)"
proof (induction L e as s rule: login_run.induct)
  case (2 L e cx email password as s)
  let ?h = "handleReturningUserLogin L e cx email password s"
  have IH: "answered_with wrong_password (on_key k (login_run L e as (snd ?h))) =
     login_limit.passed k (seen (login_run L e as (snd ?h)))
       (emailFailedAttempts (snd ?h))"
    by (rule "2.IH" [of "(fst ?h, snd ?h)" "fst ?h"])
      (use "2.prems" in \<open>auto simp: createEmailPasswordSession_def on_key_def case_prod_beta split: if_splits\<close>)
  have ans: "toLowerCase email = k \<Longrightarrow> fst ?h = wrong_password \<longleftrightarrow>
      fst (login_limit.attempt (cx_now cx) k (password_matches L (db s) email password) (emailFailedAttempts s))"
    using "2.prems" by (simp add: login_answer on_key_def createEmailPasswordSession_def case_prod_beta error_defs)
  show ?case
    using IH ans
    by (simp add: createEmailPasswordSession_def case_prod_beta on_key_def answered_with_def login_attempt seen_def)
qed (simp_all add: on_key_def answered_with_def seen_def)

lemma reset_run_passed:
  "list_all (\<lambda>(_, _, good, _). \<not> good) (on_key k (reset_run L as s pw)) \<Longrightarrow>
   answered_with wrong_code (on_key k (reset_run L as s pw)) =
     confirm_limit.passed k (seen (reset_run L as s pw)) (confirmFailedAttempts s)"
proof (induction L as s pw rule: reset_run.induct)
  case (2 L cx email code as s pw)
  let ?h = "confirmReset L cx email code pw s"
  have IH: "answered_with wrong_code (on_key k (reset_run L as (snd ?h) pw)) =
     confirm_limit.passed k (seen (reset_run L as (snd ?h) pw))
       (confirmFailedAttempts (snd ?h))"
    by (rule "2.IH" [of "(fst ?h, snd ?h)" "fst ?h"])
      (use "2.prems" in \<open>auto simp: on_key_def case_prod_beta split: if_splits\<close>)
  have ans: "toLowerCase email = k \<Longrightarrow> fst ?h = wrong_code \<longleftrightarrow>
      fst (confirm_limit.attempt (cx_now cx) k (code_found L (cx_now cx) (db s) email code) (confirmFailedAttempts s))"
    using "2.prems" by (simp add: confirm_gone on_key_def case_prod_beta)
  show ?case
    using IH ans by (simp add: case_prod_beta on_key_def answered_with_def confirm_attempt seen_def)
qed (simp_all add: on_key_def answered_with_def seen_def)

lemma seen_window:
  "wrong_in_window t0 w (on_key k run) \<Longrightarrow> (t, k, good) \<in> set (seen run) \<Longrightarrow> \<not> good \<and> t0 \<le> t \<and> t \<le> t0 + w"
  by (fastforce simp: run_defs seen_def list_all_iff)

lemma seen_length: "length (filter (\<lambda>a. fst (snd a) = k) (seen run)) = length (on_key k run)"
  by (induction run) (auto simp: on_key_def seen_def)

lemma window_wrong: "wrong_in_window t0 w run \<Longrightarrow> list_all (\<lambda>(_, _, good, _). \<not> good) run"
  by (auto simp: wrong_in_window_def list_all_iff)

section \<open>Properties\<close>



section \<open>Resetting a password\<close>

lemma confirmReset_finds:
  assumes "check_attempts CONFIRM_ATTEMPT_LIMIT CONFIRM_ATTEMPT_WINDOW_MS (cx_now cx) (toLowerCase email)
      (confirmFailedAttempts s) = Inr m"
    and "findPasswordResetToken (cx_now cx) (db s) (hashSHA256 L (toLowerCase email @ code)) = Some t"
    and "findUserByEmail (db s) email = Some u" and "u_password_hash u \<noteq> None"
  shows "confirmReset L cx email code pw s =
    (Inr (), s\<lparr>confirmFailedAttempts := clear_attempts (toLowerCase email) m,
       db := applyPasswordReset (db s) (u_user_id u) (prt_token_id t) (bcrypt_hash L (cx_salt cx) 12 pw)\<rparr>)"
  using assms by (simp add: confirmReset_def Let_def)

lemma requestReset_SomeD:
  assumes "requestReset L e cx email s = (Inr (), s1)" and "findUserByEmail (db s) email = Some u"
    and "u_password_hash u \<noteq> None"
  shows "issue_reset (cx_now cx, cx_id cx 0, u_user_id u, cx_now cx + OTP_EXPIRY_MS) (db s)
      (hashSHA256 L (toLowerCase email @ generate_otp e cx)) = Inr (db s1)"
    and "last (outbox s1) \<in> {ResetMail email (generate_otp e cx), DevLog email (generate_otp e cx)}"
    and "confirmFailedAttempts s1 = confirmFailedAttempts s"
  using assms
  by (auto simp: requestReset_def issue_reset_def sendPasswordResetEmail_def Let_def
      split: sum.splits if_splits option.splits)

lemma insert_reset_users:
  "insertPasswordResetToken now i d u h x = Inr d' \<Longrightarrow> users d' = users d"
  by (auto simp: insertPasswordResetToken_def map_sum_def split: sum.splits)

lemma find_user_apply_reset:
  assumes "distinct (map u_user_id (users d))" and "findUserByEmail d email = Some u"
  shows "findUserByEmail (applyPasswordReset d (u_user_id u) i h) email = Some (u\<lparr>u_password_hash := Some h\<rparr>)"
    and "email' \<noteq> email \<Longrightarrow> findUserByEmail (applyPasswordReset d (u_user_id u) i h) email' = findUserByEmail d email'"
proof -
  have upd: "findUserByEmail (applyPasswordReset d (u_user_id u) i h) em =
      map_option (\<lambda>v. if u_user_id v = u_user_id u then v\<lparr>u_password_hash := Some h\<rparr> else v) (findUserByEmail d em)" for em
    by (simp add: findUserByEmail_def applyPasswordReset_def find_row_update_where)
  show "findUserByEmail (applyPasswordReset d (u_user_id u) i h) email = Some (u\<lparr>u_password_hash := Some h\<rparr>)"
    by (simp add: upd assms(2))
  show "findUserByEmail (applyPasswordReset d (u_user_id u) i h) email' = findUserByEmail d email'" if "email' \<noteq> email"
  proof (cases "findUserByEmail d email'")
    case (Some v)
    then have "v \<noteq> u" "v \<in> set (users d)" "u \<in> set (users d)"
      using assms(2) that by (auto simp: findUserByEmail_def dest!: find_row_SomeD)
    then have "u_user_id v \<noteq> u_user_id u" using distinct_map_eqD [OF assms(1)] by blast
    then show ?thesis by (simp add: upd Some)
  qed (simp add: upd)
qed

lemma reset_after_apply: "reset_row (applyPasswordReset d i (prt_token_id t) h) = reset_row (spend_reset d t)"
  by (simp add: reset_row_def [abs_def] applyPasswordReset_def spend_reset_def)

lemma store_ok_users:
  "store_ok d \<Longrightarrow> unique_rows user_constraints us \<Longrightarrow> store_ok (d\<lparr>users := us\<rparr>)"
  by (simp add: store_ok_def)

lemma apply_reset_ok:
  assumes "store_ok d" and "findPasswordResetToken now d h = Some t"
  shows "store_ok (applyPasswordReset d i (prt_token_id t) pw)"
proof -
  have "applyPasswordReset d i (prt_token_id t) pw = (spend_reset d t)\<lparr>users := update_where (\<lambda>u. u_user_id u = i)
      (\<lambda>u. u\<lparr>u_password_hash := Some pw\<rparr>) (users d)\<rparr>"
    by (simp add: applyPasswordReset_def spend_reset_def)
  moreover have "unique_rows user_constraints (update_where (\<lambda>u. u_user_id u = i) (\<lambda>u. u\<lparr>u_password_hash := Some pw\<rparr>) (users d))"
    using assms(1) by (auto simp: store_ok_def user_constraints_def intro!: unique_rows_update)
  ultimately show ?thesis using store_ok_spend_reset [OF assms(1)] by (simp add: store_ok_users)
qed

lemma reset_code_used_up:
  assumes "store_ok d" and "findPasswordResetToken now d h = Some t"
  shows "findPasswordResetToken now' (applyPasswordReset d i (prt_token_id t) pw) h = None"
proof -
  have row: "reset_row d h = Some t"
    using assms by (auto simp: reset.lookup_row split: option.splits if_splits)
  show ?thesis
    using reset.row_spend [OF assms(1) row] apply_reset_ok [OF assms]
    by (simp add: reset.lookup_row reset_after_apply reset_live_def)
qed

text \<open>
  C15. A password reset: the code that was mailed to an address with a password, entered within ten
  minutes, sets the new password, which then matches at a login. The users of all other
  addresses are what they were, and the code does not work a second time.
\<close>

theorem password_reset_round_trip:
  assumes "store_ok (db s)" and "bcrypt_correct L"
    and "findUserByEmail (db s) email = Some u" and "u_password_hash u \<noteq> None"
    and "requestReset L e cx email s = (Inr (), s1)"
    and "cx_now cx' < cx_now cx + 10 * 60 * 1000"
    and "check_attempts CONFIRM_ATTEMPT_LIMIT CONFIRM_ATTEMPT_WINDOW_MS (cx_now cx') (toLowerCase email)
      (confirmFailedAttempts s) = Inr m"
  shows "\<exists>code s2. last (outbox s1) \<in> {ResetMail email code, DevLog email code} \<and>
    confirmReset L cx' email code password s1 = (Inr (), s2) \<and>
    password_matches L (db s2) email password \<and>
    (\<forall>em. em \<noteq> email \<longrightarrow> findUserByEmail (db s2) em = findUserByEmail (db s) em) \<and>
    (\<forall>cx'' pw. fst (confirmReset L cx'' email code pw s2) \<noteq> Inr ())"
proof -
  let ?code = "generate_otp e cx"
  let ?h = "hashSHA256 L (toLowerCase email @ ?code)"
  note req = requestReset_SomeD [OF assms(5,3,4)]
  have ok1: "store_ok (db s1)" using reset.ok_issue [OF assms(1) req(1)] .
  have "users (db s1) = users (db s)"
    using req(1) by (auto simp: issue_reset_def insert_reset_users)
  then have same: "findUserByEmail (db s1) em = findUserByEmail (db s) em" for em
    by (simp add: findUserByEmail_def)
  let ?t = "fresh_reset (cx_now cx, cx_id cx 0, u_user_id u, cx_now cx + OTP_EXPIRY_MS) ?h"
  have t: "findPasswordResetToken (cx_now cx') (db s1) ?h = Some ?t"
    by (rule reset.issued_is_found [OF assms(1) req(1)])
      (use assms(6) in \<open>simp add: reset_live_def fresh_reset_def OTP_EXPIRY_MS_def\<close>)
  let ?d2 = "applyPasswordReset (db s1) (u_user_id u) (prt_token_id ?t) (bcrypt_hash L (cx_salt cx') 12 password)"
  have conf: "confirmReset L cx' email ?code password s1 =
      (Inr (), s1\<lparr>confirmFailedAttempts := clear_attempts (toLowerCase email) m, db := ?d2\<rparr>)" (is "_ = (Inr (), ?s2)")
    by (rule confirmReset_finds [OF _ t]) (use assms(3,4,7) req(3) same in simp_all)
  note u2 = find_user_apply_reset [OF store_ok_keys(3) [OF ok1], of email u]
  have "password_matches L (db ?s2) email password"
    using u2(1) assms(2,3) by (simp add: password_matches_def same bcrypt_correct_def)
  moreover have "\<forall>em. em \<noteq> email \<longrightarrow> findUserByEmail (db ?s2) em = findUserByEmail (db s) em"
    using u2(2) assms(3) by (simp add: same)
  moreover have "fst (confirmReset L cx'' email ?code pw ?s2) \<noteq> Inr ()" for cx'' pw
    using reset_code_used_up [OF ok1 t] by (simp add: confirmReset_def Let_def split: sum.split)
  ultimately show ?thesis using conf req(2) by blast
qed

text \<open>
  The token is bound to the lower-case address, the user is found by the address as given: a code
  mailed to one address sets the password of the user of another address that differs only in case.
\<close>

lemma reset_by_case_variant:
  assumes "store_ok (db s)" and "findUserByEmail (db s) mine = Some u" and "u_password_hash u \<noteq> None"
    and "requestReset L e cx mine s = (Inr (), s1)" and "cx_now cx' < cx_now cx + 10 * 60 * 1000"
    and "toLowerCase victim = toLowerCase mine" and "findUserByEmail (db s) victim = Some v"
    and "u_password_hash v \<noteq> None" and "bcrypt_correct L"
    and "check_attempts CONFIRM_ATTEMPT_LIMIT CONFIRM_ATTEMPT_WINDOW_MS (cx_now cx') (toLowerCase mine)
      (confirmFailedAttempts s) = Inr m"
  shows "\<exists>s2. confirmReset L cx' victim (generate_otp e cx) password s1 = (Inr (), s2) \<and>
    password_matches L (db s2) victim password"
proof -
  let ?h = "hashSHA256 L (toLowerCase mine @ generate_otp e cx)"
  note req = requestReset_SomeD [OF assms(4,2,3)]
  have ok1: "store_ok (db s1)" using reset.ok_issue [OF assms(1) req(1)] .
  have "users (db s1) = users (db s)" using req(1) by (auto simp: issue_reset_def insert_reset_users)
  then have v: "findUserByEmail (db s1) victim = Some v" using assms(7) by (simp add: findUserByEmail_def)
  let ?t = "fresh_reset (cx_now cx, cx_id cx 0, u_user_id u, cx_now cx + OTP_EXPIRY_MS) ?h"
  have t: "findPasswordResetToken (cx_now cx') (db s1) ?h = Some ?t"
    by (rule reset.issued_is_found [OF assms(1) req(1)])
      (use assms(5) in \<open>simp add: reset_live_def fresh_reset_def OTP_EXPIRY_MS_def\<close>)
  show ?thesis
    using confirmReset_finds [of cx' victim s1 m L "generate_otp e cx" ?t v password] t v assms(6,8,9,10) req(3)
      find_user_apply_reset(1) [OF store_ok_keys(3) [OF ok1] v]
    by (simp add: password_matches_def bcrypt_correct_def)
qed

section \<open>Logging in\<close>

lemma issue_otp_SomeD:
  assumes "issue_otp L e cx i email s = (Inr (), s1)"
  shows "otp_tokens (db s1) = otp_tokens (db s) @
      [\<lparr>otp_id = i, otp_email_hash = hashSHA256 L (toLowerCase email), otp_hash = hashSHA256 L (generate_otp e cx),
        otp_expires_at = cx_now cx + 10 * 60 * 1000, otp_used = False, otp_attempts = 0, otp_created_at = cx_now cx\<rparr>]"
    and "last (outbox s1) \<in> {OtpMail email (generate_otp e cx), DevLog email (generate_otp e cx)}"
    and "\<exists>ts. db s1 = (db s)\<lparr>otp_tokens := ts\<rparr>"
  using assms
  by (auto simp: issue_otp_def insertOtpToken_def sendOtpEmail_def map_sum_def Let_def
      dest!: insert_row_SomeD(1) split: sum.splits if_splits option.splits)


section \<open>Concrete runs\<close>

definition demo_guesses :: "attempt_act list" where
  "demo_guesses = replicate 11 (Try (demo_ctx 2 1) ''a@x.io'' ''wrong'')"


definition demo_code_guesses :: "attempt_act list" where
  "demo_code_guesses = replicate 6 (Try (demo_ctx 2 1) ''a@x.io'' ''1'')"


definition demo_reset :: sys where
  "demo_reset = snd (requestReset demo_libs demo_env (demo_ctx 2 1) ''a@x.io'' demo_sys)"

lemma demo_reset_requested: "requestReset demo_libs demo_env (demo_ctx 2 1) ''a@x.io'' demo_sys = (Inr (), demo_reset)"
  by (simp add: demo_reset_def prod_eq_iff) code_simp

lemma demo_bcrypt: "bcrypt_correct demo_libs"
  using toy_libs_laws(3) by (simp add: bcrypt_correct_def demo_libs_def)

lemma demo_store_ok: "store_ok (db demo_sys)"
  using demo_inv by (simp add: store_inv_def)

lemma demo_user_found: "findUserByEmail (db demo_sys) ''a@x.io'' = Some demo_user"
  by code_simp

lemma password_reset_round_trip_witness:
  "\<exists>code s2. confirmReset demo_libs (demo_ctx 3 2) ''a@x.io'' code ''new password'' demo_reset = (Inr (), s2) \<and>
    password_matches demo_libs (db s2) ''a@x.io'' ''new password''"
proof -
  have "confirmFailedAttempts demo_sys (toLowerCase ''a@x.io'') = None" by code_simp
  then have "check_attempts CONFIRM_ATTEMPT_LIMIT CONFIRM_ATTEMPT_WINDOW_MS (cx_now (demo_ctx 3 2)) (toLowerCase ''a@x.io'')
      (confirmFailedAttempts demo_sys) = Inr (confirmFailedAttempts demo_sys)"
    by (simp add: check_attempts_def)
  moreover have "u_password_hash demo_user \<noteq> None" by code_simp
  moreover have "cx_now (demo_ctx 3 2) < cx_now (demo_ctx 2 1) + 10 * 60 * 1000" by (simp add: demo_ctx_def)
  ultimately show ?thesis
    using password_reset_round_trip [OF demo_store_ok demo_bcrypt demo_user_found _ demo_reset_requested] by blast
qed

lemma demo_login_requested:
  "createEmailPasswordSession demo_libs demo_env (demo_ctx 2 1) ''a@x.io'' ''password'' None demo_sys = (Inr (), demo_login)"
  by (simp add: demo_login_def prod_eq_iff) code_simp


end
