(* ===== verification/ServerProperties.thy ===== *)
theory ServerProperties
  imports EventDemo LoginProperties
begin

text \<open>
  The properties of accounts on a server, where the statements of any number of requests interleave: what of the
  tokens and codes survives every interleaving, and what the limits of attempts and of users do not.
\<close>

section \<open>Requests and operations\<close>


section \<open>The tables of tokens\<close>

text \<open>
  C10. Whatever requests arrive and however their statements interleave, with each other, with the anchoring of events,
  with timers and restarts: the tables of refresh tokens and of password reset tokens implement the abstract machine
  of one-time tokens, in which a token is minted once and a minted token can only be revoked; unique columns
  stay unique; and a one-time code or an invitation that was used is never unused again.
\<close>

theorem tokens_refine:
  assumes "store_ok (db s)" and "(serves L M e host C moves chainId)\<^sup>*\<^sup>* ([], w, s) (ps, w2, s2)"
  shows "store_ok (db s2) \<and>
    token_step\<^sup>*\<^sup>* (dom (refresh_row (db s)), findRefreshTokenByHash now (db s))
      (dom (refresh_row (db s2)), findRefreshTokenByHash now (db s2)) \<and>
    token_step\<^sup>*\<^sup>* (dom (reset_row (db s)), findPasswordResetToken now (db s))
      (dom (reset_row (db s2)), findPasswordResetToken now (db s2)) \<and>
    rows_advance otp_later (otp_tokens (db s)) (otp_tokens (db s2)) \<and>
    rows_advance invitation_later (invitations (db s)) (invitations (db s2))"
proof -
  have "tables_later (db s) (db s2)"
    using serves_later [OF assms(2) _ assms(1)] by (simp add: accounts_later_def)
  then have "store_ok (db s2)" "refresh.evolves (db s) (db s2)" "reset.evolves (db s) (db s2)"
    "rows_advance otp_later (otp_tokens (db s)) (otp_tokens (db s2))"
    "rows_advance invitation_later (invitations (db s)) (invitations (db s2))"
    using assms(1) by (simp_all add: tables_later_def)
  then show ?thesis
    using refresh.evolves_refines [OF _ assms(1), of "db s2" now] reset.evolves_refines [OF _ assms(1), of "db s2" now]
    by (simp add: refresh.view_def reset.view_def)
qed

text \<open>A refresh token that is spent is refused to every rotation that begins later.\<close>

lemma spent_refused:
  assumes "store_ok (db s)" and "\<forall>p \<in> set ps. harmless p s" and "accounts_later s s1"
    and "refresh.spent (db s1) (hashSHA256 L raw)"
    and "(serves L M e host C moves chainId)\<^sup>*\<^sup>* (ps, w, s1) (ps', w', s2)"
  shows "rotateRefreshToken L e cx raw s2 =
    (throw (AuthError ''Refresh token is missing, expired, or already used'' ''UNAUTHORIZED''), s2)"
proof -
  note on = served_on [OF assms(1-3,5)]
  have "refresh.evolves (db s1) (db s2)" using on(1,3) by (simp add: tables_later_def)
  then have "findRefreshTokenByHash now (db s2) (hashSHA256 L raw) = None" for now
    using refresh.spent_not_found [OF on(2)] refresh.spent_stays [OF _ on(1) assms(4)] by blast
  then show ?thesis by (simp add: rotateRefreshToken_def rotate_find_def)
qed

lemma commit_spends:
  assumes "store_ok (db s)" and "refresh_known h existing s"
    and "rotate_commit L e cx (existing, user) s = (Inr sn, s')"
  shows "refresh.spent (db s') h"
proof -
  obtain r where r: "refresh_row (db s) h = Some r" "rt_id r = rt_id existing"
    using assms(2) by (auto simp: refresh_known_def)
  let ?a = "(cx_now cx, cx_id cx 0, u_user_id user, cx_now cx + REFRESH_TOKEN_TTL_MS)"
  have "issue_refresh ?a (spend_refresh (db s) r) (hashSHA256 L (generateRefreshToken (cx_bytes cx))) = Inr (db s')"
    using assms(3) by (auto simp: rotate_commit_def issue_refresh_def spend_refresh_def r(2) Let_def split: sum.splits)
  then have "refresh.evolves (spend_refresh (db s) r) (db s')"
    by (rule refresh.evolves_issue [OF refresh.evolves_refl])
  then show ?thesis
    by (rule refresh.spent_stays [OF _ refresh.ok_spend [OF assms(1)] refresh.spent_spend [OF assms(1) r(1)]])
qed

text \<open>
  C12. A refresh token works once: when the transaction of a rotation with it is committed, however long ago the
  rotation read the token, every rotation with it that begins later is refused, whatever waits at the moment of the
  commit and whatever happens afterwards.
\<close>

theorem refresh_token_single_use:
  assumes "store_ok (db s0)" and "(serves L M e host C moves chainId)\<^sup>*\<^sup>* ([], w0, s0) (ps1, w1, s1)"
    and "rotate_find L cx raw s1 = Inr (existing, user)"
    and "(serves L M e host C moves chainId)\<^sup>*\<^sup>* (ps1, w1, s1) (ps2, w2, s2)"
    and "rotate_commit L e cx (existing, user) s2 = (Inr sn, s3)"
    and "(serves L M e host C moves chainId)\<^sup>*\<^sup>* (ps2, w2, s3) (ps4, w4, s4)"
  shows "rotateRefreshToken L e cx' raw s4 =
    (throw (AuthError ''Refresh token is missing, expired, or already used'' ''UNAUTHORIZED''), s4)"
proof -
  note at1 = served_ok [OF assms(1,2)] and at2 = served_ok [OF assms(1) rtranclp_trans [OF assms(2,4)]]
  have "accounts_later s1 s2" using serves_later [OF assms(4) at1(2,1)] by blast
  then have known: "refresh_known (hashSHA256 L raw) existing s2"
    using known_later(1) [OF at1(1)] found_known(1) [OF at1(1) rotate_find_SomeD(1) [OF assms(3)]] by blast
  show ?thesis
    by (rule spent_refused [OF at2(1,2) _ commit_spends [OF at2(1) known assms(5)] assms(6)])
      (use commit_later [OF known, of L e cx user] assms(5) in simp)
qed

text \<open>
  C35. The refresh token of a session that was logged out is refused to every rotation that begins after the logout,
  whatever is waiting at the moment of the logout and whatever happens afterwards.
\<close>

theorem logout_revokes:
  assumes "store_ok (db s0)" and "(serves L M e host C moves chainId)\<^sup>*\<^sup>* ([], w0, s0) (ps, w, s)"
    and "refresh_row (db s) (hashSHA256 L raw) \<noteq> None" and "raw \<noteq> []"
    and "(serves L M e host C moves chainId)\<^sup>*\<^sup>* (ps, w, logout L (Some raw) s) (ps', w', s2)"
  shows "rotateRefreshToken L e cx raw s2 =
    (throw (AuthError ''Refresh token is missing, expired, or already used'' ''UNAUTHORIZED''), s2)"
proof -
  let ?h = "hashSHA256 L raw"
  note at = served_ok [OF assms(1,2)]
  obtain r where r: "refresh_row (db s) ?h = Some r" using assms(3) by blast
  have "db (logout L (Some raw) s) = (if rt_used r then db s else spend_refresh (db s) r)"
    using assms(4) at(1) by (simp add: logout_def mark_used_spends r)
  then have spent: "refresh.spent (db (logout L (Some raw) s)) ?h"
    using refresh.spent_spend [OF at(1) r] r by (auto simp: refresh.spent_def refresh_live_def)
  show ?thesis
    by (rule spent_refused [OF at(1,2) advances_later [OF advances_logout] spent assms(5)])
qed

text \<open>
  C13. A one-time code works once: after a login with it, no login that begins later finds the same code,
  whatever waits and whatever happens.
\<close>

theorem otp_single_use:
  assumes "store_ok (db s0)" and "(serves L M e host C moves chainId)\<^sup>*\<^sup>* ([], w0, s0) (ps, w, s)"
    and "findLatestOtpToken (cx_now cx) (db s) (hashSHA256 L (toLowerCase email)) = Some t"
    and "verifyOtp L e cx email code s = (Inr res, s1)"
    and "(serves L M e host C moves chainId)\<^sup>*\<^sup>* (ps, w, s1) (ps', w', s2)"
    and "findLatestOtpToken now (db s2) h = Some t'"
  shows "otp_id t' \<noteq> otp_id t"
proof
  assume same: "otp_id t' = otp_id t"
  note at = served_ok [OF assms(1,2)]
  have "advances (db s) (db s1)" using advances_verifyOtp [of s L e cx email code] assms(4) by simp
  note on = served_on [OF at(1,2) advances_later [OF this] assms(5)]
  have "rows_advance otp_later (otp_tokens (db s)) (otp_tokens (db s1))"
    using advances_tables [OF \<open>advances (db s) (db s1)\<close>] at(1) by (simp add: tables_later_def)
  then obtain t1 where t1: "t1 \<in> set (otp_tokens (db s1))" "otp_id t1 = otp_id t"
    using findLatestOtpToken_SomeD(1) [OF assms(3)] by (auto simp: rows_advance_def otp_later_def)
  have "otp_used t1"
    using verifyOtp_success [OF at(1) assms(4)] assms(3) t1 by (auto simp: list_all_iff)
  moreover have "rows_advance otp_later (otp_tokens (db s1)) (otp_tokens (db s2))"
    using on(1,3) by (simp add: tables_later_def)
  ultimately obtain t2 where t2: "t2 \<in> set (otp_tokens (db s2))" "otp_id t2 = otp_id t" "otp_used t2"
    using t1 by (fastforce simp: rows_advance_def otp_later_def)
  note t' = findLatestOtpToken_SomeD [OF assms(6)]
  have "t' = t2"
    using distinct_map_eqD [OF store_ok_keys(7) [OF on(2)] t'(1) t2(1)] same t2(2) by simp
  then show False using t'(3) t2(3) by simp
qed

section \<open>Guesses that interleave\<close>

lemma admitted:
  assumes "emailFailedAttempts s (toLowerCase email) = None"
  shows "turn ([serve_call L e host (CreateSession cx email pw None)], s)
    ([answering (\<lambda>_. Done) (compare_async L e cx email pw)], s)"
proof -
  obtain f where "serve_call L e host (CreateSession cx email pw None) = Await f"
    and "f s = (answering (\<lambda>_. Done) (compare_async L e cx email pw), s)"
    using assms
    by (simp add: session_async_def truthy_def login_async_def atomic_def answering_def admit_login_def check_attempts_def)
  then show ?thesis using turn_last [of f s _ s "[]"] by simp
qed

lemma compared_wrong:
  assumes "\<not> password_matches L (db s) email pw"
  shows "run_async (answering f (compare_async L e cx email pw)) s =
    (throw (AuthError ''Invalid credentials'' ''INVALID_CREDENTIALS''),
     s\<lparr>emailFailedAttempts := fail_attempt (cx_now cx) (toLowerCase email) (emailFailedAttempts s)\<rparr>)"
  using assms
  by (auto simp: answering_def compare_async_def password_matches_def login_matches_def Let_def split: option.splits)

text \<open>
  C18. The limit of guesses holds for requests that follow each other, not for requests that interleave: however
  many wrong passwords for one address arrive together, every one of them can be compared with the stored hash,
  because all pass the check before the first failure is counted. They are all counted afterwards.
\<close>

theorem concurrent_guesses:
  assumes "emailFailedAttempts s (toLowerCase email) = None" and "guesses \<noteq> []"
    and "\<forall>(cx, password) \<in> set guesses. \<not> password_matches L (db s) email password"
  shows "\<exists>s' r. turn\<^sup>*\<^sup>*
      (map (\<lambda>(cx, password). serve_call L e host (CreateSession cx email password None)) guesses, s)
      (map (\<lambda>_. Return (throw (AuthError ''Invalid credentials'' ''INVALID_CREDENTIALS''))) guesses, s') \<and>
    emailFailedAttempts s' (toLowerCase email) = Some r \<and> count r = int (length guesses)"
proof -
  let ?arrived = "\<lambda>(cx, pw). serve_call L e host (CreateSession cx email pw None)"
  let ?admitted = "\<lambda>(cx, pw). answering (\<lambda>_. Done) (compare_async L e cx email pw)"
  let ?refused = "\<lambda>_. Return (throw (AuthError ''Invalid credentials'' ''INVALID_CREDENTIALS'')) :: answer async"
  let ?counted = "\<lambda>i (s' :: sys). db s' = db s \<and> (case emailFailedAttempts s' (toLowerCase email) of
      None \<Rightarrow> i = 0 | Some r \<Rightarrow> i \<noteq> 0 \<and> count r = int i)"
  have "\<exists>s'. s' = s \<and> turn\<^sup>*\<^sup>* (map ?arrived guesses, s) (map ?admitted guesses, s')"
    by (rule turns_each [where J = "\<lambda>_ s'. s' = s"]) (use admitted [OF assms(1)] in \<open>auto split: prod.split\<close>)
  moreover have "\<exists>s'. ?counted (0 + length guesses) s' \<and> turn\<^sup>*\<^sup>* (map ?admitted guesses, s) (map ?refused guesses, s')"
  proof (rule turns_each)
    fix x i and s1 :: sys assume x: "x \<in> set guesses" and i: "?counted i s1"
    obtain cx pw where "x = (cx, pw)" by (cases x)
    moreover from this x have "\<not> password_matches L (db s1) email pw" using assms(3) i by auto
    ultimately show "\<exists>s'. ?counted (Suc i) s' \<and> turn\<^sup>*\<^sup>* ([?admitted x], s1) ([?refused x], s')"
      using run_turns [of "[]" "?admitted x" s1] i
      by (intro exI [of _ "snd (run_async (?admitted x) s1)"])
        (auto simp: compared_wrong fail_attempt_def split: option.splits)
  qed (simp add: assms(1))
  ultimately show ?thesis
    using assms(2) by (auto split: option.splits intro: rtranclp_trans)
qed

text \<open>
  The same of one-time codes: however many wrong codes for one address arrive together, all of them can be compared with the
  stored code, because all requests read its number of attempts before the first attempt is counted.
\<close>

lemma code_read:
  assumes "findLatestOtpToken (cx_now cx) (db s) (hashSHA256 L (toLowerCase email)) = Some t"
    and "otp_attempts t < OTP_ATTEMPT_LIMIT"
    and "timingSafeEqual (from_hex (otp_hash t)) (from_hex (hashSHA256 L code)) = Inr False"
  shows "turn ([serve_call L e host (VerifyOtp cx email code)], s)
    ([then_do (change (\<lambda>s. s\<lparr>db := incrementOtpAttempts (db s) (otp_id t)\<rparr>))
        (\<lambda>_. fail_with (AuthError ''Invalid OTP'' ''INVALID_OTP''))], s)"
proof -
  obtain f where "serve_call L e host (VerifyOtp cx email code) = Await f"
    and "f s = (then_do (change (\<lambda>s. s\<lparr>db := incrementOtpAttempts (db s) (otp_id t)\<rparr>))
        (\<lambda>_. fail_with (AuthError ''Invalid OTP'' ''INVALID_OTP'')), s)"
    using assms
    by (simp add: verifyOtp_async_def query_def atomic_def answering_def change_def comp_def case_prod_beta map_prod_def)
  then show ?thesis using turn_last [of f s _ s "[]"] by simp
qed

lemma concurrent_codes:
  assumes "\<forall>(cx, code) \<in> set guesses.
      findLatestOtpToken (cx_now cx) (db s) (hashSHA256 L (toLowerCase email)) = Some t \<and>
      timingSafeEqual (from_hex (otp_hash t)) (from_hex (hashSHA256 L code)) = Inr False"
    and "otp_attempts t < OTP_ATTEMPT_LIMIT"
  shows "\<exists>s'. turn\<^sup>*\<^sup>*
      (map (\<lambda>(cx, code). serve_call L e host (VerifyOtp cx email code)) guesses, s)
      (map (\<lambda>_. Return (throw (AuthError ''Invalid OTP'' ''INVALID_OTP''))) guesses, s')"
proof -
  let ?arrived = "\<lambda>(cx, code). serve_call L e host (VerifyOtp cx email code)"
  let ?read = "\<lambda>_. then_do (change (\<lambda>s. s\<lparr>db := incrementOtpAttempts (db s) (otp_id t)\<rparr>))
    (\<lambda>_. fail_with (AuthError ''Invalid OTP'' ''INVALID_OTP'')) :: answer async"
  let ?refused = "\<lambda>_. Return (throw (AuthError ''Invalid OTP'' ''INVALID_OTP'')) :: answer async"
  have "\<exists>s'. s' = s \<and> turn\<^sup>*\<^sup>* (map ?arrived guesses, s) (map ?read guesses, s')"
    by (rule turns_each [where J = "\<lambda>_ s'. s' = s"]) (use code_read assms in \<open>fastforce split: prod.split\<close>)+
  moreover have "\<exists>s'. True \<and> turn\<^sup>*\<^sup>* (map ?read guesses, s) (map ?refused guesses, s')"
  proof (rule turns_each [where J = "\<lambda>_ _. True"])
    fix x i and s1 :: sys
    show "\<exists>s'. True \<and> turn\<^sup>*\<^sup>* ([?read x], s1) ([?refused x], s')"
      using run_turns [of "[]" "?read x" s1] by auto
  qed simp
  ultimately show ?thesis by (blast intro: rtranclp_trans)
qed

section \<open>Requests that read before either writes\<close>

definition answered :: "'a async \<Rightarrow> bool" where
  "answered p \<longleftrightarrow> (case p of Return r \<Rightarrow> \<not> isl r | Await f \<Rightarrow> False)"

lemma race:
  assumes "list_all (\<lambda>i. i < length ps) order" and "list_all answered (fst (schedule order (ps, s)))"
  shows "\<exists>ps' s'. turn\<^sup>*\<^sup>* (ps, s) (ps', s') \<and> list_all answered ps'"
  using schedule_turns [OF assms(1), of s] assms(2) by (metis prod.collapse)

text \<open>Two rotations that read one refresh token before either commits are both given a session.\<close>

lemma refresh_race:
  "\<exists>ps s'. turn\<^sup>*\<^sup>* ([serve_call demo_libs demo_env no_host (RotateRefresh (demo_ctx 2 1) demo_raw),
      serve_call demo_libs demo_env no_host (RotateRefresh (demo_ctx 4 1) demo_raw)], demo_sys) (ps, s') \<and>
    list_all answered ps"
  by (rule race [of _ "[0, 0, 1, 1, 0, 1]"]) code_simp+

text \<open>Two logins that read one code before either marks it are both given a session.\<close>

lemma otp_race:
  "\<exists>ps s'. turn\<^sup>*\<^sup>* ([serve_call demo_libs demo_env no_host (VerifyOtp (demo_ctx 3 2) ''a@x.io'' ''123456''),
      serve_call demo_libs demo_env no_host (VerifyOtp (demo_ctx 4 2) ''a@x.io'' ''123456'')], demo_login) (ps, s') \<and>
    list_all answered ps"
  by (rule race [of _ "[0, 1, 0, 0, 0, 0, 1, 1, 1, 1]"]) code_simp+

text \<open>
  Two invitations into an organisation with room for one more user, accepted by requests that both count
  the members first: the organisation then has more active users than its limit.
\<close>

definition demo_invitation :: "nat \<Rightarrow> invitation" where
  "demo_invitation n =
     \<lparr>inv_invitation_id = [digit_char n], inv_org_id = ''1-0'', inv_invited_by = ''1-1'', inv_role = MEMBER,
      inv_status = PENDING, inv_token_hash = hashSHA256 demo_libs [digit_char n], inv_expires_at = 100,
      inv_created_at = 0\<rparr>"

definition demo_invited :: sys where
  "demo_invited = demo_sys\<lparr>db := (db demo_sys)\<lparr>invitations := [demo_invitation 1, demo_invitation 2],
     organisations := map (\<lambda>g. g\<lparr>o_user_limit := 2\<rparr>) (organisations (db demo_sys))\<rparr>\<rparr>"

lemma registration_race:
  "\<exists>ps s'. turn\<^sup>*\<^sup>* ([serve_call demo_libs demo_env no_host (CreateSession (demo_ctx 2 1) ''b@x.io'' ''pw'' (Some ''1'')),
      serve_call demo_libs demo_env no_host (CreateSession (demo_ctx 3 1) ''c@x.io'' ''pw'' (Some ''2''))], demo_invited)
      (ps, s') \<and> members_ok (db demo_invited) \<and> \<not> members_ok (db s')"
proof -
  let ?c = "([serve_call demo_libs demo_env no_host (CreateSession (demo_ctx 2 1) ''b@x.io'' ''pw'' (Some ''1'')),
      serve_call demo_libs demo_env no_host (CreateSession (demo_ctx 3 1) ''c@x.io'' ''pw'' (Some ''2''))], demo_invited)"
  let ?order = "[0, 0, 0, 1, 1, 1, 0, 1]"
  have "turn\<^sup>*\<^sup>* ?c (schedule ?order ?c)" by (rule schedule_turns) code_simp
  moreover have "members_ok (db demo_invited)" by code_simp
  moreover have "\<not> members_ok (db (snd (schedule ?order ?c)))" by code_simp
  ultimately show ?thesis by (metis prod.collapse)
qed

section \<open>Concrete runs\<close>

lemma demo_serves_refresh:
  "demo_serves\<^sup>*\<^sup>* ([], [], demo_sys) ([Return (Inr (NewSession demo_session))], [], demo_sys2)"
  using serves_alone [of demo_libs demo_M demo_env no_host toy_client "(=)" 84532 "[]" "[]" demo_sys
      "RotateRefresh (demo_ctx 2 1) demo_raw"]
  by (simp add: demo_rotation map_op_def)

lemma tokens_refine_witness:
  "store_ok (db demo_sys2) \<and>
   token_step\<^sup>*\<^sup>* (dom (refresh_row (db demo_sys)), findRefreshTokenByHash 2 (db demo_sys))
    (dom (refresh_row (db demo_sys2)), findRefreshTokenByHash 2 (db demo_sys2))"
  using tokens_refine [OF demo_store_ok demo_serves_refresh] by blast

lemma demo_rotation_parts:
  obtains existing user where "rotate_find demo_libs (demo_ctx 2 1) demo_raw demo_sys = Inr (existing, user)"
    "rotate_commit demo_libs demo_env (demo_ctx 2 1) (existing, user) demo_sys = (Inr demo_session, demo_sys2)"
  using demo_rotation by (auto simp: rotateRefreshToken_def split: sum.splits)

lemma refresh_token_single_use_witness:
  "rotateRefreshToken demo_libs demo_env (demo_ctx 3 2) demo_raw demo_sys2 =
    (throw (AuthError ''Refresh token is missing, expired, or already used'' ''UNAUTHORIZED''), demo_sys2)"
proof -
  obtain existing user where r: "rotate_find demo_libs (demo_ctx 2 1) demo_raw demo_sys = Inr (existing, user)"
    "rotate_commit demo_libs demo_env (demo_ctx 2 1) (existing, user) demo_sys = (Inr demo_session, demo_sys2)"
    by (rule demo_rotation_parts)
  show ?thesis
    by (rule refresh_token_single_use [where L = demo_libs and M = demo_M and host = no_host and C = toy_client
          and moves = "(=)" and chainId = 84532 and ?w0.0 = "[]" and ?ps1.0 = "[]" and ?ps2.0 = "[]" and ?ps4.0 = "[]",
          OF demo_store_ok _ r(1) _ r(2)]) auto
qed

lemma logout_revokes_witness:
  "rotateRefreshToken demo_libs demo_env (demo_ctx 3 2) demo_raw (logout demo_libs (Some demo_raw) demo_sys) =
    (throw (AuthError ''Refresh token is missing, expired, or already used'' ''UNAUTHORIZED''),
     logout demo_libs (Some demo_raw) demo_sys)"
proof (rule logout_revokes [where M = demo_M and host = no_host and C = toy_client
        and moves = "(=)" and chainId = 84532 and ?w0.0 = "[]" and ps = "[]", OF demo_store_ok])
  show "refresh_row (db demo_sys) (hashSHA256 demo_libs demo_raw) \<noteq> None" by code_simp
  show "demo_raw \<noteq> []" by code_simp
qed auto

lemma demo_serves_again: "demo_serves\<^sup>*\<^sup>* ([], [], snd demo_verified)
    ([Return (fst (call_op demo_libs demo_env no_host (CreateSession (demo_ctx 4 3) ''a@x.io'' ''password'' None) (snd demo_verified)))],
     [], demo_again)"
  using serves_alone [of demo_libs demo_M demo_env no_host toy_client "(=)" 84532 "[]" "[]" "snd demo_verified"
      "CreateSession (demo_ctx 4 3) ''a@x.io'' ''password'' None"]
  by (simp add: map_op_def demo_again_def split: prod.splits)

lemma otp_single_use_witness: "otp_id demo_token2 \<noteq> otp_id demo_token"
proof (rule otp_single_use [where ?w0.0 = "[]", OF _ _ demo_token_found demo_verified_ok demo_serves_again demo_token2_found])
  show "store_ok (db demo_login)" using demo_login_inv by (simp add: store_inv_def)
qed simp

lemma concurrent_guesses_witness:
  "\<exists>s' r. turn\<^sup>*\<^sup>*
      (map (\<lambda>(cx, password). serve_call demo_libs demo_env no_host (CreateSession cx ''a@x.io'' password None))
         (replicate 100 (demo_ctx 2 1, ''wrong'')), demo_sys)
      (map (\<lambda>_. Return (throw (AuthError ''Invalid credentials'' ''INVALID_CREDENTIALS'')))
         (replicate 100 (demo_ctx 2 1, ''wrong'')), s') \<and>
    emailFailedAttempts s' ''a@x.io'' = Some r \<and> count r = 100"
proof -
  have "emailFailedAttempts demo_sys (toLowerCase ''a@x.io'') = None" by code_simp
  moreover have "\<not> password_matches demo_libs (db demo_sys) ''a@x.io'' ''wrong''" by code_simp
  moreover have "toLowerCase ''a@x.io'' = ''a@x.io''" by code_simp
  ultimately show ?thesis
    using concurrent_guesses [of demo_sys "''a@x.io''" "replicate 100 (demo_ctx 2 1, ''wrong'')" demo_libs demo_env no_host]
    by simp
qed

end
