(* ===== verification/Validators.thy ===== *)
theory Validators
  imports AccountRoutes EventRoutes
begin

text \<open>
  The schemas of \<open>src/validators\<close>. A schema is the tree of the zod calls that build it; zod itself
  is a parameter, \<open>zod\<close>, and \<open>zod_law\<close> is its documented contract: a text, an array or an object
  is accepted when all its checks pass, and the parsed value is the given one without the keys
  the schema does not name.

  After the schemas: the typed bodies, how a parsed value gives one, and that whatever a handler
  receives keeps the limits of its schema.
\<close>

section \<open>Schemas\<close>

datatype string_check =
    MinLength nat "string option"
  | MaxLength nat "string option"
  | Email "string option"
  | Regex "string \<Rightarrow> bool" string
  | Datetime string

datatype array_check =
    MinItems nat string
  | MaxItems nat string
  | RefineItems "json list \<Rightarrow> bool" string

datatype schema =
    ZString "string option" "string_check list"
      \<comment> \<open>the message for a missing text, and the checks in their order\<close>
  | ZEnum "string list"
  | ZUnknownRecord
  | ZArray schema "array_check list"
  | ZOptional schema
  | ZObject "(string \<times> schema) list"
  | ZSuperRefine schema "json \<Rightarrow> string option"
      \<comment> \<open>the message of the issue that the refinement adds to the parsed value\<close>

record zod =
  z_email :: "string \<Rightarrow> bool"
  z_datetime_offset :: "string \<Rightarrow> bool"
  z_safeParse :: "schema \<Rightarrow> json \<Rightarrow> zod_issue list + json"

section \<open>What a schema accepts\<close>

fun string_check_ok :: "zod \<Rightarrow> string \<Rightarrow> string_check \<Rightarrow> bool" where
  "string_check_ok Z s (MinLength n _) = (n \<le> length s)"
| "string_check_ok Z s (MaxLength n _) = (length s \<le> n)"
| "string_check_ok Z s (Email _) = z_email Z s"
| "string_check_ok Z s (Regex P _) = P s"
| "string_check_ok Z s (Datetime _) = z_datetime_offset Z s"

fun array_check_ok :: "json list \<Rightarrow> array_check \<Rightarrow> bool" where
  "array_check_ok xs (MinItems n _) = (n \<le> length xs)"
| "array_check_ok xs (MaxItems n _) = (length xs \<le> n)"
| "array_check_ok xs (RefineItems P _) = P xs"

text \<open>
  A missing field is \<open>undefined\<close>, here \<open>None\<close>. A record copies its properties by assignment, so
  one named \<open>__proto__\<close> is left out.
\<close>

fun strip :: "schema \<Rightarrow> json \<Rightarrow> json"
  and strip_fields :: "(string \<times> schema) list \<Rightarrow> (string \<times> json) list \<Rightarrow> (string \<times> json) list"
where
  "strip (ZString _ _) j = j"
| "strip (ZEnum _) j = j"
| "strip ZUnknownRecord j =
     (case j of JObj ps \<Rightarrow> JObj (filter (\<lambda>(k, _). k \<noteq> ''__proto__'') ps) | _ \<Rightarrow> j)"
| "strip (ZArray sc _) j = (case j of JArr xs \<Rightarrow> JArr (map (strip sc) xs) | _ \<Rightarrow> j)"
| "strip (ZOptional sc) j = strip sc j"
| "strip (ZObject fs) j = (case j of JObj ps \<Rightarrow> JObj (strip_fields fs ps) | _ \<Rightarrow> j)"
| "strip (ZSuperRefine sc _) j = strip sc j"
| "strip_fields [] ps = []"
| "strip_fields ((k, sc) # fs) ps =
     (case map_of ps k of None \<Rightarrow> [] | Some j \<Rightarrow> [(k, strip sc j)]) @ strip_fields fs ps"

fun accepts :: "zod \<Rightarrow> schema \<Rightarrow> json option \<Rightarrow> bool"
  and accepts_fields :: "zod \<Rightarrow> (string \<times> schema) list \<Rightarrow> (string \<times> json) list \<Rightarrow> bool"
where
  "accepts Z (ZString _ cs) jo =
     (case jo of Some (JStr s) \<Rightarrow> list_all (string_check_ok Z s) cs | _ \<Rightarrow> False)"
| "accepts Z (ZEnum vs) jo = (case jo of Some (JStr s) \<Rightarrow> s \<in> set vs | _ \<Rightarrow> False)"
| "accepts Z ZUnknownRecord jo = (case jo of Some (JObj ps) \<Rightarrow> True | _ \<Rightarrow> False)"
| "accepts Z (ZArray sc cs) jo =
     (case jo of
        Some (JArr xs) \<Rightarrow>
          list_all (\<lambda>x. accepts Z sc (Some x)) xs \<and> list_all (array_check_ok (map (strip sc) xs)) cs
      | _ \<Rightarrow> False)"
| "accepts Z (ZOptional sc) jo = (jo = None \<or> accepts Z sc jo)"
| "accepts Z (ZObject fs) jo = (case jo of Some (JObj ps) \<Rightarrow> accepts_fields Z fs ps | _ \<Rightarrow> False)"
| "accepts Z (ZSuperRefine sc r) jo =
     (accepts Z sc jo \<and> (case jo of None \<Rightarrow> False | Some j \<Rightarrow> r (strip sc j) = None))"
| "accepts_fields Z [] ps = True"
| "accepts_fields Z ((k, sc) # fs) ps = (accepts Z sc (map_of ps k) \<and> accepts_fields Z fs ps)"

definition zod_law :: "zod \<Rightarrow> bool" where
  "zod_law Z \<longleftrightarrow>
     (\<forall>sc j. case z_safeParse Z sc j of
        Inl issues \<Rightarrow> issues \<noteq> [] \<and> \<not> accepts Z sc (Some j)
      | Inr v \<Rightarrow> accepts Z sc (Some j) \<and> v = strip sc j)"

section \<open>The schemas\<close>

definition six_digits :: "string \<Rightarrow> bool" where
  "six_digits s \<longleftrightarrow> length s = 6 \<and> list_all is_digit s"

definition LoginSchema :: schema where
  "LoginSchema = ZObject
     [(''email'', ZString None [Email (Some ''Invalid email format'')]),
      (''password'', ZString None [MinLength 8 (Some ''Password must be at least 8 characters'')]),
      (''invitation_token'', ZOptional (ZString None []))]"

definition GoogleAuthSchema :: schema where
  "GoogleAuthSchema = ZObject
     [(''google_id_token'', ZString None [MinLength 1 (Some ''Google ID token is required'')]),
      (''invitation_token'', ZOptional (ZString None []))]"

definition MfaCodeSchema :: schema where
  "MfaCodeSchema = ZObject
     [(''totp_code'', ZString None [Regex six_digits ''Authenticator code must be exactly 6 digits''])]"

definition MfaVerifySchema :: schema where
  "MfaVerifySchema = ZObject
     [(''email'', ZString None [Email (Some ''Invalid email format'')]),
      (''totp_code'', ZString None [Regex six_digits ''Authenticator code must be exactly 6 digits''])]"

definition OtpVerifySchema :: schema where
  "OtpVerifySchema = ZObject
     [(''email'', ZString None [Email (Some ''Invalid email format'')]),
      (''otp'', ZString None [Regex six_digits ''OTP must be exactly 6 digits''])]"

definition OtpResendSchema :: schema where
  "OtpResendSchema = ZObject [(''email'', ZString None [Email (Some ''Invalid email format'')])]"

definition PasswordResetRequestSchema :: schema where
  "PasswordResetRequestSchema = ZObject [(''email'', ZString None [Email (Some ''Invalid email format'')])]"

definition PasswordResetConfirmSchema :: schema where
  "PasswordResetConfirmSchema = ZObject
     [(''email'', ZString None [Email (Some ''Invalid email format'')]),
      (''otp'', ZString None [Regex six_digits ''OTP must be exactly 6 digits'']),
      (''new_password'', ZString None [MinLength 8 (Some ''Password must be at least 8 characters'')])]"

text \<open>The two ways to sign up: a field counts as given unless it is \<open>undefined\<close>.\<close>

definition has_field :: "string \<Rightarrow> json \<Rightarrow> bool" where
  "has_field k data = (case data of JObj ps \<Rightarrow> map_of ps k \<noteq> None | _ \<Rightarrow> False)"

definition one_path :: "json \<Rightarrow> string option" where
  "one_path data =
     (let hasEmailPath = has_field ''admin_email'' data \<and> has_field ''password'' data;
          hasGooglePath = has_field ''google_id_token'' data
      in if \<not> hasEmailPath \<and> \<not> hasGooglePath
         then Some ''Either admin_email + password or google_id_token is required''
         else if hasEmailPath \<and> hasGooglePath
         then Some ''admin_email + password and google_id_token are mutually exclusive''
         else None)"

definition CreateOrgSchema :: schema where
  "CreateOrgSchema = ZSuperRefine (ZObject
     [(''org_name'', ZString None
         [MinLength 2 (Some ''Organisation name must be at least 2 characters''),
          MaxLength 100 (Some ''Organisation name must be at most 100 characters'')]),
      (''admin_email'', ZOptional (ZString None [Email (Some ''Invalid email format'')])),
      (''password'', ZOptional (ZString None [MinLength 8 (Some ''Password must be at least 8 characters'')])),
      (''google_id_token'', ZOptional (ZString None []))]) one_path"

definition CreateApiKeySchema :: schema where
  "CreateApiKeySchema = ZObject
     [(''permissions'', ZArray (ZEnum (map permission_text [EVENTS_WRITE, EVENTS_READ, VERIFICATION_READ]))
         [MinItems 1 ''At least one permission is required'',
          MaxItems 3 ''No more than 3 permissions allowed'',
          RefineItems (\<lambda>perms. length (remdups perms) = length perms) ''Permissions must be unique'']),
      (''email'', ZOptional (ZString None [Email None])),
      (''name'', ZOptional (ZString None [MinLength 1 None, MaxLength 100 None]))]"

definition MAX_PROMPT_LENGTH :: nat where "MAX_PROMPT_LENGTH = 100000"
definition MAX_OUTPUT_LENGTH :: nat where "MAX_OUTPUT_LENGTH = 100000"
definition MAX_MODEL_LENGTH :: nat where "MAX_MODEL_LENGTH = 100"
definition MAX_WORKFLOW_ID_LENGTH :: nat where "MAX_WORKFLOW_ID_LENGTH = 200"

definition CreateEventSchema :: schema where
  "CreateEventSchema = ZObject
     [(''prompt'', ZString (Some ''prompt is required'')
         [MinLength 1 (Some ''prompt must not be empty''),
          MaxLength MAX_PROMPT_LENGTH
            (Some (''prompt must be at most '' @ show_nat MAX_PROMPT_LENGTH @ '' characters''))]),
      (''output'', ZString (Some ''output is required'')
         [MinLength 1 (Some ''output must not be empty''),
          MaxLength MAX_OUTPUT_LENGTH
            (Some (''output must be at most '' @ show_nat MAX_OUTPUT_LENGTH @ '' characters''))]),
      (''model_id'', ZString (Some ''model_id is required'')
         [MinLength 1 (Some ''model_id must not be empty''),
          MaxLength MAX_MODEL_LENGTH
            (Some (''model_id must be at most '' @ show_nat MAX_MODEL_LENGTH @ '' characters''))]),
      (''timestamp'', ZString (Some ''timestamp is required'')
         [Datetime ''timestamp must be an ISO 8601 datetime string'']),
      (''workflow_id'', ZOptional (ZString None
         [MaxLength MAX_WORKFLOW_ID_LENGTH
            (Some (''workflow_id must be at most '' @ show_nat MAX_WORKFLOW_ID_LENGTH @ '' characters''))])),
      (''metadata'', ZOptional ZUnknownRecord)]"

section \<open>Typed bodies\<close>

text \<open>
  The types the schemas infer. A handler reads the fields of the parsed value; a text field that is
  not there is \<open>undefined\<close>.
\<close>

definition field :: "json \<Rightarrow> string \<Rightarrow> json option" where
  "field data k = (case data of JObj ps \<Rightarrow> map_of ps k | _ \<Rightarrow> None)"

definition opt_text :: "json \<Rightarrow> string \<Rightarrow> string option" where
  "opt_text data k = (case field data k of Some (JStr s) \<Rightarrow> Some s | _ \<Rightarrow> None)"

definition text_of :: "json \<Rightarrow> string \<Rightarrow> string" where
  "text_of data k = (case opt_text data k of Some s \<Rightarrow> s | None \<Rightarrow> '''')"

record login_body =
  lb_email :: string
  lb_password :: string
  lb_invitation_token :: "string option"

record google_auth_body =
  gb_google_id_token :: string
  gb_invitation_token :: "string option"

record otp_verify_body =
  vb_email :: string
  vb_otp :: string

record password_reset_confirm_body =
  pb_email :: string
  pb_otp :: string
  pb_new_password :: string

definition login_body_of :: "json \<Rightarrow> login_body" where
  "login_body_of data =
     \<lparr>lb_email = text_of data ''email'', lb_password = text_of data ''password'',
      lb_invitation_token = opt_text data ''invitation_token''\<rparr>"

definition google_auth_body_of :: "json \<Rightarrow> google_auth_body" where
  "google_auth_body_of data =
     \<lparr>gb_google_id_token = text_of data ''google_id_token'',
      gb_invitation_token = opt_text data ''invitation_token''\<rparr>"

definition otp_verify_body_of :: "json \<Rightarrow> otp_verify_body" where
  "otp_verify_body_of data = \<lparr>vb_email = text_of data ''email'', vb_otp = text_of data ''otp''\<rparr>"

definition password_reset_confirm_body_of :: "json \<Rightarrow> password_reset_confirm_body" where
  "password_reset_confirm_body_of data =
     \<lparr>pb_email = text_of data ''email'', pb_otp = text_of data ''otp'',
      pb_new_password = text_of data ''new_password''\<rparr>"

definition create_org_body_of :: "json \<Rightarrow> create_org_body" where
  "create_org_body_of data =
     \<lparr>cb_org_name = text_of data ''org_name'', cb_admin_email = opt_text data ''admin_email'',
      cb_password = opt_text data ''password'', cb_google_id_token = opt_text data ''google_id_token''\<rparr>"

fun permission_of_json :: "json \<Rightarrow> permission" where
  "permission_of_json (JStr s) =
     (if s = permission_text EVENTS_WRITE then EVENTS_WRITE
      else if s = permission_text EVENTS_READ then EVENTS_READ else VERIFICATION_READ)"
| "permission_of_json _ = VERIFICATION_READ"

definition create_key_body_of :: "json \<Rightarrow> create_key_body" where
  "create_key_body_of data =
     \<lparr>kb_permissions = (case field data ''permissions'' of Some (JArr xs) \<Rightarrow> map permission_of_json xs | _ \<Rightarrow> []),
      kb_email = opt_text data ''email'', kb_name = opt_text data ''name''\<rparr>"

definition create_event_body_of :: "json \<Rightarrow> create_event_body" where
  "create_event_body_of data =
     \<lparr>eb_prompt = text_of data ''prompt'', eb_output = text_of data ''output'',
      eb_model_id = text_of data ''model_id'', eb_timestamp = text_of data ''timestamp'',
      eb_workflow_id = opt_text data ''workflow_id'',
      eb_metadata = (case field data ''metadata'' of Some (JObj ps) \<Rightarrow> Some ps | _ \<Rightarrow> None)\<rparr>"

text \<open>\<open>safeParse\<close> at the type of a handler's body: the argument \<open>validateBody\<close> takes.\<close>

definition parses :: "zod \<Rightarrow> schema \<Rightarrow> (json \<Rightarrow> 'b) \<Rightarrow> json \<Rightarrow> zod_issue list + 'b" where
  "parses Z sc typed j = map_sum id typed (z_safeParse Z sc j)"

section \<open>What the handlers receive\<close>

lemma zod_law_Inr: "zod_law Z \<Longrightarrow> z_safeParse Z sc j = Inr v \<Longrightarrow> accepts Z sc (Some j) \<and> v = strip sc j"
  by (auto simp: zod_law_def dest!: spec [of _ sc] spec [of _ j])

lemma zod_law_Inl: "zod_law Z \<Longrightarrow> z_safeParse Z sc j = Inl is \<Longrightarrow> is \<noteq> [] \<and> \<not> accepts Z sc (Some j)"
  by (auto simp: zod_law_def dest!: spec [of _ sc] spec [of _ j])

lemma zod_law_accepts: "zod_law Z \<Longrightarrow> accepts Z sc (Some j) \<Longrightarrow> z_safeParse Z sc j = Inr (strip sc j)"
  by (cases "z_safeParse Z sc j") (auto dest: zod_law_Inr zod_law_Inl)

lemma parses_Inr:
  assumes "zod_law Z"
  shows "parses Z sc typed j = Inr b \<longleftrightarrow> accepts Z sc (Some j) \<and> b = typed (strip sc j)"
  using assms by (auto simp: parses_def map_sum_def zod_law_accepts split: sum.splits dest: zod_law_Inr zod_law_Inl)

lemma parses_Inl:
  assumes "zod_law Z" and "parses Z sc typed j = Inl issues"
  shows "issues \<noteq> [] \<and> \<not> accepts Z sc (Some j)"
  using assms by (auto simp: parses_def map_sum_def split: sum.splits dest: zod_law_Inl)

lemma accepts_ZStringE:
  assumes "accepts Z (ZString m cs) jo"
  obtains s where "jo = Some (JStr s)" and "list_all (string_check_ok Z s) cs"
  using assms by (auto split: option.splits json.splits)

lemma accepts_optional_textE:
  assumes "accepts Z (ZOptional (ZString m cs)) jo"
  obtains so where "jo = map_option JStr so" and "\<forall>s. so = Some s \<longrightarrow> list_all (string_check_ok Z s) cs"
proof -
  from assms consider "jo = None" | "accepts Z (ZString m cs) jo" by auto
  then show thesis
  proof cases
    case 1
    then show thesis by (intro that [of None]) simp_all
  next
    case 2
    then show thesis by (elim accepts_ZStringE) (intro that [of "Some _"], simp_all)
  qed
qed

lemmas typed_body_defs =
  login_body_of_def google_auth_body_of_def otp_verify_body_of_def password_reset_confirm_body_of_def
  create_org_body_of_def create_key_body_of_def create_event_body_of_def text_of_def opt_text_def

text \<open>The limits, over the typed bodies.\<close>

definition event_body_ok :: "zod \<Rightarrow> create_event_body \<Rightarrow> bool" where
  "event_body_ok Z b \<longleftrightarrow>
     eb_prompt b \<noteq> [] \<and> length (eb_prompt b) \<le> MAX_PROMPT_LENGTH \<and>
     eb_output b \<noteq> [] \<and> length (eb_output b) \<le> MAX_OUTPUT_LENGTH \<and>
     eb_model_id b \<noteq> [] \<and> length (eb_model_id b) \<le> MAX_MODEL_LENGTH \<and>
     z_datetime_offset Z (eb_timestamp b) \<and>
     (case eb_workflow_id b of None \<Rightarrow> True | Some w \<Rightarrow> length w \<le> MAX_WORKFLOW_ID_LENGTH) \<and>
     (case eb_metadata b of None \<Rightarrow> True | Some ps \<Rightarrow> ''__proto__'' \<notin> fst ` set ps)"

definition org_body_ok :: "zod \<Rightarrow> create_org_body \<Rightarrow> bool" where
  "org_body_ok Z b \<longleftrightarrow>
     2 \<le> length (cb_org_name b) \<and> length (cb_org_name b) \<le> 100 \<and>
     (case cb_admin_email b of None \<Rightarrow> True | Some em \<Rightarrow> z_email Z em) \<and>
     (case cb_password b of None \<Rightarrow> True | Some pw \<Rightarrow> 8 \<le> length pw) \<and>
     ((cb_admin_email b \<noteq> None \<and> cb_password b \<noteq> None) \<noteq> (cb_google_id_token b \<noteq> None))"

definition key_body_ok :: "zod \<Rightarrow> create_key_body \<Rightarrow> bool" where
  "key_body_ok Z b \<longleftrightarrow>
     kb_permissions b \<noteq> [] \<and> distinct (kb_permissions b) \<and>
     (case kb_email b of None \<Rightarrow> True | Some em \<Rightarrow> z_email Z em) \<and>
     (case kb_name b of None \<Rightarrow> True | Some n \<Rightarrow> n \<noteq> [] \<and> length n \<le> 100)"

text \<open>A typed body as the client writes it.\<close>

definition text_entry :: "string \<Rightarrow> string option \<Rightarrow> (string \<times> json) list" where
  "text_entry k so = (case so of None \<Rightarrow> [] | Some s \<Rightarrow> [(k, JStr s)])"

definition event_json :: "create_event_body \<Rightarrow> json" where
  "event_json b = JObj
     ([(''prompt'', JStr (eb_prompt b)), (''output'', JStr (eb_output b)), (''model_id'', JStr (eb_model_id b)),
       (''timestamp'', JStr (eb_timestamp b))] @ text_entry ''workflow_id'' (eb_workflow_id b) @
      (case eb_metadata b of None \<Rightarrow> [] | Some ps \<Rightarrow> [(''metadata'', JObj ps)]))"

definition org_json :: "create_org_body \<Rightarrow> json" where
  "org_json b = JObj
     ((''org_name'', JStr (cb_org_name b)) # text_entry ''admin_email'' (cb_admin_email b) @
      text_entry ''password'' (cb_password b) @ text_entry ''google_id_token'' (cb_google_id_token b))"

definition key_json :: "create_key_body \<Rightarrow> json" where
  "key_json b = JObj
     ((''permissions'', JArr (map (JStr \<circ> permission_text) (kb_permissions b))) #
      text_entry ''email'' (kb_email b) @ text_entry ''name'' (kb_name b))"

section \<open>Accepted bodies keep the limits, and every body within them is accepted\<close>

lemma accepts_text_iff:
  "accepts Z (ZString m cs) jo \<longleftrightarrow> (\<exists>s. jo = Some (JStr s) \<and> list_all (string_check_ok Z s) cs)"
  by (auto split: option.splits json.splits)

lemma accepts_optional_text_iff:
  "accepts Z (ZOptional (ZString m cs)) jo \<longleftrightarrow>
     (\<exists>so. jo = map_option JStr so \<and> (\<forall>s. so = Some s \<longrightarrow> list_all (string_check_ok Z s) cs))"
proof
  assume "accepts Z (ZOptional (ZString m cs)) jo"
  then show "\<exists>so. jo = map_option JStr so \<and> (\<forall>s. so = Some s \<longrightarrow> list_all (string_check_ok Z s) cs)"
    by (rule accepts_optional_textE) blast
qed (auto split: option.splits)

lemma accepts_optional_record_iff:
  "accepts Z (ZOptional ZUnknownRecord) jo \<longleftrightarrow> (\<exists>d. jo = map_option JObj d)"
proof -
  have "(\<exists>d. jo = map_option JObj d) \<longleftrightarrow> jo = None \<or> (\<exists>ps. jo = Some (JObj ps))"
    by (metis option.exhaust option.map)
  then show ?thesis by (auto split: option.splits json.splits)
qed

lemma accepts_object_iff:
  "accepts Z (ZObject fs) (Some j) \<longleftrightarrow> (\<exists>ps. j = JObj ps \<and> accepts_fields Z fs ps)"
  by (auto split: json.splits)

lemmas accepts_iffs =
  accepts_object_iff accepts_text_iff accepts_optional_text_iff accepts_optional_record_iff
  accepts_fields.simps

lemma accepted_event:
  assumes "accepts Z CreateEventSchema (Some j)"
  shows "event_body_ok Z (create_event_body_of (strip CreateEventSchema j))"
proof -
  obtain ps p q m t w d where j: "j = JObj ps"
    and f: "map_of ps ''prompt'' = Some (JStr p)" "p \<noteq> []" "length p \<le> MAX_PROMPT_LENGTH"
      "map_of ps ''output'' = Some (JStr q)" "q \<noteq> []" "length q \<le> MAX_OUTPUT_LENGTH"
      "map_of ps ''model_id'' = Some (JStr m)" "m \<noteq> []" "length m \<le> MAX_MODEL_LENGTH"
      "map_of ps ''timestamp'' = Some (JStr t)" "z_datetime_offset Z t"
    and w: "map_of ps ''workflow_id'' = map_option JStr w"
      "\<forall>s. w = Some s \<longrightarrow> length s \<le> MAX_WORKFLOW_ID_LENGTH"
    and d: "map_of ps ''metadata'' = map_option JObj d"
    using assms unfolding CreateEventSchema_def accepts_iffs
    by (elim exE conjE) (simp add: Suc_le_eq)
  show ?thesis
    by (cases w; cases d)
      (use f w(2) in \<open>auto simp add: event_body_ok_def typed_body_defs CreateEventSchema_def j field_def w(1) d\<close>)
qed

lemma permission_of_text [simp]: "permission_of_json (JStr (permission_text p)) = p"
  by (cases p) simp_all

lemma accepted_key:
  assumes "accepts Z CreateApiKeySchema (Some j)"
  shows "key_body_ok Z (create_key_body_of (strip CreateApiKeySchema j))"
proof -
  define en where "en = ZEnum (map permission_text [EVENTS_WRITE, EVENTS_READ, VERIFICATION_READ])"
  have en_strip: "strip en x = x" for x by (simp add: en_def)
  note S = assms [unfolded CreateApiKeySchema_def en_def [symmetric] accepts_iffs]
  from S obtain ps em n where j: "j = JObj ps"
    and a: "accepts Z (ZArray en
         [MinItems 1 ''At least one permission is required'',
          MaxItems 3 ''No more than 3 permissions allowed'',
          RefineItems (\<lambda>perms. length (remdups perms) = length perms) ''Permissions must be unique''])
         (map_of ps ''permissions'')"
    and em: "map_of ps ''email'' = map_option JStr em" "\<forall>s. em = Some s \<longrightarrow> z_email Z s"
    and n: "map_of ps ''name'' = map_option JStr n" "\<forall>s. n = Some s \<longrightarrow> s \<noteq> [] \<and> length s \<le> 100"
    by (elim exE conjE) (simp add: Suc_le_eq)
  from a obtain xs where xs: "map_of ps ''permissions'' = Some (JArr xs)" "xs \<noteq> []" "distinct xs"
      "list_all (\<lambda>x. accepts Z en (Some x)) xs"
    by (auto simp add: map_idI en_strip Suc_le_eq split: option.splits json.splits)
  have "JStr (permission_text (permission_of_json x)) = x" if "x \<in> set xs" for x
    using xs(4) that by (cases x) (auto simp: list_all_iff en_def)
  then have inj: "inj_on permission_of_json (set xs)"
    by (rule inj_on_inverseI)
  have "key_body_ok Z \<lparr>kb_permissions = map permission_of_json xs, kb_email = em, kb_name = n\<rparr>"
    using xs inj em n by (simp add: key_body_ok_def distinct_map split: option.splits)
  moreover have "create_key_body_of (strip CreateApiKeySchema j) =
      \<lparr>kb_permissions = map permission_of_json xs, kb_email = em, kb_name = n\<rparr>"
    by (cases em; cases n) (simp_all add: typed_body_defs CreateApiKeySchema_def j field_def xs em n map_idI)
  ultimately show ?thesis by simp
qed

lemma strip_record_id: "''__proto__'' \<notin> fst ` set ps \<Longrightarrow> strip ZUnknownRecord (JObj ps) = JObj ps"
  by (force intro!: filter_True)

lemma event_round_trip:
  assumes "event_body_ok Z b"
  shows "accepts Z CreateEventSchema (Some (event_json b)) \<and>
    create_event_body_of (strip CreateEventSchema (event_json b)) = b"
proof -
  have m: "strip ZUnknownRecord (JObj d) = JObj d" if "eb_metadata b = Some d" for d
    by (rule strip_record_id) (use assms that in \<open>simp add: event_body_ok_def\<close>)
  show ?thesis
    by (cases "eb_workflow_id b"; cases "eb_metadata b"; rule conjI; (rule create_event_body.equality)?)
      (use assms in \<open>simp_all add: m event_body_ok_def typed_body_defs CreateEventSchema_def event_json_def field_def
        text_entry_def Suc_le_eq del: strip.simps(3)\<close>)
qed

lemma accepted_org:
  assumes "accepts Z CreateOrgSchema (Some j)"
  shows "org_body_ok Z (create_org_body_of (strip CreateOrgSchema j))"
proof -
  obtain ps n em pw g where j: "j = JObj ps"
    and n: "map_of ps ''org_name'' = Some (JStr n)" "2 \<le> length n" "length n \<le> 100"
    and em: "map_of ps ''admin_email'' = map_option JStr em" "\<forall>s. em = Some s \<longrightarrow> z_email Z s"
    and pw: "map_of ps ''password'' = map_option JStr pw" "\<forall>s. pw = Some s \<longrightarrow> 8 \<le> length s"
    and g: "map_of ps ''google_id_token'' = map_option JStr g"
    using assms unfolding CreateOrgSchema_def accepts.simps(7) accepts_iffs
    by (elim exE conjE) simp
  have "one_path (strip CreateOrgSchema j) = None"
    using assms by (simp add: CreateOrgSchema_def j)
  then show ?thesis
    by (cases em; cases pw; cases g)
      (use n em(2) pw(2) in \<open>simp_all add: org_body_ok_def typed_body_defs CreateOrgSchema_def j field_def
        em(1) pw(1) g n one_path_def has_field_def Let_def\<close>)
qed

lemma key_round_trip:
  assumes "key_body_ok Z b"
  shows "accepts Z CreateApiKeySchema (Some (key_json b)) \<and>
    create_key_body_of (strip CreateApiKeySchema (key_json b)) = b"
proof -
  have p: "permission_text p \<in> {''events:write'', ''events:read'', ''verification:read''}" for p
    by (cases p) simp_all
  have inj: "inj (JStr \<circ> permission_text)"
    by (rule inj_on_inverseI [where g = permission_of_json]) (simp del: permission_of_json.simps)
  then have d: "distinct (map (JStr \<circ> permission_text) (kb_permissions b))"
    using assms by (auto simp: key_body_ok_def distinct_map intro: inj_on_subset)
  have l: "length (kb_permissions b) \<le> 3"
  proof -
    have "set (kb_permissions b) \<subseteq> {EVENTS_WRITE, EVENTS_READ, VERIFICATION_READ}"
      using permission.exhaust by blast
    then have "card (set (kb_permissions b)) \<le> 3"
      using card_mono [of "{EVENTS_WRITE, EVENTS_READ, VERIFICATION_READ}" "set (kb_permissions b)"] by simp
    then show ?thesis using assms by (simp add: key_body_ok_def distinct_card)
  qed
  show ?thesis
    by (cases "kb_email b"; cases "kb_name b"; rule conjI; (rule create_key_body.equality)?)
      (use assms p d l in \<open>simp_all add: key_body_ok_def typed_body_defs CreateApiKeySchema_def key_json_def field_def
        text_entry_def Suc_le_eq list_all_iff map_idI comp_def
        del: permission_of_json.simps\<close>)
qed

lemma org_round_trip:
  "org_body_ok Z b \<Longrightarrow>
   accepts Z CreateOrgSchema (Some (org_json b)) \<and>
   create_org_body_of (strip CreateOrgSchema (org_json b)) = b"
  apply (cases b)
  apply (rename_tac n em pw g)
  apply (case_tac em; case_tac pw; case_tac g)
  apply (simp_all add: org_body_ok_def typed_body_defs CreateOrgSchema_def org_json_def field_def
     text_entry_def has_field_def one_path_def)
  done

end
