(* ===== verification/Routes.thy ===== *)
theory Routes
  imports Validators
begin

text \<open>
  The routes as the routers mount them, each with its schema: \<open>routes/auth/auth.routes.ts\<close>,
  \<open>routes/organisation/organisation.routes.ts\<close>, \<open>routes/invitation/invitation.routes.ts\<close> and the
  ingestion route of \<open>routes/event/event.routes.ts\<close>. \<open>hits\<close> is what the limiters counted.
\<close>

section \<open>Authentication\<close>

definition postSession :: "zod \<Rightarrow> libs \<Rightarrow> env \<Rightarrow> ctx \<Rightarrow> int \<Rightarrow> json \<Rightarrow> request \<Rightarrow> string response op" where
  "postSession Z L e cx hits body req =
     public_route hits (parses Z LoginSchema login_body_of) body req
       (\<lambda>b. createSessionHandler L e cx (lb_email b) (lb_password b) (lb_invitation_token b))"

definition postGoogle :: "zod \<Rightarrow> libs \<Rightarrow> env \<Rightarrow> ctx \<Rightarrow> int \<Rightarrow> json \<Rightarrow> request \<Rightarrow> user_info response op" where
  "postGoogle Z L e cx hits body req =
     public_route hits (parses Z GoogleAuthSchema google_auth_body_of) body req
       (\<lambda>b. createGoogleSessionHandler L e cx (gb_google_id_token b) (gb_invitation_token b))"

definition postOtpVerify :: "zod \<Rightarrow> libs \<Rightarrow> env \<Rightarrow> ctx \<Rightarrow> int \<Rightarrow> json \<Rightarrow> request \<Rightarrow> otp_reply response op" where
  "postOtpVerify Z L e cx hits body req =
     public_route hits (parses Z OtpVerifySchema otp_verify_body_of) body req
       (\<lambda>b. verifyOtpHandler L e cx (vb_email b) (vb_otp b))"

definition postOtpResend :: "zod \<Rightarrow> libs \<Rightarrow> env \<Rightarrow> ctx \<Rightarrow> int \<Rightarrow> json \<Rightarrow> request \<Rightarrow> string response op" where
  "postOtpResend Z L e cx hits body req =
     public_route hits (parses Z OtpResendSchema (\<lambda>d. text_of d ''email'')) body req (resendOtpHandler L e cx)"

definition postPasswordResetRequest ::
    "zod \<Rightarrow> libs \<Rightarrow> env \<Rightarrow> ctx \<Rightarrow> int \<Rightarrow> json \<Rightarrow> request \<Rightarrow> unit response op" where
  "postPasswordResetRequest Z L e cx hits body req =
     public_route hits (parses Z PasswordResetRequestSchema (\<lambda>d. text_of d ''email'')) body req
       (requestPasswordResetHandler L e cx)"

definition postPasswordResetConfirm ::
    "zod \<Rightarrow> libs \<Rightarrow> ctx \<Rightarrow> int \<Rightarrow> json \<Rightarrow> request \<Rightarrow> unit response op" where
  "postPasswordResetConfirm Z L cx hits body req =
     public_route hits (parses Z PasswordResetConfirmSchema password_reset_confirm_body_of) body req
       (\<lambda>b. confirmPasswordResetHandler L cx (pb_email b) (pb_otp b) (pb_new_password b))"

definition postRefresh :: "libs \<Rightarrow> env \<Rightarrow> ctx \<Rightarrow> int \<Rightarrow> request \<Rightarrow> bool response op" where
  "postRefresh L e cx hits req s =
     (case rate_limited ipRateLimiter hits req of
        Inl err \<Rightarrow> (Inl err, s)
      | Inr req1 \<Rightarrow> refreshHandler L e cx req1 s)"

section \<open>Organisations and invitations\<close>

definition postOrganisations :: "zod \<Rightarrow> libs \<Rightarrow> env \<Rightarrow> ctx \<Rightarrow> int \<Rightarrow> json \<Rightarrow> request \<Rightarrow> org_reply response op" where
  "postOrganisations Z L e cx hits body req =
     public_route hits (parses Z CreateOrgSchema create_org_body_of) body req (createOrganisationHandler L e cx)"

definition getInvitation ::
    "libs \<Rightarrow> env \<Rightarrow> millis \<Rightarrow> millis \<Rightarrow> int \<Rightarrow> request \<Rightarrow> invitation_reply response op" where
  "getInvitation L e started now hits req s =
     (case rate_limited ipRateLimiter hits req of
        Inl err \<Rightarrow> (Inl err, s)
      | Inr req1 \<Rightarrow> (validateInvitationHandler L e started now (db s) req1, s))"

section \<open>The routes with a schema of a body that is kept\<close>

definition postApiKeys_checked ::
    "zod \<Rightarrow> libs \<Rightarrow> env \<Rightarrow> ctx \<Rightarrow> int \<Rightarrow> json \<Rightarrow> request \<Rightarrow> created_api_key response op" where
  "postApiKeys_checked Z L e cx hits = postApiKeys L e cx hits (parses Z CreateApiKeySchema create_key_body_of)"

definition postEvents_checked ::
    "zod \<Rightarrow> libs \<Rightarrow> (string \<Rightarrow> millis option) \<Rightarrow> ctx \<Rightarrow> bool \<Rightarrow> bool \<Rightarrow> key_hits \<Rightarrow> json \<Rightarrow> request \<Rightarrow>
     ingest_result response op" where
  "postEvents_checked Z L host cx touched hasService hits =
     postEvents L host cx touched hasService hits (parses Z CreateEventSchema create_event_body_of)"

end
