(* ===== verification/Lifecycle.thy ===== *)
theory Lifecycle
  imports System
begin

text \<open>
  The life of events, abstractly: a map from identifiers to statuses on which four things can
  happen. The program implements it, whichever of its operations run and in whichever order.
\<close>

inductive lifecycle_step ::
    "(uuid \<Rightarrow> event_status option) \<Rightarrow> (uuid \<Rightarrow> event_status option) \<Rightarrow> bool" where
  received: "f i = None \<Longrightarrow> lifecycle_step f (f(i \<mapsto> PROCESSING))"
| hashed: "f i = Some PROCESSING \<Longrightarrow> lifecycle_step f (f(i \<mapsto> ANCHORING))"
| anchored: "f i = Some ANCHORING \<Longrightarrow> lifecycle_step f (f(i \<mapsto> ANCHORED))"
| given_up: "f i = Some ANCHORING \<Longrightarrow> lifecycle_step f (f(i \<mapsto> ANCHOR_FAILED))"

inductive_simps lifecycle_step_iff: "lifecycle_step f g"

definition lifecycle :: "store \<Rightarrow> uuid \<Rightarrow> event_status option" where
  "lifecycle d i = map_option ev_status (find_row (\<lambda>ev. ev_event_id ev = i) (events d))"

lemma lifecycle_final:
  "lifecycle_step\<^sup>*\<^sup>* f g \<Longrightarrow> f i = Some ANCHORED \<or> f i = Some ANCHOR_FAILED \<Longrightarrow> g i = f i"
  by (induction rule: rtranclp_induct) (auto simp: lifecycle_step_iff)

lemma lifecycle_row:
  assumes "unique_rows event_constraints (events d)" and "ev \<in> set (events d)"
  shows "lifecycle d (ev_event_id ev) = Some (ev_status ev)"
  by (simp add: lifecycle_def find_row_key [OF event_ids [OF assms(1)] assms(2)])

lemma lifecycle_update:
  assumes "unique_rows event_constraints (events d)" and "ev0 \<in> set (events d)"
    and "ev_event_id ev0 = i" and "ev_org_id ev0 = g"
    and "\<And>ev. ev_event_id (f ev) = ev_event_id ev" and "\<And>ev. ev_status (f ev) = st"
  shows "lifecycle (update_event d i g f) = (lifecycle d)(i \<mapsto> st)"
proof
  fix j
  let ?hit = "\<lambda>ev. ev_event_id ev = i \<and> ev_org_id ev = g"
  have "lifecycle (update_event d i g f) j =
      map_option ev_status (map_option (\<lambda>ev. if ?hit ev then f ev else ev)
        (find_row (\<lambda>ev. ev_event_id ev = j) (events d)))"
    by (simp add: lifecycle_def find_row_update_where assms(5))
  moreover have "find_row (\<lambda>ev. ev_event_id ev = i) (events d) = Some ev0"
    using find_row_key [OF event_ids [OF assms(1)] assms(2)] by (simp add: assms(3))
  moreover have "\<not> ?hit ev" if "find_row (\<lambda>ev. ev_event_id ev = j) (events d) = Some ev" "j \<noteq> i" for ev
    using find_row_SomeD [OF that(1)] that(2) by auto
  ultimately show "lifecycle (update_event d i g f) j = ((lifecycle d)(i \<mapsto> st)) j"
    by (cases "j = i"; cases "find_row (\<lambda>ev. ev_event_id ev = j) (events d)")
      (auto simp: lifecycle_def assms(3,4,6))
qed

lemma lifecycle_events_eq: "events d' = events d \<Longrightarrow> lifecycle d' = lifecycle d"
  by (simp add: lifecycle_def [abs_def])

text \<open>Ingestion receives an event or does nothing.\<close>

lemma lifecycle_create:
  assumes "createEvent now i d input = Inr (ev, d')"
  shows "lifecycle d i = None" and "lifecycle d' = (lifecycle d)(i \<mapsto> PROCESSING)"
proof -
  note ev = createEvent_SomeD [OF assms]
  have c: "((\<lambda>e. Some [ev_event_id e]), ''events_pkey'') \<in> set event_constraints"
    by (simp add: event_constraints_def)
  have "find_row (\<lambda>e. ev_event_id e = i) (events d) = None"
    using insert_row_SomeD(2) [OF ev(19) c] ev(2) by (auto simp: find_row_None_iff) (metis imageI)
  then show "lifecycle d i = None" and "lifecycle d' = (lifecycle d)(i \<mapsto> PROCESSING)"
    using ev(1,2,4) by (auto simp: lifecycle_def fun_eq_iff find_row_append split: option.split)
qed

lemma lifecycle_insert:
  "lifecycle_step\<^sup>=\<^sup>= (lifecycle (db s)) (lifecycle (db (snd (ingest_insert host cx b input s))))"
  using lifecycle_create lifecycle_step.received
  by (auto simp: ingest_insert_def split: option.split sum.split)

lemma lifecycle_ingest:
  "lifecycle_step\<^sup>=\<^sup>= (lifecycle (db s)) (lifecycle (db (snd (ingest host cx b input s))))"
  using lifecycle_insert by (auto simp: ingest_def split: option.split)

lemma lifecycle_process:
  assumes inv: "pipeline_inv L e host s" and pe: "dispatched s = xs @ pe # ys"
  shows "lifecycle_step\<^sup>=\<^sup>= (lifecycle (db s))
    (lifecycle (db (snd (process_event L e host pc pe (s\<lparr>dispatched := ds\<rparr>)))))"
proof -
  have u: "unique_rows event_constraints (events (db s))" using inv by (simp add: pipeline_inv_def)
  obtain ev where ev: "ev \<in> set (events (db s))" "ev_event_id ev = pe_event_id pe" "ev_org_id ev = pe_org_id pe"
    "ev_status ev = PROCESSING"
    using inv pe by (auto simp: pipeline_inv_def awaits_def)
  have "lifecycle (updateEventToAnchoring (db s) \<lparr>ta_event_id = pe_event_id pe, ta_org_id = pe_org_id pe,
      ta_canonical_hash = h, ta_encrypted_prompt = p, ta_encrypted_output = out, ta_status = ANCHORING\<rparr>) =
      (lifecycle (db s))(pe_event_id pe \<mapsto> ANCHORING)" for h p out
    unfolding updateEventToAnchoring_def
    by (rule lifecycle_update [OF u ev(1), THEN trans]) (simp_all add: ev)
  moreover have "lifecycle_step (lifecycle (db s)) ((lifecycle (db s))(pe_event_id pe \<mapsto> ANCHORING))"
    by (rule lifecycle_step.hashed) (use lifecycle_row [OF u ev(1)] ev(2,4) in simp)
  ultimately show ?thesis
    by (auto simp: process_event_def Let_def split: sum.split option.split)
qed

lemma lifecycle_job:
  assumes inv: "pipeline_inv L e' host (snd ws)"
  shows "lifecycle_step\<^sup>=\<^sup>= (lifecycle (db (snd ws))) (lifecycle (db (snd (process_job C chainId e ac ws))))"
proof (cases "queue (snd ws)")
  case Nil
  then show ?thesis by (simp add: process_job_def)
next
  case (Cons job jobs)
  let ?s = "snd ws"
  have u: "unique_rows event_constraints (events (db ?s))" using inv by (simp add: pipeline_inv_def)
  obtain ev where ev: "ev \<in> set (events (db ?s))" "ev_event_id ev = aj_eventId job" "ev_org_id ev = aj_orgId job"
    "ev_status ev = ANCHORING"
    using job_event [OF inv Cons] by metis
  have before: "lifecycle (db ?s) (aj_eventId job) = Some ANCHORING"
    using lifecycle_row [OF u ev(1)] ev(2,4) by simp
  show ?thesis
  proof (cases rule: anchorEvent_cases [of C job e "fst ws" chainId ac "?s\<lparr>queue := jobs\<rparr>"])
    case anchored
    show ?thesis
      using lifecycle_update [OF u ev(1-3), of "\<lambda>ev. ev\<lparr>ev_tx_hash := _, ev_block_number := _, ev_chain_id := _,
          ev_anchored_at := _, ev_status := ANCHORED\<rparr>"] lifecycle_step.anchored [of "lifecycle (db ?s)", OF before]
      by (simp add: process_job_def Cons anchored(3))
  next
    case failed
    show ?thesis
      using lifecycle_update [OF u ev(1-3), of "\<lambda>ev. ev\<lparr>ev_status := ANCHOR_FAILED, ev_anchor_error := _\<rparr>"]
        lifecycle_step.given_up [of "lifecycle (db ?s)", OF before]
      by (simp add: process_job_def Cons failed)
  qed
qed

lemma lifecycle_program_step:
  assumes "program_step L M e host C moves chainId ws ws'" and "pipeline_inv L e host (snd ws)"
  shows "lifecycle_step\<^sup>=\<^sup>= (lifecycle (db (snd ws))) (lifecycle (db (snd ws')))"
proof -
  have same: "lifecycle_step\<^sup>=\<^sup>= (lifecycle (db s)) (lifecycle (db s'))" if "leaves_events s s'" for s s'
    using that lifecycle_events_eq [of "db s'" "db s"] by (simp add: leaves_events_def)
  from assms(1) show ?thesis
  proof cases
    case (prog_account s s' w)
    then show ?thesis using same account_step_leaves [OF prog_account(3)] by (simp add: leaves_keys_def)
  next
    case prog_pipeline
    then show ?thesis
    proof cases
      case step_ingest
      then show ?thesis using lifecycle_ingest by simp
    next
      case step_process
      then show ?thesis using lifecycle_process assms(2) by simp
    next
      case step_job
      then show ?thesis using lifecycle_job assms(2) by simp
    qed simp
  qed (use same keys_leave_events in simp_all)
qed

end
