(* ===== verification/RequestProperties.thy ===== *)
theory RequestProperties
  imports Routes RouteProperties Lifecycle
begin

text \<open>
  What reaches the handlers: the bodies that a schema accepts are those within its limits, any other
  body is refused before anything happens, and the life of an event follows the abstract
  machine of \<open>Lifecycle\<close>.
\<close>

section \<open>A validator for the witnesses\<close>

definition demo_checks :: zod where
  "demo_checks = \<lparr>z_email = (\<lambda>s. CHR 0x40 \<in> set s), z_datetime_offset = (\<lambda>s. s \<noteq> []), z_safeParse = (\<lambda>sc j. Inl [])\<rparr>"

definition demo_zod :: zod where
  "demo_zod = demo_checks\<lparr>z_safeParse := (\<lambda>sc j.
     if accepts demo_checks sc (Some j) then Inr (strip sc j) else Inl [([], ''Invalid input'')])\<rparr>"

lemma string_check_demo: "string_check_ok demo_zod = string_check_ok demo_checks"
proof (intro ext)
  show "string_check_ok demo_zod s c = string_check_ok demo_checks s c" for s c
    by (cases c) (simp_all add: demo_zod_def)
qed

lemma accepts_demo:
  "accepts demo_zod sc jo = accepts demo_checks sc jo"
  "accepts_fields demo_zod fs ps = accepts_fields demo_checks fs ps"
proof (induction demo_checks sc jo and demo_checks fs ps rule: accepts_accepts_fields.induct)
  case (4 sc cs jo)
  then show ?case by (auto simp: list_all_iff split: option.split json.split)
qed (auto simp: string_check_demo split: option.split json.split)

lemma demo_zod_law: "zod_law demo_zod"
proof -
  have "z_safeParse demo_zod sc j =
      (if accepts demo_checks sc (Some j) then Inr (strip sc j) else Inl [([], ''Invalid input'')])" for sc j
    by (simp add: demo_zod_def)
  then show ?thesis by (simp add: zod_law_def accepts_demo)
qed

section \<open>Bodies\<close>

text \<open>
  A schema describes a type of bodies when it accepts only them and gives each of them, written as JSON, back.
\<close>

locale body_schema =
  fixes sc :: schema and typed :: "json \<Rightarrow> 'b" and ok :: "zod \<Rightarrow> 'b \<Rightarrow> bool" and json_of :: "'b \<Rightarrow> json"
  assumes accepted: "accepts Z sc (Some j) \<Longrightarrow> ok Z (typed (strip sc j))"
    and round_trip: "ok Z b \<Longrightarrow> accepts Z sc (Some (json_of b)) \<and> typed (strip sc (json_of b)) = b"
begin

lemma received: "zod_law Z \<Longrightarrow> ok Z b \<Longrightarrow> parses Z sc typed (json_of b) = Inr b"
  using round_trip by (simp add: parses_Inr)

lemma exact: "zod_law Z \<Longrightarrow> (\<exists>j. parses Z sc typed j = Inr b) \<longleftrightarrow> ok Z b"
  using received accepted by (auto simp: parses_Inr)

end

interpretation event_schema: body_schema CreateEventSchema create_event_body_of event_body_ok event_json
  by unfold_locales (rule accepted_event event_round_trip; assumption)+

interpretation org_schema: body_schema CreateOrgSchema create_org_body_of org_body_ok org_json
  by unfold_locales (rule accepted_org org_round_trip; assumption)+

interpretation key_schema: body_schema CreateApiKeySchema create_key_body_of key_body_ok key_json
  by unfold_locales (rule accepted_key key_round_trip; assumption)+


definition demo_event_body :: create_event_body where
  "demo_event_body = in_payload demo_input"

lemma demo_event_body_ok: "event_body_ok demo_zod demo_event_body"
  by (simp add: event_body_ok_def demo_event_body_def demo_input_def demo_zod_def demo_checks_def MAX_PROMPT_LENGTH_def
      MAX_OUTPUT_LENGTH_def MAX_MODEL_LENGTH_def)

definition demo_key_body :: create_key_body where
  "demo_key_body = \<lparr>kb_permissions = [EVENTS_READ, EVENTS_WRITE], kb_email = None, kb_name = Some ''ci''\<rparr>"




section \<open>From the request to the row\<close>


lemma demo_post_checked:
  "\<exists>resp s'. postEvents_checked demo_zod demo_libs no_host (demo_ctx 6 6002) False True (1, 1) (event_json demo_event_body)
     demo_post demo_keyed = (Inr resp, s')"
proof -
  let ?post = "postEvents_checked demo_zod demo_libs no_host (demo_ctx 6 6002) False True (1, 1)
    (event_json demo_event_body) demo_post demo_keyed"
  have "parses demo_zod CreateEventSchema create_event_body_of (event_json demo_event_body) = Inr (in_payload demo_input)"
    using event_round_trip [OF demo_event_body_ok]
    by (simp add: parses_Inr [OF demo_zod_law] demo_event_body_def [symmetric])
  then have "validateBody (parses demo_zod CreateEventSchema create_event_body_of) (event_json demo_event_body) =
      validateBody (\<lambda>j. Inr (in_payload demo_input)) JNull"
    by (simp add: validateBody_def)
  then have same: "?post = postEvents demo_libs no_host (demo_ctx 6 6002) False True (1, 1)
     (\<lambda>j. Inr (in_payload demo_input)) JNull demo_post demo_keyed" (is "_ = ?plain")
    by (simp only: postEvents_checked_def postEvents_def)
  obtain resp where "fst ?plain = Inr resp" using demo_post_ok by (cases "fst ?plain") auto
  with same show ?thesis by (auto simp: prod_eq_iff)
qed


section \<open>The life of events\<close>

lemma lifecycle_statement:
  assumes "statement host s s'"
  shows "lifecycle_step\<^sup>=\<^sup>= (lifecycle (db s)) (lifecycle (db s'))"
proof (cases "key_statement s s'")
  case True
  then have "lifecycle (db s') = lifecycle (db s)"
    using lifecycle_events_eq [of "db s'" "db s"] by (auto simp: key_statement_def leaves_events_def)
  then show ?thesis by simp
next
  case False
  then obtain cx b input where "s' = snd (ingest_insert host cx b input s)" using assms by (auto simp: statement_def)
  then show ?thesis using lifecycle_insert by simp
qed



end
