(* ===== verification/Seeds.thy ===== *)
theory Seeds
  imports EventDemo
begin

text \<open>
  The two seed scripts: \<open>src/scripts/seed-demo-orgs.ts\<close>, which creates or repairs four organisations
  with three users each, and \<open>scripts/seed-test-api-key.ts\<close>, which creates one organisation with two
  members and their keys. What was written before a statement throws stays written. Of the
  console output nothing is modelled.
\<close>

section \<open>Demo organisations\<close>

record seed_user =
  su_email :: string
  su_plain :: string
  su_role :: user_role

record seed_org =
  so_name :: string
  so_users :: "seed_user list"

abbreviation seeded :: "string \<Rightarrow> string \<Rightarrow> user_role \<Rightarrow> seed_user" where
  "seeded email plain role \<equiv> \<lparr>su_email = email, su_plain = plain, su_role = role\<rparr>"

definition ORGS :: "seed_org list" where
  "ORGS =
     [\<lparr>so_name = ''Vought Industries'', so_users =
        [seeded ''homelander@vought.com'' ''Homelander@123'' ADMIN,
         seeded ''deep@vought.com'' ''Deep@123'' MEMBER,
         seeded ''noir@vought.com'' ''Noir@123'' MEMBER]\<rparr>,
      \<lparr>so_name = ''Stark Industries'', so_users =
        [seeded ''tony@starkindustries.com'' ''TonyStark@123'' ADMIN,
         seeded ''pepper@starkindustries.com'' ''Pepper@123'' MEMBER,
         seeded ''rhodey@starkindustries.com'' ''Rhodey@123'' MEMBER]\<rparr>,
      \<lparr>so_name = ''Wayne Enterprises'', so_users =
        [seeded ''bruce@wayneenterprises.com'' ''BruceWayne@123'' ADMIN,
         seeded ''alfred@wayneenterprises.com'' ''Alfred@123'' MEMBER,
         seeded ''lucius@wayneenterprises.com'' ''Lucius@123'' MEMBER]\<rparr>,
      \<lparr>so_name = ''Umbrella Corporation'', so_users =
        [seeded ''wesker@umbrella.com'' ''Wesker@123'' ADMIN,
         seeded ''jill@umbrella.com'' ''Jill@123'' MEMBER,
         seeded ''leon@umbrella.com'' ''Leon@123'' MEMBER]\<rparr>]"

text \<open>The clock, the generated identifiers and the salts of one run over an organisation.\<close>

record seed_ctx =
  sd_now :: millis
  sd_id :: "nat \<Rightarrow> uuid"
  sd_salt :: "nat \<Rightarrow> byte list"

definition seed_organisation :: "seed_ctx \<Rightarrow> string \<Rightarrow> store \<Rightarrow> (uuid \<times> store) result" where
  "seed_organisation c name d =
     (case findOrgByName d name of
        None \<Rightarrow>
          let org = (new_organisation (sd_now c) (sd_id c 0) name)
                \<lparr>o_status := OrgACTIVE, o_subscription_status := SubACTIVE, o_user_limit := 25\<rparr>
          in map_sum id (\<lambda>orgs. (sd_id c 0, d\<lparr>organisations := orgs\<rparr>))
               (insert_row org_constraints org (organisations d))
      | Some org \<Rightarrow>
          Inr (o_org_id org,
            if o_status org \<noteq> OrgACTIVE
            then d\<lparr>organisations := update_where (\<lambda>g. o_org_id g = o_org_id org)
                (\<lambda>g. g\<lparr>o_status := OrgACTIVE, o_updated_at := sd_now c\<rparr>) (organisations d)\<rparr>
            else d))"

definition seed_one_user :: "libs \<Rightarrow> seed_ctx \<Rightarrow> uuid \<Rightarrow> nat \<Rightarrow> seed_user \<Rightarrow> store \<Rightarrow> store result" where
  "seed_one_user L c orgId k u d =
     (let passwordHash = bcrypt_hash L (sd_salt c k) 12 (su_plain u) in
      case findUserByEmail d (su_email u) of
        None \<Rightarrow>
          map_sum id (\<lambda>us. d\<lparr>users := us\<rparr>)
            (insert_row user_constraints
              (new_user (sd_now c) (sd_id c (Suc k))
                \<lparr>ud_email = su_email u, ud_password_hash = Some passwordHash, ud_google_sub = None,
                 ud_org_id = Some orgId, ud_role = su_role u, ud_invited_by = None,
                 ud_status = UserACTIVE, ud_mfa_enabled = False\<rparr>) (users d))
      | Some existing \<Rightarrow>
          Inr (d\<lparr>users := update_where (\<lambda>v. u_user_id v = u_user_id existing)
            (\<lambda>v. v\<lparr>u_password_hash := Some passwordHash, u_org_id := Some orgId, u_role := su_role u,
                    u_status := UserACTIVE\<rparr>) (users d)\<rparr>))"

fun seed_users :: "libs \<Rightarrow> seed_ctx \<Rightarrow> uuid \<Rightarrow> nat \<Rightarrow> seed_user list \<Rightarrow> store \<Rightarrow> unit result \<times> store" where
  "seed_users L c orgId k [] d = (Inr (), d)"
| "seed_users L c orgId k (u # us) d =
     (case seed_one_user L c orgId k u d of
        Inl err \<Rightarrow> (Inl err, d)
      | Inr d' \<Rightarrow> seed_users L c orgId (Suc k) us d')"

definition seedOrg :: "libs \<Rightarrow> seed_ctx \<Rightarrow> seed_org \<Rightarrow> store \<Rightarrow> unit result \<times> store" where
  "seedOrg L c seed d =
     (case seed_organisation c (so_name seed) d of
        Inl err \<Rightarrow> (Inl err, d)
      | Inr (orgId, d') \<Rightarrow> seed_users L c orgId 0 (so_users seed) d')"

fun seed_all :: "libs \<Rightarrow> (nat \<Rightarrow> seed_ctx) \<Rightarrow> nat \<Rightarrow> seed_org list \<Rightarrow> store \<Rightarrow> unit result \<times> store" where
  "seed_all L cs k [] d = (Inr (), d)"
| "seed_all L cs k (seed # seeds) d =
     (case seedOrg L (cs k) seed d of
        (Inl err, d') \<Rightarrow> (Inl err, d')
      | (Inr _, d') \<Rightarrow> seed_all L cs (Suc k) seeds d')"

definition seed_demo_orgs :: "libs \<Rightarrow> (nat \<Rightarrow> seed_ctx) \<Rightarrow> store \<Rightarrow> unit result \<times> store" where
  "seed_demo_orgs L cs = seed_all L cs 0 ORGS"

section \<open>A test organisation with two keys\<close>

definition seedMember ::
    "libs \<Rightarrow> millis \<Rightarrow> uuid \<Rightarrow> uuid \<Rightarrow> byte list \<Rightarrow> uuid \<Rightarrow> string \<Rightarrow> store \<Rightarrow> (string result) \<times> store" where
  "seedMember L now user_id key_id bytes orgId email d =
     (case insert_row user_constraints
        (new_user now user_id
          \<lparr>ud_email = email, ud_password_hash = None, ud_google_sub = None, ud_org_id = Some orgId,
           ud_role = MEMBER, ud_invited_by = None, ud_status = UserACTIVE, ud_mfa_enabled = False\<rparr>) (users d) of
        Inl err \<Rightarrow> (Inl err, d)
      | Inr us \<Rightarrow>
          let plaintextKey = ''hsk_test_'' @ to_base64url bytes;
              d' = d\<lparr>users := us\<rparr>
          in (case createApiKey_row now key_id d'
                  \<lparr>ck_org_id = orgId, ck_user_id = Some user_id, ck_key_hash = hashSHA256 L plaintextKey,
                   ck_key_prefix = take 10 plaintextKey, ck_permissions = [EVENTS_WRITE], ck_name = None\<rparr> of
                Inl err \<Rightarrow> (Inl err, d')
              | Inr (_, d'') \<Rightarrow> (Inr plaintextKey, d'')))"

text \<open>The identifiers are numbered in the order in which the script makes the rows.\<close>

definition seed_test_api_key ::
    "libs \<Rightarrow> millis \<Rightarrow> (nat \<Rightarrow> uuid) \<Rightarrow> byte list \<Rightarrow> byte list \<Rightarrow> store \<Rightarrow> (string \<times> string) result \<times> store" where
  "seed_test_api_key L now i bytes1 bytes2 d =
     (let org = (new_organisation now (i 0) ''Demo Org'')
            \<lparr>o_status := OrgACTIVE, o_subscription_status := SubACTIVE, o_user_limit := 10\<rparr>
      in case insert_row org_constraints org (organisations d) of
        Inl err \<Rightarrow> (Inl err, d)
      | Inr orgs \<Rightarrow>
          (case seedMember L now (i 1) (i 2) bytes1 (i 0) ''alice@demo.com'' (d\<lparr>organisations := orgs\<rparr>) of
             (Inl err, d1) \<Rightarrow> (Inl err, d1)
           | (Inr alice, d1) \<Rightarrow>
               (case seedMember L now (i 3) (i 4) bytes2 (i 0) ''bob@demo.com'' d1 of
                  (Inl err, d2) \<Rightarrow> (Inl err, d2)
                | (Inr bob, d2) \<Rightarrow> (Inr (alice, bob), d2))))"

section \<open>What seeding an organisation achieves\<close>

definition user_seeded :: "libs \<Rightarrow> uuid \<Rightarrow> store \<Rightarrow> seed_user \<Rightarrow> bool" where
  "user_seeded L orgId d su \<longleftrightarrow>
     (\<exists>u h. findUserByEmail d (su_email su) = Some u \<and> u_org_id u = Some orgId \<and> u_role u = su_role su \<and>
        u_status u = UserACTIVE \<and> u_password_hash u = Some h \<and> bcrypt_compare L (su_plain su) h)"

text \<open>A user without his password.\<close>

definition who :: "user \<Rightarrow> user" where
  "who u = u\<lparr>u_password_hash := None\<rparr>"

lemma seed_one_user_ok:
  assumes "store_ok d" and "seed_one_user L c g k su d = Inr d'"
  shows "store_ok d'" and "organisations d' = organisations d"
  using assms
  by (auto simp: seed_one_user_def store_ok_def map_sum_def Let_def user_constraints_def
      intro!: unique_rows_update elim: insert_row_unique split: option.splits sum.splits)

lemma seed_one_user_sets:
  assumes "store_ok d" and "bcrypt_correct L" and "seed_one_user L c g k su d = Inr d'"
  shows "user_seeded L g d' su"
    and "em \<noteq> su_email su \<Longrightarrow> findUserByEmail d' em = findUserByEmail d em"
proof (atomize (full), cases "findUserByEmail d (su_email su)")
  case None
  define u where "u = new_user (sd_now c) (sd_id c (Suc k))
    \<lparr>ud_email = su_email su, ud_password_hash = Some (bcrypt_hash L (sd_salt c k) 12 (su_plain su)), ud_google_sub = None,
     ud_org_id = Some g, ud_role = su_role su, ud_invited_by = None, ud_status = UserACTIVE, ud_mfa_enabled = False\<rparr>"
  have "d' = d\<lparr>users := users d @ [u]\<rparr>"
    using assms(3) None
    by (auto simp: seed_one_user_def map_sum_def u_def Let_def dest: insert_row_SomeD(1) split: sum.splits)
  then show "user_seeded L g d' su \<and> (em \<noteq> su_email su \<longrightarrow> findUserByEmail d' em = findUserByEmail d em)"
    using None assms(2)
    by (auto simp: user_seeded_def findUserByEmail_def find_row_append u_def new_user_def bcrypt_correct_def
        split: option.split)
next
  case (Some u)
  define f where "f = (\<lambda>v :: user. v\<lparr>u_password_hash := Some (bcrypt_hash L (sd_salt c k) 12 (su_plain su)), u_org_id := Some g,
    u_role := su_role su, u_status := UserACTIVE\<rparr>)"
  have d': "users d' = update_where (\<lambda>v. u_user_id v = u_user_id u) f (users d)"
    using assms(3) Some by (auto simp: seed_one_user_def f_def Let_def)
  have find: "findUserByEmail d' em =
      map_option (\<lambda>v. if u_user_id v = u_user_id u then f v else v) (findUserByEmail d em)" for em
    unfolding findUserByEmail_def d' by (rule find_row_update_where) (simp add: f_def)
  have "findUserByEmail d' em = findUserByEmail d em" if "em \<noteq> su_email su"
  proof (cases "findUserByEmail d em")
    case (Some v)
    then have "v \<noteq> u" "v \<in> set (users d)" "u \<in> set (users d)"
      using \<open>findUserByEmail d (su_email su) = Some u\<close> that by (auto simp: findUserByEmail_def dest!: find_row_SomeD)
    then have "u_user_id v \<noteq> u_user_id u" using distinct_map_eqD [OF store_ok_keys(3) [OF assms(1)]] by blast
    then show ?thesis by (simp add: find Some)
  qed (simp add: find)
  moreover have "user_seeded L g d' su"
    using assms(2) by (simp add: user_seeded_def find Some f_def bcrypt_correct_def)
  ultimately show "user_seeded L g d' su \<and> (em \<noteq> su_email su \<longrightarrow> findUserByEmail d' em = findUserByEmail d em)"
    by blast
qed

lemma seed_users_sets:
  assumes "store_ok d" and "bcrypt_correct L" and "distinct (map su_email sus)"
    and "seed_users L c g k sus d = (Inr (), d')"
  shows "store_ok d' \<and> organisations d' = organisations d \<and> list_all (user_seeded L g d') sus \<and>
    (\<forall>em. em \<notin> su_email ` set sus \<longrightarrow> findUserByEmail d' em = findUserByEmail d em)"
  using assms
proof (induction L c g k sus d rule: seed_users.induct)
  case (2 L c g k su sus d)
  then obtain d1 where d1: "seed_one_user L c g k su d = Inr d1" by (auto split: sum.splits)
  note one = seed_one_user_ok [OF "2.prems"(1) d1] seed_one_user_sets [OF "2.prems"(1,2) d1]
  have rest: "store_ok d' \<and> organisations d' = organisations d1 \<and> list_all (user_seeded L g d') sus \<and>
    (\<forall>em. em \<notin> su_email ` set sus \<longrightarrow> findUserByEmail d' em = findUserByEmail d1 em)"
    by (rule "2.IH" [OF d1]) (use "2.prems" d1 one(1) in simp_all)
  moreover have "user_seeded L g d' su"
    using one(3) rest "2.prems"(3) by (auto simp: user_seeded_def)
  ultimately show ?case using one(2,4) by auto
qed simp

text \<open>On users who are all there already and in the right place, nothing but passwords is written.\<close>

lemma seed_again:
  assumes "store_ok d" and "bcrypt_correct L" and "distinct (map su_email sus)" and "list_all (user_seeded L g d) sus"
  shows "\<exists>d'. seed_users L c g k sus d = (Inr (), d') \<and> map who (users d') = map who (users d) \<and>
    organisations d' = organisations d"
  using assms
proof (induction sus arbitrary: d k)
  case (Cons su sus)
  obtain u where u: "findUserByEmail d (su_email su) = Some u" "u_org_id u = Some g" "u_role u = su_role su"
    "u_status u = UserACTIVE"
    using Cons.prems(4) by (auto simp: user_seeded_def)
  define f where "f = (\<lambda>v :: user. v\<lparr>u_password_hash := Some (bcrypt_hash L (sd_salt c k) 12 (su_plain su)), u_org_id := Some g,
    u_role := su_role su, u_status := UserACTIVE\<rparr>)"
  define d1 where "d1 = d\<lparr>users := update_where (\<lambda>v. u_user_id v = u_user_id u) f (users d)\<rparr>"
  have one: "seed_one_user L c g k su d = Inr d1" by (simp add: seed_one_user_def u(1) d1_def f_def Let_def)
  have ok1: "store_ok d1" by (rule seed_one_user_ok(1) [OF Cons.prems(1) one])
  have "v = u" if "v \<in> set (users d)" "u_user_id v = u_user_id u" for v
    using distinct_map_eqD [OF store_ok_keys(3) [OF Cons.prems(1)] that(1) _ that(2)] u(1)
    by (auto simp: findUserByEmail_def dest: find_row_SomeD)
  moreover have "who (f u) = who u" using u by (simp add: f_def who_def)
  ultimately have same: "map who (users d1) = map who (users d)" by (auto simp: d1_def update_where_def)
  have "user_seeded L g d1 su'" if "su' \<in> set sus" for su'
  proof -
    have "su_email su' \<noteq> su_email su" using Cons.prems(3) that by (auto simp: image_iff)
    then show ?thesis
      using Cons.prems(4) that seed_one_user_sets(2) [OF Cons.prems(1,2) one]
      by (auto simp: list_all_iff user_seeded_def)
  qed
  then obtain d' where "seed_users L c g (Suc k) sus d1 = (Inr (), d')" "map who (users d') = map who (users d1)"
      "organisations d' = organisations d1"
    using Cons.IH [OF ok1 Cons.prems(2), of "Suc k"] Cons.prems(3) by (auto simp: list_all_iff)
  then show ?case using same one by (simp add: d1_def)
qed simp

lemma seed_organisation_sets:
  assumes "store_ok d" and "seed_organisation c name d = Inr (i, d')"
  shows "store_ok d'" and "users d' = users d"
    and "\<exists>g \<in> set (organisations d'). findOrgByName d' name = Some g \<and> o_org_id g = i \<and> o_status g = OrgACTIVE"
proof (atomize (full), cases "findOrgByName d name")
  case None
  define g where "g = (new_organisation (sd_now c) (sd_id c 0) name)
    \<lparr>o_status := OrgACTIVE, o_subscription_status := SubACTIVE, o_user_limit := 25\<rparr>"
  obtain orgs where orgs: "insert_row org_constraints g (organisations d) = Inr orgs" "i = sd_id c 0"
    "d' = d\<lparr>organisations := orgs\<rparr>"
    using assms(2) None by (auto simp: seed_organisation_def map_sum_def g_def Let_def split: sum.splits)
  note app = insert_row_SomeD(1) [OF orgs(1)]
  have "store_ok d'"
    using assms(1) insert_row_unique [OF _ orgs(1)] by (simp add: store_ok_def orgs(3))
  moreover have "findOrgByName d' name = Some g"
    using None by (simp add: findOrgByName_def orgs(3) app find_row_append g_def new_organisation_def)
  ultimately show "store_ok d' \<and> users d' = users d \<and>
    (\<exists>g \<in> set (organisations d'). findOrgByName d' name = Some g \<and> o_org_id g = i \<and> o_status g = OrgACTIVE)"
    by (auto simp: orgs(2,3) app g_def new_organisation_def)
next
  case (Some g)
  then have g: "g \<in> set (organisations d)" "o_name g = name"
    by (auto simp: findOrgByName_def dest!: find_row_SomeD)
  define f where "f = (\<lambda>g :: organisation. g\<lparr>o_status := OrgACTIVE, o_updated_at := sd_now c\<rparr>)"
  define hit where "hit = (\<lambda>h :: organisation. o_org_id h = o_org_id g)"
  show "store_ok d' \<and> users d' = users d \<and>
    (\<exists>g \<in> set (organisations d'). findOrgByName d' name = Some g \<and> o_org_id g = i \<and> o_status g = OrgACTIVE)"
  proof (cases "o_status g = OrgACTIVE")
    case True
    then show ?thesis using assms Some g by (auto simp: seed_organisation_def)
  next
    case False
    then have d': "d' = d\<lparr>organisations := update_where hit f (organisations d)\<rparr>" "i = o_org_id g"
      using assms(2) Some by (auto simp: seed_organisation_def f_def hit_def)
    have "unique_rows org_constraints (update_where hit f (organisations d))"
      using assms(1) by (auto simp: store_ok_def org_constraints_def f_def intro!: unique_rows_update)
    then have "store_ok d'" using assms(1) by (simp add: store_ok_def d')
    moreover have "findOrgByName d' name = Some (f g)"
      using Some by (simp add: findOrgByName_def d' find_row_update_where f_def hit_def)
    ultimately show ?thesis
      using \<open>findOrgByName d' name = Some (f g)\<close>
      by (auto simp: d' findOrgByName_def f_def dest: find_row_SomeD)
  qed
qed

lemma seedOrg_twice:
  assumes "store_ok d" and "bcrypt_correct L" and "distinct (map su_email (so_users seed))"
    and "seedOrg L c seed d = (Inr (), d1)"
  shows "\<exists>g d2. g \<in> set (organisations d1) \<and> o_name g = so_name seed \<and> o_status g = OrgACTIVE \<and>
    list_all (user_seeded L (o_org_id g) d1) (so_users seed) \<and>
    seedOrg L c' seed d1 = (Inr (), d2) \<and> organisations d2 = organisations d1 \<and>
    map who (users d2) = map who (users d1)"
proof -
  obtain i d0 where d0: "seed_organisation c (so_name seed) d = Inr (i, d0)"
    "seed_users L c i 0 (so_users seed) d0 = (Inr (), d1)"
    using assms(4) by (auto simp: seedOrg_def split: sum.splits)
  note org = seed_organisation_sets [OF assms(1) d0(1)]
  note us = seed_users_sets [OF org(1) assms(2,3) d0(2)]
  obtain g where g: "findOrgByName d1 (so_name seed) = Some g" "o_org_id g = i" "o_status g = OrgACTIVE"
    "g \<in> set (organisations d1)" "o_name g = so_name seed"
    using org(3) us by (auto simp: findOrgByName_def dest: find_row_SomeD)
  then have again: "seed_organisation c' (so_name seed) d1 = Inr (i, d1)" by (simp add: seed_organisation_def)
  obtain d2 where "seed_users L c' i 0 (so_users seed) d1 = (Inr (), d2)" "map who (users d2) = map who (users d1)"
      "organisations d2 = organisations d1"
    using seed_again [OF _ assms(2,3), of d1 i c' 0] us by blast
  then have "seedOrg L c' seed d1 = (Inr (), d2)" by (simp add: seedOrg_def again)
  with g us \<open>map who (users d2) = _\<close> \<open>organisations d2 = _\<close> show ?thesis by blast
qed

text \<open>The addresses and the names of the script are distinct.\<close>

lemma ORGS_distinct:
  "distinct (concat (map (\<lambda>seed. map su_email (so_users seed)) ORGS))" "distinct (map so_name ORGS)"
  by code_simp+

text \<open>The script for test keys cannot run twice: the name of its organisation is taken.\<close>

lemma test_seed_runs_once:
  assumes "findOrgByName d ''Demo Org'' = Some g"
  shows "\<exists>err. seed_test_api_key L now i bytes1 bytes2 d = (Inl err, d)"
proof -
  define org where "org = (new_organisation now (i 0) ''Demo Org'')
    \<lparr>o_status := OrgACTIVE, o_subscription_status := SubACTIVE, o_user_limit := 10\<rparr>"
  have "\<exists>err. insert_row org_constraints org (organisations d) = Inl err"
    by (rule row_insert_taken [of o_name _ _ g "''organisations_name''"])
      (use assms in \<open>simp_all add: findOrgByName_def org_def new_organisation_def org_constraints_def\<close>)
  then show ?thesis by (auto simp: seed_test_api_key_def org_def Let_def)
qed

section \<open>Properties\<close>

text \<open>
  C40. The seed script may run again: where it has seeded an organisation, the organisation is active and each of its
  users is there, active, with the role and the password of the list; a second run succeeds,
  leaves the organisations alone and writes nothing of a user but the password hash.
\<close>

theorem seed_idempotent:
  assumes "store_ok d" and "bcrypt_correct L" and "distinct (map su_email (so_users seed))"
    and "seedOrg L c seed d = (Inr (), d1)"
  shows "\<exists>g d2. g \<in> set (organisations d1) \<and> o_name g = so_name seed \<and> o_status g = OrgACTIVE \<and>
    list_all (user_seeded L (o_org_id g) d1) (so_users seed) \<and>
    seedOrg L c' seed d1 = (Inr (), d2) \<and> organisations d2 = organisations d1 \<and>
    map who (users d2) = map who (users d1)"
  by (rule seedOrg_twice [OF assms])

definition demo_seed_ctx :: seed_ctx where
  "demo_seed_ctx = \<lparr>sd_now = 0, sd_id = (\<lambda>k. [CHR ''s'', digit_char k]), sd_salt = (\<lambda>k. [])\<rparr>"

lemma seed_idempotent_witness:
  "\<exists>d1 d2. seedOrg demo_libs demo_seed_ctx (hd ORGS) empty_store = (Inr (), d1) \<and>
    seedOrg demo_libs demo_seed_ctx (hd ORGS) d1 = (Inr (), d2) \<and> map who (users d2) = map who (users d1)"
proof -
  let ?run = "seedOrg demo_libs demo_seed_ctx (hd ORGS) empty_store"
  have "fst ?run = Inr ()" by code_simp
  then have run: "?run = (Inr (), snd ?run)" by (simp add: prod_eq_iff)
  have "bcrypt_correct demo_libs" using toy_libs_laws(3) by (simp add: bcrypt_correct_def demo_libs_def)
  moreover have "distinct (map su_email (so_users (hd ORGS)))" by code_simp
  ultimately show ?thesis using seed_idempotent [OF store_ok_empty _ _ run] run by metis
qed

end
