(* ===== verification/Boot.thy ===== *)
theory Boot
  imports Anchoring Signing "HOL-Library.Monad_Syntax"
begin

text \<open>
  \<open>config/env.ts\<close>, \<open>config/kms.config.ts\<close>, \<open>config/database.ts\<close> with the migration, \<open>logger.ts\<close>,
  \<open>middleware/requestLogger.ts\<close>, \<open>app.ts\<close>, \<open>main.ts\<close> and \<open>scripts/getKmsSignerAddress.ts\<close>: the environment the
  program accepts, the options of its database and its log, the origins it answers, its health check, and how it starts and stops. Connecting, listening and closing
  are given by their outcomes.
\<close>

section \<open>The environment\<close>

datatype node_env = Development | Production | TestEnv
datatype log_level = LogDebug | LogInfo | LogWarn | LogError

record app_env =
  ae_PORT :: int
  ae_NODE_ENV :: node_env
  ae_JWT_SECRET :: string
  ae_DATABASE_URL :: "string option"
  ae_FRONTEND_URL :: "string option"
  ae_AWS_REGION :: string
  ae_AWS_SES_FROM_EMAIL :: "string option"
  ae_GOOGLE_CLIENT_ID :: "string option"
  ae_STRIPE_SECRET_KEY :: "string option"
  ae_STRIPE_PRICE_ID :: "string option"
  ae_TOTP_ENCRYPTION_KEY :: "string option"
  ae_REDIS_URL :: string
  ae_LOG_LEVEL :: log_level
  ae_SERVICE_NAME :: string

text \<open>What the schema takes from zod: a text as a number, when that is an integer, and the formats.\<close>

record env_checks =
  ec_integer :: "string \<Rightarrow> int option"
  ec_url :: "string \<Rightarrow> bool"
  ec_email :: "string \<Rightarrow> bool"

definition default_to :: "'a \<Rightarrow> (string \<Rightarrow> 'a option) \<Rightarrow> string option \<Rightarrow> 'a option" where
  "default_to d check v = (case v of None \<Rightarrow> Some d | Some s \<Rightarrow> check s)"

definition optional_if :: "(string \<Rightarrow> bool) \<Rightarrow> string option \<Rightarrow> string option option" where
  "optional_if P v = (case v of None \<Rightarrow> Some None | Some s \<Rightarrow> if P s then Some (Some s) else None)"

definition positive_int :: "env_checks \<Rightarrow> string \<Rightarrow> int option" where
  "positive_int K s = (case ec_integer K s of None \<Rightarrow> None | Some i \<Rightarrow> if 0 < i then Some i else None)"

definition node_env_of :: "string \<Rightarrow> node_env option" where
  "node_env_of s =
     (if s = ''development'' then Some Development else if s = ''production'' then Some Production
      else if s = ''test'' then Some TestEnv else None)"

definition log_level_of :: "string \<Rightarrow> log_level option" where
  "log_level_of s =
     (if s = ''debug'' then Some LogDebug else if s = ''info'' then Some LogInfo
      else if s = ''warn'' then Some LogWarn else if s = ''error'' then Some LogError else None)"

text \<open>The parsed environment; \<open>None\<close> when \<open>parse\<close> throws.\<close>

definition envSchema :: "env_checks \<Rightarrow> (string \<Rightarrow> string option) \<Rightarrow> app_env option" where
  "envSchema K v = do {
     port \<leftarrow> default_to 3000 (positive_int K) (v ''PORT'');
     node \<leftarrow> default_to Development node_env_of (v ''NODE_ENV'');
     secret \<leftarrow> v ''JWT_SECRET'';
     _ \<leftarrow> (if 32 \<le> length secret then Some () else None);
     front \<leftarrow> optional_if (ec_url K) (v ''FRONTEND_URL'');
     ses \<leftarrow> optional_if (ec_email K) (v ''AWS_SES_FROM_EMAIL'');
     totp \<leftarrow> optional_if (\<lambda>s. 32 \<le> length s) (v ''TOTP_ENCRYPTION_KEY'');
     level \<leftarrow> default_to LogInfo log_level_of (v ''LOG_LEVEL'');
     Some \<lparr>ae_PORT = port, ae_NODE_ENV = node, ae_JWT_SECRET = secret, ae_DATABASE_URL = v ''DATABASE_URL'',
       ae_FRONTEND_URL = front, ae_AWS_REGION = (case v ''AWS_REGION'' of None \<Rightarrow> ''us-east-1'' | Some r \<Rightarrow> r),
       ae_AWS_SES_FROM_EMAIL = ses, ae_GOOGLE_CLIENT_ID = v ''GOOGLE_CLIENT_ID'',
       ae_STRIPE_SECRET_KEY = v ''STRIPE_SECRET_KEY'', ae_STRIPE_PRICE_ID = v ''STRIPE_PRICE_ID'',
       ae_TOTP_ENCRYPTION_KEY = totp,
       ae_REDIS_URL = (case v ''REDIS_URL'' of None \<Rightarrow> ''redis://localhost:6379'' | Some r \<Rightarrow> r),
       ae_LOG_LEVEL = level,
       ae_SERVICE_NAME = (case v ''SERVICE_NAME'' of None \<Rightarrow> ''hashira-api'' | Some n \<Rightarrow> n)\<rparr>
   }"

definition createKmsClient :: "(string \<Rightarrow> string option) \<Rightarrow> string result" where
  "createKmsClient v =
     (if \<not> truthy (v ''AWS_REGION'') then Inl (Native ''AWS_REGION environment variable is not set'' None)
      else Inr (the (v ''AWS_REGION'')))"

lemma default_port: "default_to 3000 (positive_int K) v = Some p \<Longrightarrow> 0 < p"
  by (auto simp: default_to_def positive_int_def split: option.splits if_splits)

lemma envSchema_SomeD:
  assumes "envSchema K v = Some a"
  shows "32 \<le> length (ae_JWT_SECRET a) \<and> 0 < ae_PORT a"
  using assms unfolding envSchema_def bind_eq_Some_conv
  by (elim exE conjE) (clarsimp simp: default_port split: if_split_asm)

section \<open>The application\<close>

definition DEV_ORIGINS :: "string list" where
  "DEV_ORIGINS = [''http://localhost:3000'', ''http://localhost:3001'', ''http://localhost:3002'', ''http://localhost:5173'']"

definition TAURI_ORIGINS :: "string list" where
  "TAURI_ORIGINS = [''tauri://localhost'', ''https://tauri.localhost'', ''http://tauri.localhost'', ''http://127.0.0.1:1430'']"

definition allowedOrigins :: "(string \<Rightarrow> string option) \<Rightarrow> string list" where
  "allowedOrigins v =
     (if truthy (v ''FRONTEND_URL'') then [the (v ''FRONTEND_URL'')] else DEV_ORIGINS) @ TAURI_ORIGINS"

text \<open>The health check: without a queue it is unavailable, otherwise it tells the counts of the queue.\<close>

record job_counts =
  jc_waiting :: nat
  jc_active :: nat
  jc_completed :: nat
  jc_failed :: nat
  jc_delayed :: nat

datatype health = Unavailable | QueueOk job_counts

definition health_queue :: "(job_counts result) option \<Rightarrow> (int \<times> health) result" where
  "health_queue anchorQueue =
     (case anchorQueue of
        None \<Rightarrow> Inr (503, Unavailable)
      | Some (Inl err) \<Rightarrow> Inl err
      | Some (Inr counts) \<Rightarrow> Inr (200, QueueOk counts))"

section \<open>The data source\<close>

datatype entity = Organisation | User | Event | ApiKey | Invitation | OtpToken | RefreshToken | PasswordResetToken | AuditLog

datatype ssl = NoSsl | VerifiedSsl

record data_source =
  ds_url :: "string option"
  ds_synchronize :: bool
  ds_logging :: bool
  ds_ssl :: ssl
  ds_entities :: "entity list"
  ds_migrations :: "string list"

definition AppDataSource :: "(string \<Rightarrow> string option) \<Rightarrow> data_source" where
  "AppDataSource v =
     \<lparr>ds_url = v ''DATABASE_URL'', ds_synchronize = (v ''NODE_ENV'' = Some ''development''), ds_logging = False,
      ds_ssl = (if v ''NODE_ENV'' = Some ''production'' then VerifiedSsl else NoSsl),
      ds_entities = [Organisation, User, Event, ApiKey, Invitation, OtpToken, RefreshToken, PasswordResetToken, AuditLog],
      ds_migrations = [''dist/migrations/*.js'']\<rparr>"

text \<open>The one migration, on the columns of the table of keys: \<open>IF NOT EXISTS\<close>, \<open>IF EXISTS\<close>.\<close>

definition migration_up :: "string list \<Rightarrow> string list" where
  "migration_up columns = (if ''user_id'' \<in> set columns then columns else columns @ [''user_id''])"

definition migration_down :: "string list \<Rightarrow> string list" where
  "migration_down columns = filter (\<lambda>c. c \<noteq> ''user_id'') columns"

text \<open>Running it again changes nothing, undoing it restores the table, and it gives the table the column of the entity.\<close>

lemma migration:
  "migration_up (migration_up columns) = migration_up columns" "''user_id'' \<in> set (migration_up columns)"
  "''user_id'' \<notin> set columns \<Longrightarrow> migration_down (migration_up columns) = columns"
  by (auto simp: migration_up_def migration_down_def filter_id_conv)

text \<open>The production database is never changed on start, and its certificate is checked.\<close>

lemma production_database:
  "v ''NODE_ENV'' = Some ''production'' \<Longrightarrow> \<not> ds_synchronize (AppDataSource v) \<and> ds_ssl (AppDataSource v) = VerifiedSsl"
  by (simp add: AppDataSource_def)

text \<open>
  Without \<open>NODE_ENV\<close> the schema of the environment says \<open>development\<close>, but the data source, which reads the
  variable itself, does not create the tables.
\<close>

lemma no_node_env:
  assumes "v ''NODE_ENV'' = None" and "envSchema K v = Some a"
  shows "ae_NODE_ENV a = Development \<and> \<not> ds_synchronize (AppDataSource v)"
  using assms
  by (auto simp: AppDataSource_def envSchema_def default_to_def Let_def bind_eq_Some_conv split: if_splits)

section \<open>Logging\<close>

record logger_options =
  lg_level :: string
  lg_service :: string
  lg_env :: string

definition logger :: "(string \<Rightarrow> string option) \<Rightarrow> logger_options" where
  "logger v =
     (let default = (\<lambda>key d. case v key of None \<Rightarrow> d | Some s \<Rightarrow> s) in
      \<lparr>lg_level = default ''LOG_LEVEL'' ''info'', lg_service = default ''SERVICE_NAME'' ''hashira-api'',
       lg_env = default ''NODE_ENV'' ''development''\<rparr>)"

text \<open>What is written of a request, once it is answered: never its body, its headers or its cookies.\<close>

record request_log =
  rl_request_id :: "string option"
  rl_method :: string
  rl_url :: string
  rl_statusCode :: int

definition requestLogger :: "string \<Rightarrow> string \<Rightarrow> string option \<Rightarrow> int \<Rightarrow> request_log option" where
  "requestLogger method url request_id statusCode =
     (if url = ''/health/queue'' then None
      else Some \<lparr>rl_request_id = request_id, rl_method = method, rl_url = url, rl_statusCode = statusCode\<rparr>)"

section \<open>The address of the signer\<close>

text \<open>
  \<open>scripts/getKmsSignerAddress.ts\<close>: the address, key and region it prints, and the exit code. \<open>connect\<close> gives
  the key service in a region.
\<close>

definition getKmsSignerAddress ::
    "(string \<Rightarrow> signer_libs) \<Rightarrow> (string \<Rightarrow> string option) \<Rightarrow> env \<Rightarrow> (string \<times> string option \<times> string) option \<times> int" where
  "getKmsSignerAddress connect v e =
     (case createKmsClient v of
        Inl err \<Rightarrow> (None, 1)
      | Inr region \<Rightarrow>
          (case getSignerAddress (connect region) e of
             Inl err \<Rightarrow> (None, 1)
           | Inr address \<Rightarrow> (Some (address, env_KMS_SIGNING_KEY_ID e, region), 0)))"

lemma signer_address_printed:
  assumes "getKmsSignerAddress connect v e = (Some (address, key, region), code)"
  shows "code = 0 \<and> v ''AWS_REGION'' = Some region \<and> getSignerAddress (connect region) e = Inr address"
  using assms by (auto simp: getKmsSignerAddress_def createKmsClient_def truthy_def split: sum.splits if_splits option.splits)

section \<open>Starting and stopping\<close>

text \<open>What the running process holds.\<close>

record server =
  sv_db :: bool \<comment> \<open>the data source is initialised\<close>
  sv_chain :: "(chain \<times> string \<times> string) option" \<comment> \<open>the chain, its node and the key of the wallet\<close>
  sv_queue :: bool
  sv_worker :: bool
  sv_service :: bool \<comment> \<open>ingestion has its processing service\<close>
  sv_listening :: "int option"

definition stopped :: server where
  "stopped = \<lparr>sv_db = False, sv_chain = None, sv_queue = False, sv_worker = False, sv_service = False,
     sv_listening = None\<rparr>"

text \<open>\<open>bootstrap\<close>: every part is in place before the server listens; any failure ends the process.\<close>

definition bootstrap :: "unit result \<Rightarrow> chain_env \<Rightarrow> app_env \<Rightarrow> server result" where
  "bootstrap initialized ce a =
     (case initialized of
        Inl err \<Rightarrow> Inl err
      | Inr _ \<Rightarrow>
          (case createBlockchainConfig ce of
             Inl err \<Rightarrow> Inl err
           | Inr config \<Rightarrow>
               (case createBlockchainWalletClient ce config of
                  Inl err \<Rightarrow> Inl err
                | Inr (key, c, rpc) \<Rightarrow>
                    (case createBlockchainPublicClient config of
                       Inl err \<Rightarrow> Inl err
                     | Inr _ \<Rightarrow>
                         Inr \<lparr>sv_db = True, sv_chain = Some (c, rpc, key), sv_queue = True, sv_worker = True,
                              sv_service = True, sv_listening = Some (ae_PORT a)\<rparr>))))"

text \<open>
  \<open>shutdown\<close>: no more requests, then the worker, the queue and the database are closed, in this order.
  \<open>closes\<close> tells which of the three closings succeed; the second component is the exit code.
\<close>

definition shutdown :: "bool \<times> bool \<times> bool \<Rightarrow> server \<Rightarrow> server \<times> int" where
  "shutdown closes sv =
     (let (worker, q, d) = closes; sv1 = sv\<lparr>sv_listening := None\<rparr> in
      if \<not> worker then (sv1, 1)
      else let sv2 = sv1\<lparr>sv_worker := False\<rparr> in
      if \<not> q then (sv2, 1)
      else let sv3 = sv2\<lparr>sv_queue := False\<rparr> in
      if sv_db sv3 \<and> \<not> d then (sv3, 1)
      else (sv3\<lparr>sv_db := False\<rparr>, 0))"

text \<open>A server that listens is complete: it is on one of the two chains, and ingestion has its service.\<close>

lemma bootstrap_complete:
  assumes "bootstrap i ce a = Inr sv"
  shows "sv_db sv \<and> sv_queue sv \<and> sv_worker sv \<and> sv_service sv \<and> sv_listening sv = Some (ae_PORT a) \<and>
    (\<exists>c rpc key. sv_chain sv = Some (c, rpc, key) \<and> key = ''0x'' @ the (SIGNING_PRIVATE_KEY ce) \<and>
       truthy (SIGNING_PRIVATE_KEY ce))"
  using assms
  by (auto simp: bootstrap_def createBlockchainWalletClient_def map_sum_def split: sum.splits if_splits)

lemma shutdown_order:
  "shutdown closes sv = (sv', code) \<Longrightarrow>
     sv_listening sv' = None \<and> (\<not> sv_queue sv' \<and> sv_queue sv \<longrightarrow> \<not> sv_worker sv') \<and> (code = 0 \<longrightarrow> \<not> sv_db sv' \<and> \<not> sv_queue sv')"
  by (auto simp: shutdown_def Let_def split: prod.splits if_splits)

end
