(* ===== verification/Spec2Isabelle.thy ===== *)
theory Spec2Isabelle
  imports Backoff Signing Activation SecondFactor ServerProperties RequestProperties Seeds Boot
begin

text \<open>
  Hashira backend: a verification library.

  The program (TypeScript, Express, TypeORM, BullMQ, viem) takes records of AI interactions from clients with
  API keys, stores them encrypted, writes the hash of their canonical text to a contract on a blockchain,
  and lets the users of an organisation read and verify them. Around that are organisations, users,
  logins with one-time codes, Google accounts, refresh tokens, password resets, second factors,
  invitations and API keys. All paths below are under \<open>src/src\<close> unless they start with \<open>scripts\<close> at
  the root of the repository.

  How the model runs. The state of the process is the record \<open>sys\<close> (\<open>Session\<close>): the database, the two maps
  of failed attempts, the mails sent, the timers and callbacks that are pending, and the anchoring queue.
  A service operation is a function of the state that gives a result, \<open>Inl\<close> an error or \<open>Inr\<close> a value, and the
  state after it; what was written before a throw stays written. What one run takes from the world
  (clock, randomness, generated identifiers, answers of mail, Google and Stripe) is the record \<open>ctx\<close>.
  The chain is a state of any type with two operations (\<open>chain_client\<close>). \<open>account_step\<close> (\<open>Accounts\<close>),
  \<open>pipeline_step\<close> (\<open>Pipeline\<close>) and \<open>program_step\<close> (\<open>System\<close>) are the steps of the account services, of the event
  pipeline and of the whole program: any operation, with any arguments, at any time, with any
  answers of the world; a timer; a callback; a job; a restart of the process; a move of the chain.

  How requests interleave. A request is a value of type \<open>async\<close> (\<open>Async\<close>): its answer, or one statement up to the next
  \<open>await\<close> of the source and what follows it. The requests of the account services, of API keys, and the ingestion of an event are
  written statement by statement in \<open>Requests\<close>; each is proved to do what its operation does when it runs alone. A
  step of the server (\<open>serves\<close>, in \<open>Concurrency\<close>) is the arrival of a request, one statement of one of the requests that
  wait, a \<open>program_step\<close>, or a restart, which forgets the requests. The properties of events, of tokens and codes, of sessions and of
  revoked keys hold in every state such a server reaches; the limits of users and of attempts are checked before
  they are used and hold only for requests that follow each other (\<open>account_step\<close>).

  The theories and the code.

    \<^item> \<open>Prelude\<close>, \<open>JsString\<close>, \<open>JsDate\<close>, \<open>Json\<close>, \<open>Codec\<close>: tables as lists of rows, and what the source uses of
      JavaScript: strings, dates (\<open>Date.parse\<close> of ISO texts, \<open>toISOString\<close>), JSON values and their property order, hex,
      base64 and UTF-8.
    \<^item> \<open>Errors\<close>, \<open>Enums\<close>, \<open>Libs\<close>: \<open>types\<close>, the error handler, and the library functions the program
      is given, with the laws theorems assume of them.
    \<^item> \<open>Crypto\<close>, \<open>Backoff\<close>, \<open>Canonical\<close>, \<open>Signing\<close>: \<open>utils\<close>, the retry loop, \<open>services/CanonicalisationService.ts\<close>,
      \<open>services/BlockchainSigningService.ts\<close>.
    \<^item> \<open>Store\<close>, \<open>Repositories\<close>: \<open>entities\<close> with their unique constraints, and every function of \<open>repositories\<close>.
    \<^item> \<open>Limiter\<close>, \<open>Session\<close>, \<open>Tokens\<close>, \<open>Auth\<close>, \<open>Otp\<close>, \<open>PasswordReset\<close>, \<open>Refresh\<close>, \<open>Mfa\<close>, \<open>Organisations\<close>: the services under
      \<open>services/auth\<close> and \<open>services/organisation\<close>. \<open>Limiter\<close> and \<open>Tokens\<close> hold the two contracts several of
      them share, as locales: \<open>attempt_limiter\<close> (interpreted for logins in \<open>Auth\<close> and for reset codes in
      \<open>PasswordReset\<close>) and \<open>one_time_tokens\<close> (interpreted for refresh tokens in \<open>Tokens\<close> and for reset codes in
      \<open>PasswordReset\<close>).
    \<^item> \<open>Integrity\<close>, \<open>Accounts\<close>: the invariants of the account tables, and that every operation keeps them.
    \<^item> \<open>Events\<close>, \<open>Anchoring\<close>, \<open>Pipeline\<close>, \<open>EventHistory\<close>, \<open>Lifecycle\<close>: ingestion and processing (\<open>services/event\<close>),
      \<open>services/BlockchainAnchoringService.ts\<close>, the worker and the chain configuration; the invariant
      of the pipeline; how an event changes; and the abstract life of events.
    \<^item> \<open>Query\<close>, \<open>ApiKeys\<close>: \<open>services/event/event-query.service.ts\<close> and \<open>services/api-key\<close>.
    \<^item> \<open>Http\<close>, \<open>EventRoutes\<close>, \<open>AccountRoutes\<close>, \<open>Validators\<close>, \<open>Routes\<close>: \<open>middleware\<close>, \<open>controllers\<close>, \<open>validators\<close> and
      \<open>routes\<close>. A route is the chain of its middlewares with its controller at the end.
    \<^item> \<open>AccountFrame\<close>, \<open>System\<close>: what the account services do not touch, as a locale (interpreted for the tables of
      events and keys in \<open>System\<close>, for active organisations in \<open>Activation\<close>); the whole program, its invariant and its steps.
    \<^item> \<open>Async\<close>, \<open>Requests\<close>, \<open>Concurrency\<close>: requests at the granularity of \<open>await\<close>, the services in this form, and the
      server. The locale \<open>interference\<close> is the contract of a relation that every statement may rely on and guarantees
      (interpreted for the tables of accounts in \<open>Concurrency\<close>); \<open>each\<close> says what every statement does in any state.
    \<^item> \<open>Seeds\<close>, \<open>Boot\<close>: the seed scripts; \<open>config\<close>, the migration, \<open>logger.ts\<close>, \<open>middleware/requestLogger.ts\<close>,
      \<open>app.ts\<close>, \<open>main.ts\<close> and the script that prints the address of the signer.
    \<^item> \<open>Demo\<close>, \<open>EventDemo\<close>: concrete states for the witnesses.

  What is shown. The properties are numbered C1 to C40 by importance; the number stands in the text before
  the theorem.

    \<^item> \<open>Canonical\<close>, \<open>Backoff\<close>, \<open>Signing\<close>: a changed event has another canonical text, so that an equal hash is a
      collision; the canonical text does not depend on the order of keys; the retry loop ends
      after at most its attempts and with which result; the DER parser inverts the encoding; a signature recovers to the signer.
    \<^item> \<open>EventProperties\<close>, \<open>AnchorProperties\<close>, \<open>RequestProperties\<close>: what holds of all events in every state a server
      reaches; that what a verified event decrypts to is what the chain has; that an event is never lost and a final status
      is final; that the server refines the abstract life of events; that an event reaches the chain; idempotency
      and its race; that the bodies a schema accepts are exactly those of its type (locale \<open>body_schema\<close>, interpreted
      for events, sign-ups and keys); and that requests outside the limits of the schemas change nothing.
    \<^item> \<open>RouteProperties\<close>, \<open>SessionProperties\<close>: who reads and who writes what; that pages cover a listing; how long a
      key and a session work; that a key reads what an administrator reads.
    \<^item> \<open>AccountProperties\<close>, \<open>LoginProperties\<close>: for requests that follow each other, unique columns, user limits and attempts in
      every reachable state; what a login and a password reset achieve; how many guesses are compared.
    \<^item> \<open>ServerProperties\<close>: for requests that interleave, that a request that is not interrupted is its operation; that the tables of
      tokens refine an abstract machine; that tokens and codes work once and a logout revokes; how many guesses can be compared
      when they arrive together; and runs in which two requests use one token, one code or the last place of an organisation.
    \<^item> \<open>Activation\<close>, \<open>SecondFactor\<close>: what a sign-up creates and what a failed one leaves, when an organisation becomes
      active and that in production none does; the second factor from enrolment to removal.
    \<^item> \<open>Seeds\<close>: seeding twice is seeding once, up to password hashes.

  Laws of libraries. Theorems name what they assume of a library function: \<open>gcm_correct\<close> (decryption inverts encryption),
  \<open>bcrypt_correct\<close>, \<open>jwt_correct\<close>, \<open>chain_law\<close> (what a chain client answers is true and is not forgotten),
  \<open>zod_law\<close> (a schema accepts what passes its checks). Each has an instance in the witnesses.
  SHA-256 is any function: statements about hashes say what an equality of digests means, or hold for all functions.

  Bounds. There is no fuel: the loops of the source are structural or, as the retry loop, have a termination proof.
  Limits (10 users, 5 and 10 attempts, 100000 characters, 50 and 300 requests) are the source's constants.

  Simplifications. A request reads the clock once, when it arrives. A transaction of the database is one statement, and so
  is an insertion with its check of unique columns. The requests of the second factor (whose routes are commented out), queries, the callback that
  processes an event and a job of the worker are single steps of the server: they interleave with the statements of the other
  requests, not with each other's. A route with its middlewares is one function of the state; on the server, the check of its key and
  its handler are two calls.
  Text is Latin-1, one character per code unit; query parameters, cookies and headers are single texts.
  When two one-time codes were made in the same millisecond, the later one is the latest.

  Not modelled. The options of helmet, CORS and Swagger, the construction of the Stripe client, the OpenAPI comments of
  \<open>docs\<close>, test doubles, and what is printed besides the log of requests: they hold no logic of the program.
  express-rate-limit, zod, bcrypt, jose, jsonwebtoken, otplib, viem, BullMQ, the AWS and Stripe clients
  and PostgreSQL are outside the source: parameters, with the laws above. Column types and lengths are not
  modelled, so a value that PostgreSQL would reject for its length or type is stored.
\<close>

end
